(* ===== verification/Prelude.thy ===== *)
theory Prelude
  imports Main "HOL-Library.Word"
begin

text \<open>
  Shared vocabulary of the development: the type synonyms of the model, the parts of Go's
  standard library that several components use (\<^verbatim>\<open>strings.TrimSpace\<close>, \<^verbatim>\<open>strconv.Itoa\<close>,
  the wrap-around of \<^verbatim>\<open>int64\<close>), and the generic facts on lists and results that the
  component proofs rest on.

  Strings are byte strings, as in Go: \<open>length\<close> is Go's \<open>len\<close>.
\<close>

named_theorems go_simps \<open>unfolding rules for small Go-level helpers\<close>
named_theorems frame \<open>which parts of the state an operation leaves alone\<close>

type_synonym time = int
  \<comment> \<open>\<^verbatim>\<open>time.Time\<close> and \<^verbatim>\<open>time.Duration\<close>, in nanoseconds\<close>
type_synonym bytes = "8 word list"

definition second :: time where "second = 1000000000"
definition minute :: time where "minute = 60 * second"
definition hour :: time where "hour = 60 * minute"
definition millisecond :: time where "millisecond = 1000000"

lemmas time_units [go_simps] = second_def minute_def hour_def millisecond_def

section \<open>Results\<close>

text \<open>A fallible Go call returns \<open>Inl err\<close> or \<open>Inr value\<close>.\<close>

definition is_ok :: "'e + 'a \<Rightarrow> bool" where
  "is_ok r = (case r of Inl _ \<Rightarrow> False | Inr _ \<Rightarrow> True)"

lemma is_ok_simps [simp]: "is_ok (Inr x)" "\<not> is_ok (Inl e)"
  by (simp_all add: is_ok_def)

lemma not_is_okE: "\<not> is_ok r \<Longrightarrow> (\<And>e. r = Inl e \<Longrightarrow> P) \<Longrightarrow> P"
  by (cases r) auto

lemma is_okE: "is_ok r \<Longrightarrow> (\<And>x. r = Inr x \<Longrightarrow> P) \<Longrightarrow> P"
  by (cases r) auto

section \<open>Go's int64\<close>

text \<open>Two's complement wrap-around of a 64-bit signed sum.\<close>

definition int64 :: "int \<Rightarrow> int" where
  "int64 x = signed_take_bit 63 x"

definition fits_int64 :: "int \<Rightarrow> bool" where
  "fits_int64 x \<longleftrightarrow> - (2 ^ 63) \<le> x \<and> x < 2 ^ 63"

lemma int64_id [simp]: "fits_int64 x \<Longrightarrow> int64 x = x"
  by (simp add: int64_def fits_int64_def signed_take_bit_int_eq_self)

lemma int64_fits: "fits_int64 (int64 x)"
  unfolding int64_def fits_int64_def
  using signed_take_bit_int_greater_eq_minus_exp [of 63 x] signed_take_bit_int_less_exp [of 63 x]
  by simp

section \<open>strings.TrimSpace\<close>

text \<open>
  The UTF-8 encodings of the code points that \<^verbatim>\<open>unicode.IsSpace\<close> accepts: the ASCII ones,
  U+0085, U+00A0, U+1680, U+2000 to U+200A, U+2028, U+2029, U+202F, U+205F, U+3000.
\<close>

definition bytes_string :: "nat list \<Rightarrow> string" where
  "bytes_string = map char_of"

definition space_seqs :: "string list" where
  "space_seqs = map bytes_string
     ([[9], [10], [11], [12], [13], [32], [0xC2, 0x85], [0xC2, 0xA0], [0xE1, 0x9A, 0x80]]
      @ map (\<lambda>n. [0xE2, 0x80, n])
          [0x80, 0x81, 0x82, 0x83, 0x84, 0x85, 0x86, 0x87, 0x88, 0x89, 0x8A, 0xA8, 0xA9, 0xAF]
      @ [[0xE2, 0x81, 0x9F], [0xE3, 0x80, 0x80]])"

definition is_prefix :: "'a list \<Rightarrow> 'a list \<Rightarrow> bool" where
  "is_prefix p s \<longleftrightarrow> take (length p) s = p"

text \<open>Drop leading members of a list of sequences as long as there is one.\<close>

function drop_seqs :: "'a list list \<Rightarrow> 'a list \<Rightarrow> 'a list" where
  "drop_seqs ps s =
     (case find (\<lambda>p. p \<noteq> [] \<and> is_prefix p s) ps of
        None \<Rightarrow> s
      | Some p \<Rightarrow> drop_seqs ps (drop (length p) s))"
  by pat_completeness auto
termination
proof (relation "measure (\<lambda>(ps, s). length s)")
  fix ps :: "'a list list" and s p
  assume "find (\<lambda>p. p \<noteq> [] \<and> is_prefix p s) ps = Some p"
  then have "p \<noteq> []" and "take (length p) s = p"
    by (auto simp: find_Some_iff is_prefix_def)
  then have "s \<noteq> []" and "0 < length p" by auto
  then show "((ps, drop (length p) s), ps, s) \<in> measure (\<lambda>(ps, s). length s)" by simp
qed simp

declare drop_seqs.simps [simp del]

definition trim_space :: "string \<Rightarrow> string" where
  "trim_space s = rev (drop_seqs (map rev space_seqs) (rev (drop_seqs space_seqs s)))"

lemma length_drop_seqs: "length (drop_seqs ps s) \<le> length s"
proof (induction ps s rule: drop_seqs.induct)
  case (1 ps s)
  show ?case
  proof (cases "find (\<lambda>p. p \<noteq> [] \<and> is_prefix p s) ps")
    case None
    then show ?thesis by (subst drop_seqs.simps) simp
  next
    case (Some p)
    then show ?thesis using "1.IH" [OF Some]
      by (subst drop_seqs.simps) simp
  qed
qed

lemma drop_seqs_no_prefix:
  "p \<in> set ps \<Longrightarrow> p \<noteq> [] \<Longrightarrow> \<not> is_prefix p (drop_seqs ps s)"
proof (induction ps s rule: drop_seqs.induct)
  case (1 ps s)
  show ?case
  proof (cases "find (\<lambda>p. p \<noteq> [] \<and> is_prefix p s) ps")
    case None
    then have "drop_seqs ps s = s" by (subst drop_seqs.simps) simp
    with None "1.prems" show ?thesis by (auto simp: find_None_iff)
  next
    case (Some q)
    then have "drop_seqs ps s = drop_seqs ps (drop (length q) s)"
      by (subst drop_seqs.simps) simp
    with "1.IH" [OF Some] "1.prems" show ?thesis by simp
  qed
qed

lemma drop_seqs_id:
  "(\<And>p. p \<in> set ps \<Longrightarrow> p \<noteq> [] \<Longrightarrow> \<not> is_prefix p s) \<Longrightarrow> drop_seqs ps s = s"
  by (subst drop_seqs.simps) (auto simp: find_Some_iff split: option.splits)

lemma length_trim_space: "length (trim_space s) \<le> length s"
  unfolding trim_space_def
  by (metis length_drop_seqs length_rev order_trans)

section \<open>strconv.Itoa\<close>

definition digit :: "nat \<Rightarrow> char" where
  "digit d = char_of (48 + d)"

fun nat_digits :: "nat \<Rightarrow> string" where
  "nat_digits n =
     (if n < 10 then [digit n] else nat_digits (n div 10) @ [digit (n mod 10)])"

declare nat_digits.simps [simp del]

definition itoa :: "int \<Rightarrow> string" where
  "itoa i = (if i < 0 then CHR ''-'' # nat_digits (nat (- i)) else nat_digits (nat i))"

definition digits_value :: "string \<Rightarrow> nat" where
  "digits_value s = foldl (\<lambda>a c. 10 * a + (of_char c - 48)) 0 s"

lemma of_char_digit [simp]: "d < 10 \<Longrightarrow> (of_char (digit d) :: nat) = 48 + d"
  by (simp add: digit_def)

lemma digits_value_append:
  "digits_value (s @ [c]) = 10 * digits_value s + (of_char c - 48)"
  by (simp add: digits_value_def)

lemma digits_value_nat_digits [simp]: "digits_value (nat_digits n) = n"
proof (induction n rule: nat_digits.induct)
  case (1 n)
  show ?case
  proof (cases "n < 10")
    case True
    then show ?thesis by (subst nat_digits.simps) (simp add: digits_value_def)
  next
    case False
    with "1.IH" show ?thesis
      by (subst nat_digits.simps) (simp add: digits_value_append)
  qed
qed

lemma nat_digits_inj: "nat_digits m = nat_digits n \<Longrightarrow> m = n"
  using digits_value_nat_digits by metis

lemma nat_digits_no_minus: "CHR ''-'' \<notin> set (nat_digits n)"
proof (induction n rule: nat_digits.induct)
  case (1 n)
  have minus: "CHR ''-'' \<noteq> digit d" if "d < 10" for d
  proof
    assume "CHR ''-'' = digit d"
    then have "(of_char (CHR ''-'') :: nat) = of_char (digit d)" by simp
    with that show False by simp
  qed
  show ?case
  proof (cases "n < 10")
    case True
    then show ?thesis using minus [of n] by (subst nat_digits.simps) simp
  next
    case False
    with "1.IH" show ?thesis using minus [of "n mod 10"]
      by (subst nat_digits.simps) simp
  qed
qed

lemma itoa_inj: "itoa i = itoa j \<Longrightarrow> i = j"
proof -
  assume eq: "itoa i = itoa j"
  have ne: "nat_digits m \<noteq> CHR ''-'' # s" for m s
    using nat_digits_no_minus [of m] by auto
  show "i = j"
    using eq ne [of "nat i" "nat_digits (nat (- j))"]
      ne [of "nat j" "nat_digits (nat (- i))", symmetric]
    by (auto simp: itoa_def split: if_splits dest: nat_digits_inj)
qed

section \<open>Lists\<close>

text \<open>The first element with the largest key: what \<open>ORDER BY k DESC LIMIT 1\<close> selects.\<close>

fun max_by :: "('a \<Rightarrow> int) \<Rightarrow> 'a list \<Rightarrow> 'a option" where
  "max_by f [] = None"
| "max_by f (x # xs) =
     (case max_by f xs of
        None \<Rightarrow> Some x
      | Some y \<Rightarrow> if f y \<le> f x then Some x else Some y)"

lemma max_by_None_iff [simp]: "max_by f xs = None \<longleftrightarrow> xs = []"
  by (cases xs) (auto split: option.splits)

lemma max_by_mem: "max_by f xs = Some x \<Longrightarrow> x \<in> set xs"
  by (induction xs arbitrary: x) (auto split: option.splits if_splits)

lemma max_by_ge: "max_by f xs = Some x \<Longrightarrow> y \<in> set xs \<Longrightarrow> f y \<le> f x"
  by (induction xs arbitrary: x) (fastforce split: option.splits if_splits)+

lemma max_by_eqI:
  assumes "x \<in> set xs" and "\<And>y. y \<in> set xs \<Longrightarrow> f y \<le> f x"
    and "\<And>y. y \<in> set xs \<Longrightarrow> f y = f x \<Longrightarrow> y = x"
  shows "max_by f xs = Some x"
proof (cases "max_by f xs")
  case None
  with assms(1) show ?thesis by auto
next
  case (Some y)
  then have "y \<in> set xs" and "f x \<le> f y"
    using assms(1) by (auto dest: max_by_mem intro: max_by_ge)
  with assms(2,3) Some show ?thesis by (metis order_antisym)
qed

section \<open>Folds\<close>

lemma foldl_invariant:
  "P s \<Longrightarrow> (\<And>s a. a \<in> set l \<Longrightarrow> P s \<Longrightarrow> P (f s a)) \<Longrightarrow> P (foldl f s l)"
  by (induction l arbitrary: s) auto

end
