(* ===== verification/Steps.thy ===== *)
theory Steps
  imports Main "HOL-Library.Multiset"
begin

text \<open>
  Executions of concurrent programs.  The rotation pipeline, the asynchronous audit logger and the
  worker pool are labelled step relations; here are their executions, the contract of a program that
  moves items around without losing any, and the contract of one that drains.
\<close>

inductive steps :: "('s \<Rightarrow> 'e \<Rightarrow> 's \<Rightarrow> bool) \<Rightarrow> 's \<Rightarrow> 'e list \<Rightarrow> 's \<Rightarrow> bool" for step where
  Nil: "steps step s [] s"
| Snoc: "steps step s es s' \<Longrightarrow> step s' e s'' \<Longrightarrow> steps step s (es @ [e]) s''"

lemma steps_append: "steps step s' es' s'' \<Longrightarrow> steps step s es s' \<Longrightarrow> steps step s (es @ es') s''"
proof (induction rule: steps.induct)
  case (Snoc s' es' s1 e s2)
  then show ?case using steps.Snoc [of step s "es @ es'" s1 e s2] by simp
qed simp

lemma steps_Cons: "step s e s1 \<Longrightarrow> steps step s1 es s2 \<Longrightarrow> steps step s (e # es) s2"
  using steps_append [of step s1 es s2 s "[e]"] steps.Snoc [OF steps.Nil, of step s e s1] by simp

lemma steps_invariant:
  assumes "steps step s es s'" "P s" "\<And>s e s'. step s e s' \<Longrightarrow> P s \<Longrightarrow> P s'"
  shows "P s'"
  using assms(1,2) by (induction rule: steps.induct) (auto intro: assms(3))

lemma sum_mset_concat: "(\<Sum>e\<leftarrow>es. mset (f e)) = mset (concat (map f es))"
  by (induction es) auto

text \<open>
  A step keeps the stock but for what its label brings in and takes out; so does an execution.
\<close>

locale conserving =
  fixes step :: "'s \<Rightarrow> 'e \<Rightarrow> 's \<Rightarrow> bool" and stock :: "'s \<Rightarrow> 'a multiset" and gain loss :: "'e \<Rightarrow> 'a multiset"
  assumes step_balance: "step s e s' \<Longrightarrow> stock s' + loss e = stock s + gain e"
begin

lemma steps_balance:
  assumes "steps step s es s'"
  shows "stock s' + (\<Sum>e\<leftarrow>es. loss e) = stock s + (\<Sum>e\<leftarrow>es. gain e)"
  using assms
proof (induction rule: steps.induct)
  case (Snoc s es s' e s'')
  have "stock s'' + (\<Sum>e\<leftarrow>es @ [e]. loss e) = (stock s'' + loss e) + (\<Sum>e\<leftarrow>es. loss e)" by (simp add: ac_simps)
  also have "\<dots> = (stock s' + (\<Sum>e\<leftarrow>es. loss e)) + gain e"
    unfolding step_balance [OF Snoc(2)] by (simp only: ac_simps)
  also have "\<dots> = stock s + (\<Sum>e\<leftarrow>es @ [e]. gain e)" unfolding Snoc(3) by (simp add: ac_simps)
  finally show ?case .
qed simp

end

text \<open>
  In the states where draining is on, some draining step is possible until the end is reached, and
  each brings the end nearer; so an execution of draining steps reaches it.
\<close>

locale draining =
  fixes step :: "'s \<Rightarrow> 'e \<Rightarrow> 's \<Rightarrow> bool" and drain :: "'e \<Rightarrow> bool" and active ended :: "'s \<Rightarrow> bool" and left :: "'s \<Rightarrow> nat"
  assumes progress: "active s \<Longrightarrow> \<not> ended s \<Longrightarrow> \<exists>e s'. drain e \<and> step s e s'"
    and nearer: "step s e s' \<Longrightarrow> drain e \<Longrightarrow> active s \<Longrightarrow> left s' < left s \<and> active s'"
begin

lemma drains_to_end:
  assumes "active s"
  shows "\<exists>es s'. steps step s es s' \<and> ended s' \<and> active s' \<and> list_all drain es \<and> length es \<le> left s"
  using assms
proof (induction "left s" arbitrary: s rule: less_induct)
  case less
  show ?case
  proof (cases "ended s")
    case True
    then show ?thesis using steps.Nil [of step s] less(2) by fastforce
  next
    case False
    then obtain e s1 where e: "drain e" "step s e s1" using progress less(2) by blast
    note n = nearer [OF e(2,1) less(2)]
    obtain es s' where es: "steps step s1 es s'" "ended s'" "active s'" "list_all drain es" "length es \<le> left s1"
      using less(1) [of s1] n by blast
    then show ?thesis using steps_Cons [OF e(2) es(1)] e(1) n by (intro exI [of _ "e # es"] exI [of _ s']) simp
  qed
qed

end

end
