(* ===== verification/GoErrors.thy ===== *)
theory GoErrors
  imports Prelude
begin

text \<open>
  Go error values and the error classifier of \<^verbatim>\<open>internal/errors\<close>.

  A sentinel is a package-level \<^verbatim>\<open>errors.New\<close> variable, compared by identity: the
  \<^verbatim>\<open>ErrKeyNotFound\<close> of \<^verbatim>\<open>internal/errors\<close> and the one of \<^verbatim>\<open>pkg/postgres\<close> have the same
  text and are different values.  \<open>Wrap\<close> is the value of \<^verbatim>\<open>fmt.Errorf\<close> with \<^verbatim>\<open>%w\<close> verbs:
  its formatted text and the errors it wraps, in order.
\<close>

section \<open>Error values\<close>

datatype sentinel =
    ErrKeyNotFound | ErrInvalidInput | ErrKMSFailure | ErrAuthentication | ErrAuthorization
  | ErrConflict | ErrRateLimit | ErrExternal | ErrKeyRotationLocked | ErrKeyRevoked
  | PgErrKeyNotFound | PgErrInvalidVersion | PgErrKeyAlreadyExists
  | CbErrOpen | CbErrTimeout
  | SvcErrInvalidRequest | SvcErrInvalidKeyType | SvcErrKeyGenerationFail
  | SvcErrEntropyValidationFail | SvcErrMissingMetadata
  | CryptoErrInvalidKeyType
  | AuthErrClientNotFound | AuthErrInvalidConfig
  | PgxErrNoRows | CtxDeadlineExceeded | CtxCanceled

fun app_sentinel_text :: "sentinel \<Rightarrow> string" where
  "app_sentinel_text ErrKeyNotFound = ''key not found''"
| "app_sentinel_text ErrInvalidInput = ''invalid input''"
| "app_sentinel_text ErrKMSFailure = ''kms operation failed''"
| "app_sentinel_text ErrAuthentication = ''authentication failed''"
| "app_sentinel_text ErrAuthorization = ''authorization failed''"
| "app_sentinel_text ErrConflict = ''resource conflict''"
| "app_sentinel_text ErrRateLimit = ''rate limit exceeded''"
| "app_sentinel_text ErrExternal = ''external service error''"
| "app_sentinel_text ErrKeyRotationLocked = ''key rotation is locked''"
| "app_sentinel_text ErrKeyRevoked = ''key is revoked''"
| "app_sentinel_text _ = ''''"

fun postgres_sentinel_text :: "sentinel \<Rightarrow> string" where
  "postgres_sentinel_text PgErrKeyNotFound = ''key not found''"
| "postgres_sentinel_text PgErrInvalidVersion = ''invalid version''"
| "postgres_sentinel_text PgErrKeyAlreadyExists = ''key already exists''"
| "postgres_sentinel_text _ = ''''"

fun service_sentinel_text :: "sentinel \<Rightarrow> string" where
  "service_sentinel_text SvcErrInvalidRequest = ''invalid request''"
| "service_sentinel_text SvcErrInvalidKeyType = ''invalid key type''"
| "service_sentinel_text SvcErrKeyGenerationFail = ''failed to generate cryptographic key''"
| "service_sentinel_text SvcErrEntropyValidationFail = ''entropy validation failed''"
| "service_sentinel_text SvcErrMissingMetadata = ''key metadata is missing''"
| "service_sentinel_text _ = ''''"

fun sentinel_text :: "sentinel \<Rightarrow> string" where
  "sentinel_text CbErrOpen = ''circuit breaker is open''"
| "sentinel_text CbErrTimeout = ''circuit breaker operation timed out''"
| "sentinel_text CryptoErrInvalidKeyType = ''invalid key type''"
| "sentinel_text AuthErrClientNotFound = ''client not found''"
| "sentinel_text AuthErrInvalidConfig = ''invalid client configuration''"
| "sentinel_text PgxErrNoRows = ''no rows in result set''"
| "sentinel_text CtxDeadlineExceeded = ''context deadline exceeded''"
| "sentinel_text CtxCanceled = ''context canceled''"
| "sentinel_text s =
     (if postgres_sentinel_text s \<noteq> '''' then postgres_sentinel_text s
      else if service_sentinel_text s \<noteq> '''' then service_sentinel_text s
      else app_sentinel_text s)"

datatype grpc_code =
    OK | Canceled | Unknown | InvalidArgument | DeadlineExceeded | NotFound | AlreadyExists
  | PermissionDenied | ResourceExhausted | FailedPrecondition | Aborted | OutOfRange
  | Unimplemented | Internal | Unavailable | DataLoss | Unauthenticated

datatype go_error =
    Sentinel sentinel
  | Plain string
  | PgError string string  \<comment> \<open>SQLSTATE code and text of a \<^verbatim>\<open>pgconn.PgError\<close>\<close>
  | StatusError grpc_code string
  | Panicked string  \<comment> \<open>not an error value: the outcome of a call that panics\<close>
  | Wrap string "go_error list"

text \<open>\<^verbatim>\<open>codes.Code.String\<close> and the text of a status error.\<close>

fun code_string :: "grpc_code \<Rightarrow> string" where
  "code_string OK = ''OK''"
| "code_string Canceled = ''Canceled''"
| "code_string Unknown = ''Unknown''"
| "code_string InvalidArgument = ''InvalidArgument''"
| "code_string DeadlineExceeded = ''DeadlineExceeded''"
| "code_string NotFound = ''NotFound''"
| "code_string AlreadyExists = ''AlreadyExists''"
| "code_string PermissionDenied = ''PermissionDenied''"
| "code_string ResourceExhausted = ''ResourceExhausted''"
| "code_string FailedPrecondition = ''FailedPrecondition''"
| "code_string Aborted = ''Aborted''"
| "code_string OutOfRange = ''OutOfRange''"
| "code_string Unimplemented = ''Unimplemented''"
| "code_string Internal = ''Internal''"
| "code_string Unavailable = ''Unavailable''"
| "code_string DataLoss = ''DataLoss''"
| "code_string Unauthenticated = ''Unauthenticated''"

fun error_string :: "go_error \<Rightarrow> string" where
  "error_string (Sentinel s) = sentinel_text s"
| "error_string (Plain m) = m"
| "error_string (PgError c m) = m"
| "error_string (StatusError c m) = ''rpc error: code = '' @ code_string c @ '' desc = '' @ m"
| "error_string (Panicked m) = m"
| "error_string (Wrap m es) = m"

text \<open>\<^verbatim>\<open>errors.Is\<close> with a sentinel target, and \<^verbatim>\<open>errors.As\<close> for a \<^verbatim>\<open>*pgconn.PgError\<close>.\<close>

fun errors_is :: "go_error \<Rightarrow> sentinel \<Rightarrow> bool" where
  "errors_is (Sentinel s) t = (s = t)"
| "errors_is (Wrap m es) t = list_ex (\<lambda>e. errors_is e t) es"
| "errors_is _ t = False"

fun first_some :: "('a \<Rightarrow> 'b option) \<Rightarrow> 'a list \<Rightarrow> 'b option" where
  "first_some f [] = None"
| "first_some f (x # xs) = (case f x of Some y \<Rightarrow> Some y | None \<Rightarrow> first_some f xs)"

lemma first_some_cong [fundef_cong]:
  "xs = ys \<Longrightarrow> (\<And>x. x \<in> set ys \<Longrightarrow> f x = g x) \<Longrightarrow> first_some f xs = first_some g ys"
  by (induction ys arbitrary: xs) (auto split: option.splits)

fun pg_code :: "go_error \<Rightarrow> string option" where
  "pg_code (PgError c m) = Some c"
| "pg_code (Wrap m es) = first_some pg_code es"
| "pg_code _ = None"

text \<open>\<^verbatim>\<open>fmt.Errorf("prefix: %w", e)\<close> and \<^verbatim>\<open>fmt.Errorf("%w: %w", e, e')\<close>.\<close>

definition wrapf :: "string \<Rightarrow> go_error \<Rightarrow> go_error" where
  "wrapf p e = Wrap (p @ '': '' @ error_string e) [e]"

definition wrap2 :: "go_error \<Rightarrow> go_error \<Rightarrow> go_error" where
  "wrap2 e e' = Wrap (error_string e @ '': '' @ error_string e') [e, e']"

definition wrap_suffix :: "go_error \<Rightarrow> string \<Rightarrow> go_error" where
  "wrap_suffix e s = Wrap (error_string e @ '': '' @ s) [e]"

lemma wrap_is [simp]:
  "errors_is (wrapf p e) t = errors_is e t"
  "errors_is (wrap2 e e') t = (errors_is e t \<or> errors_is e' t)"
  "errors_is (wrap_suffix e s) t = errors_is e t"
  by (simp_all add: wrapf_def wrap2_def wrap_suffix_def)

lemma wrap_pg_code [simp]:
  "pg_code (wrapf p e) = pg_code e"
  "pg_code (wrap_suffix e s) = pg_code e"
  by (simp_all add: wrapf_def wrap_suffix_def split: option.split)

section \<open>The classifier\<close>

datatype error_class =
    ClassInternal | ClassValidation | ClassAuthentication | ClassAuthorization | ClassNotFound
  | ClassConflict | ClassRateLimit | ClassExternal | ClassFailedPrecondition

record classified_error =
  Class :: error_class
  InternalError :: "go_error option"
  ClientMessage :: string
  OperationName :: string
  ce_KeyID :: string
  ce_Metadata :: "(string \<times> string) list"

text \<open>What \<^verbatim>\<open>errorPool.New\<close> allocates, and what \<^verbatim>\<open>putError\<close> leaves behind.\<close>

definition blank_error :: classified_error where
  "blank_error = \<lparr>Class = ClassInternal, InternalError = None, ClientMessage = '''',
     OperationName = '''', ce_KeyID = '''', ce_Metadata = []\<rparr>"

definition classificationRules :: "(sentinel \<times> error_class \<times> string) list" where
  "classificationRules =
    [(ErrKeyNotFound, ClassNotFound, ''The requested resource was not found''),
     (ErrInvalidInput, ClassValidation, ''The request contains invalid parameters''),
     (ErrKMSFailure, ClassInternal, ''An internal error occurred. Please try again later''),
     (ErrAuthentication, ClassAuthentication, ''Authentication failed''),
     (ErrAuthorization, ClassAuthorization, ''Permission denied''),
     (ErrConflict, ClassConflict, ''A conflict occurred''),
     (ErrRateLimit, ClassRateLimit, ''You have exceeded the rate limit''),
     (ErrExternal, ClassExternal, ''External service temporarily unavailable''),
     (ErrKeyRevoked, ClassFailedPrecondition,
       ''The operation cannot be completed because the key is revoked'')]"

text \<open>
  The pool is the list of the records put back.  \<^verbatim>\<open>sync.Pool.Get\<close> may return any of them or
  a new one: \<open>pick\<close> is that choice.
\<close>

type_synonym error_pool = "classified_error list"

definition pool_get :: "nat option \<Rightarrow> error_pool \<Rightarrow> classified_error \<times> error_pool" where
  "pool_get pick pool =
     (case pick of
        Some i \<Rightarrow> if i < length pool then (pool ! i, take i pool @ drop (Suc i) pool)
                  else (blank_error, pool)
      | None \<Rightarrow> (blank_error, pool))"

fun apply_rules ::
  "(sentinel \<times> error_class \<times> string) list \<Rightarrow> go_error \<Rightarrow> classified_error \<Rightarrow> classified_error"
where
  "apply_rules [] err c =
     c\<lparr>Class := ClassInternal, ClientMessage := ''An unexpected internal error occurred''\<rparr>"
| "apply_rules ((target, cls, msg) # rules) err c =
     (if errors_is err target then c\<lparr>Class := cls, ClientMessage := msg\<rparr>
      else apply_rules rules err c)"

definition Classify ::
  "nat option \<Rightarrow> go_error option \<Rightarrow> string \<Rightarrow> error_pool \<Rightarrow> classified_error option \<times> error_pool"
where
  "Classify pick err operation pool =
     (case err of
        None \<Rightarrow> (None, pool)
      | Some e \<Rightarrow>
          (let (c, pool') = pool_get pick pool;
               c = c\<lparr>InternalError := Some e, OperationName := operation\<rparr>
           in (Some (apply_rules classificationRules e c), pool')))"

definition grpcCodeMap :: "(error_class \<times> grpc_code) list" where
  "grpcCodeMap =
    [(ClassNotFound, NotFound), (ClassValidation, InvalidArgument),
     (ClassAuthentication, Unauthenticated), (ClassAuthorization, PermissionDenied),
     (ClassRateLimit, ResourceExhausted), (ClassConflict, AlreadyExists),
     (ClassExternal, Unavailable), (ClassInternal, Internal),
     (ClassFailedPrecondition, FailedPrecondition)]"

definition toGRPCError :: "classified_error \<Rightarrow> go_error" where
  "toGRPCError c =
     (let code = (case map_of grpcCodeMap (Class c) of Some code \<Rightarrow> code | None \<Rightarrow> Internal)
      in StatusError code (ClientMessage c))"

definition putError :: "classified_error \<Rightarrow> error_pool \<Rightarrow> error_pool" where
  "putError c pool =
     c\<lparr>ce_KeyID := '''', InternalError := None, ce_Metadata := [],
       OperationName := '''', ClientMessage := '''', Class := ClassInternal\<rparr> # pool"

text \<open>The deferred \<^verbatim>\<open>putError\<close> runs after the returned status was built.\<close>

definition LogAndSanitize ::
  "classified_error option \<Rightarrow> error_pool \<Rightarrow> go_error option \<times> error_pool" where
  "LogAndSanitize classified pool =
     (case classified of
        None \<Rightarrow> (None, pool)
      | Some c \<Rightarrow> (let err = toGRPCError c in (Some err, putError c pool)))"

text \<open>\<^verbatim>\<open>sanitizeError\<close> of the gRPC layer is the composition of the two.\<close>

definition sanitizeError ::
  "nat option \<Rightarrow> string \<Rightarrow> go_error \<Rightarrow> error_pool \<Rightarrow> go_error option \<times> error_pool" where
  "sanitizeError pick method err pool =
     (let (c, pool') = Classify pick (Some err) method pool in LogAndSanitize c pool')"

section \<open>Properties\<close>

definition pool_clean :: "error_pool \<Rightarrow> bool" where
  "pool_clean pool \<longleftrightarrow> (\<forall>c \<in> set pool. c = blank_error)"

text \<open>The code and message a client sees, as a function of the sentinels in the error.\<close>

fun response_for ::
  "(sentinel \<times> error_class \<times> string) list \<Rightarrow> (sentinel \<Rightarrow> bool) \<Rightarrow> error_class \<times> string" where
  "response_for [] matches = (ClassInternal, ''An unexpected internal error occurred'')"
| "response_for ((target, cls, msg) # rules) matches =
     (if matches target then (cls, msg) else response_for rules matches)"

definition class_code :: "error_class \<Rightarrow> grpc_code" where
  "class_code c = (case map_of grpcCodeMap c of Some code \<Rightarrow> code | None \<Rightarrow> Internal)"

lemma apply_rules_response:
  "Class (apply_rules rs e c) = fst (response_for rs (errors_is e)) \<and>
   ClientMessage (apply_rules rs e c) = snd (response_for rs (errors_is e)) \<and>
   ce_KeyID (apply_rules rs e c) = ce_KeyID c \<and>
   ce_Metadata (apply_rules rs e c) = ce_Metadata c \<and>
   InternalError (apply_rules rs e c) = InternalError c \<and>
   OperationName (apply_rules rs e c) = OperationName c"
  by (induction rs) auto

lemma putError_blank: "putError c pool = blank_error # pool"
  by (cases c) (simp add: putError_def blank_error_def)

lemma pool_get_subset: "pool_get pick pool = (c, pool') \<Longrightarrow> set pool' \<subseteq> set pool"
  by (auto simp: pool_get_def split: option.splits if_splits
      dest: in_set_takeD in_set_dropD)

lemma pool_get_blank:
  "pool_clean pool \<Longrightarrow> pool_get pick pool = (c, pool') \<Longrightarrow> c = blank_error"
  by (auto simp: pool_get_def pool_clean_def split: option.splits if_splits)

lemma sanitizeError_response:
  "fst (sanitizeError pick method e pool) =
     Some (case response_for classificationRules (errors_is e) of
             (cls, msg) \<Rightarrow> StatusError (class_code cls) msg)"
  using apply_rules_response [of classificationRules e]
  by (simp add: sanitizeError_def Classify_def LogAndSanitize_def toGRPCError_def class_code_def
      split: prod.splits)

lemma sanitizeError_pool_clean:
  "pool_clean pool \<Longrightarrow> pool_clean (snd (sanitizeError pick method e pool))"
  using pool_get_subset [of pick pool]
  by (fastforce simp: sanitizeError_def Classify_def LogAndSanitize_def putError_blank
      pool_clean_def split: prod.splits)

lemma response_for_cong:
  "(\<And>t cls msg. (t, cls, msg) \<in> set rs \<Longrightarrow> m t = m' t) \<Longrightarrow>
   response_for rs m = response_for rs m'"
  by (induction rs m rule: response_for.induct) auto

definition rule_targets :: "sentinel list" where
  "rule_targets = map fst classificationRules"

lemma sanitizeError_depends_on_sentinels:
  assumes "\<And>t. t \<in> set rule_targets \<Longrightarrow> errors_is e t = errors_is e' t"
  shows "fst (sanitizeError pick m e pool) = fst (sanitizeError pick' m' e' pool')"
proof -
  have "response_for classificationRules (errors_is e) =
        response_for classificationRules (errors_is e')"
    by (rule response_for_cong) (use assms in \<open>force simp: rule_targets_def\<close>)
  then show ?thesis by (simp add: sanitizeError_response)
qed

lemma response_for_unmatched:
  "(\<And>t. t \<in> fst ` set rs \<Longrightarrow> \<not> m t) \<Longrightarrow>
   response_for rs m = (ClassInternal, ''An unexpected internal error occurred'')"
  by (induction rs m rule: response_for.induct) auto

text \<open>Errors without one of the nine classified sentinels are reported as internal.\<close>

lemma sanitizeError_unclassified:
  assumes "\<And>t. t \<in> set rule_targets \<Longrightarrow> \<not> errors_is e t"
  shows "fst (sanitizeError pick m e pool) =
    Some (StatusError Internal ''An unexpected internal error occurred'')"
proof -
  have "response_for classificationRules (errors_is e) =
        (ClassInternal, ''An unexpected internal error occurred'')"
    by (rule response_for_unmatched) (use assms in \<open>auto simp: rule_targets_def\<close>)
  then show ?thesis
    by (simp add: sanitizeError_response class_code_def grpcCodeMap_def)
qed

end
