(* ===== verification/Domain.thy ===== *)
theory Domain
  imports GoErrors
begin

text \<open>
  The domain types of \<^verbatim>\<open>internal/domain\<close> with their validation, the constants of
  \<^verbatim>\<open>internal/constants\<close>, the tier rules of \<^verbatim>\<open>pkg/authorization\<close>, the key type table of
  \<^verbatim>\<open>pkg/crypto\<close> and the storage type table of the persistence layer.

  The package \<^verbatim>\<open>github.com/google/uuid\<close> is a parameter: a record of its \<open>Parse\<close> and
  \<open>String\<close> functions, of which the code uses that printing is canonical (36 characters) and
  that parsing inverts printing.
\<close>

section \<open>Key identifiers\<close>

type_synonym uuid = "128 word"

record uuid_lib =
  uuid_Parse :: "string \<Rightarrow> string + uuid"  \<comment> \<open>\<open>Inl\<close> is the text of the parse error\<close>
  uuid_String :: "uuid \<Rightarrow> string"

definition uuid_lib_ok :: "uuid_lib \<Rightarrow> bool" where
  "uuid_lib_ok L \<longleftrightarrow>
     (\<forall>u. uuid_Parse L (uuid_String L u) = Inr u) \<and> (\<forall>u. length (uuid_String L u) = 36)"

definition uuid_Nil :: uuid where "uuid_Nil = 0"

datatype key_id = KeyID (kid_value: uuid)

definition KeyIDFromString :: "uuid_lib \<Rightarrow> string \<Rightarrow> go_error + key_id" where
  "KeyIDFromString L s =
     (case uuid_Parse L s of
        Inl err \<Rightarrow> Inl (wrapf ''invalid key id'' (Plain err))
      | Inr u \<Rightarrow> Inr (KeyID u))"

definition KeyID_String :: "uuid_lib \<Rightarrow> key_id \<Rightarrow> string" where
  "KeyID_String L k = uuid_String L (kid_value k)"

definition KeyID_IsZero :: "key_id \<Rightarrow> bool" where
  "KeyID_IsZero k \<longleftrightarrow> kid_value k = uuid_Nil"

definition KeyID_Validate :: "key_id \<Rightarrow> go_error option" where
  "KeyID_Validate k =
     (if KeyID_IsZero k then Some (Plain ''key id cannot be a nil uuid'') else None)"

text \<open>The zero value \<^verbatim>\<open>domain.KeyID{}\<close>.\<close>

definition zero_KeyID :: key_id where "zero_KeyID = KeyID uuid_Nil"

lemma KeyID_roundtrip: "uuid_lib_ok L \<Longrightarrow> KeyIDFromString L (KeyID_String L k) = Inr k"
  by (cases k) (simp add: KeyIDFromString_def KeyID_String_def uuid_lib_ok_def)

lemma KeyID_String_inj:
  "uuid_lib_ok L \<Longrightarrow> KeyID_String L k = KeyID_String L k' \<longleftrightarrow> k = k'"
  by (metis KeyID_roundtrip sum.inject(2))

lemma length_KeyID_String: "uuid_lib_ok L \<Longrightarrow> length (KeyID_String L k) = 36"
  by (simp add: KeyID_String_def uuid_lib_ok_def)

lemma zero_KeyID_IsZero [simp]: "KeyID_IsZero zero_KeyID"
  by (simp add: KeyID_IsZero_def zero_KeyID_def)

section \<open>Descriptions and tags\<close>

definition maxDescriptionLength :: nat where "maxDescriptionLength = 255"
definition maxTagKeyLength :: nat where "maxTagKeyLength = 63"
definition maxTagValueLength :: nat where "maxTagValueLength = 255"

lemmas domain_limits [go_simps] =
  maxDescriptionLength_def maxTagKeyLength_def maxTagValueLength_def

datatype description = Description (desc_value: string)

definition Description_Validate :: "description \<Rightarrow> go_error option" where
  "Description_Validate d =
     (if length (desc_value d) > maxDescriptionLength
      then Some (Plain (''description exceeds maximum length of '' @ itoa (int maxDescriptionLength)))
      else None)"

definition NewDescription :: "string \<Rightarrow> go_error + description" where
  "NewDescription s =
     (let d = Description (trim_space s)
      in case Description_Validate d of Some err \<Rightarrow> Inl err | None \<Rightarrow> Inr d)"

definition Description_IsEmpty :: "description \<Rightarrow> bool" where
  "Description_IsEmpty d \<longleftrightarrow> desc_value d = ''''"

record tag =
  tag_Key :: string
  tag_Value :: string

definition Tag_Validate :: "tag \<Rightarrow> go_error option" where
  "Tag_Validate t =
     (if tag_Key t = '''' then Some (Plain ''tag key cannot be empty'')
      else if length (tag_Key t) > maxTagKeyLength
      then Some (Plain (''tag key exceeds maximum length of '' @ itoa (int maxTagKeyLength)))
      else if length (tag_Value t) > maxTagValueLength
      then Some (Plain (''tag value exceeds maximum length of '' @ itoa (int maxTagValueLength)))
      else None)"

definition NewTag :: "string \<Rightarrow> string \<Rightarrow> go_error + tag" where
  "NewTag key value =
     (let t = \<lparr>tag_Key = trim_space key, tag_Value = trim_space value\<rparr>
      in case Tag_Validate t of Some err \<Rightarrow> Inl err | None \<Rightarrow> Inr t)"

lemma NewDescription_ok_iff:
  "NewDescription s = Inr d \<longleftrightarrow> d = Description (trim_space s) \<and> length (trim_space s) \<le> 255"
  by (auto simp: NewDescription_def Description_Validate_def go_simps)

lemma NewDescription_bounded: "NewDescription s = Inr d \<Longrightarrow> length (desc_value d) \<le> 255"
  by (simp add: NewDescription_ok_iff)

lemma NewTag_ok_iff:
  "NewTag k v = Inr t \<longleftrightarrow>
     t = \<lparr>tag_Key = trim_space k, tag_Value = trim_space v\<rparr> \<and> trim_space k \<noteq> '''' \<and>
     length (trim_space k) \<le> 63 \<and> length (trim_space v) \<le> 255"
  by (auto simp: NewTag_def Tag_Validate_def Let_def go_simps split: if_splits)

section \<open>Keys\<close>

type_synonym proto_enum = int

definition KEY_TYPE_UNSPECIFIED :: proto_enum where "KEY_TYPE_UNSPECIFIED = 0"
definition KEY_TYPE_AES_256 :: proto_enum where "KEY_TYPE_AES_256 = 2"
definition KEY_STATUS_ACTIVE :: proto_enum where "KEY_STATUS_ACTIVE = 1"
definition STORAGE_PROFILE_UNSPECIFIED :: proto_enum where "STORAGE_PROFILE_UNSPECIFIED = 0"
definition STORAGE_PROFILE_STANDARD :: proto_enum where "STORAGE_PROFILE_STANDARD = 1"
definition STORAGE_PROFILE_HARDENED :: proto_enum where "STORAGE_PROFILE_HARDENED = 2"

lemmas proto_enums [go_simps] =
  KEY_TYPE_UNSPECIFIED_def KEY_TYPE_AES_256_def KEY_STATUS_ACTIVE_def
  STORAGE_PROFILE_UNSPECIFIED_def STORAGE_PROFILE_STANDARD_def STORAGE_PROFILE_HARDENED_def

text \<open>
  \<^verbatim>\<open>pk.KeyMetadata\<close>.  A nil Go map and an empty one read alike, and the code makes a map
  before it writes to one, so both are the empty map here.
\<close>

record key_metadata =
  m_KeyId :: string
  m_KeyType :: proto_enum
  m_Status :: proto_enum
  m_Version :: int
  m_CreatedAt :: "time option"
  m_UpdatedAt :: "time option"
  m_ExpiresAt :: "time option"
  m_LastAccessedAt :: "time option"
  m_CreatorIdentity :: string
  m_AuthorizedContexts :: "string list"
  m_AccessPolicies :: "string \<rightharpoonup> string"
  m_Description :: string
  m_Tags :: "string \<rightharpoonup> string"
  m_DataClassification :: string
  m_MetadataChecksum :: string
  m_AccessCount :: int
  m_StorageType :: proto_enum

definition TierFree :: string where "TierFree = ''free''"
definition TierPro :: string where "TierPro = ''pro''"
definition TierEnterprise :: string where "TierEnterprise = ''enterprise''"
definition TierUnknown :: string where "TierUnknown = ''unknown''"

definition KeyStatusActive :: string where "KeyStatusActive = ''active''"
definition KeyStatusRotated :: string where "KeyStatusRotated = ''rotated''"
definition KeyStatusRevoked :: string where "KeyStatusRevoked = ''revoked''"

lemmas key_constants [go_simps] =
  TierFree_def TierPro_def TierEnterprise_def TierUnknown_def
  KeyStatusActive_def KeyStatusRotated_def KeyStatusRevoked_def

lemma status_distinct [simp]:
  "KeyStatusActive \<noteq> KeyStatusRevoked" "KeyStatusRevoked \<noteq> KeyStatusActive"
  "KeyStatusActive \<noteq> KeyStatusRotated" "KeyStatusRotated \<noteq> KeyStatusActive"
  "KeyStatusRotated \<noteq> KeyStatusRevoked" "KeyStatusRevoked \<noteq> KeyStatusRotated"
  by (simp_all add: go_simps)

text \<open>\<^verbatim>\<open>domain.Key\<close>; a nil \<^verbatim>\<open>*pk.KeyMetadata\<close> is \<open>None\<close>.\<close>

record key =
  k_ID :: key_id
  k_Version :: int
  k_Metadata :: "key_metadata option"
  k_EncryptedDEK :: bytes
  k_Status :: string
  k_Tier :: string
  k_CreatedAt :: time
  k_UpdatedAt :: time
  k_RevokedAt :: "time option"

text \<open>The generated getters are safe on a nil message.\<close>

definition GetStorageType :: "key_metadata option \<Rightarrow> proto_enum" where
  "GetStorageType md = (case md of Some m \<Rightarrow> m_StorageType m | None \<Rightarrow> STORAGE_PROFILE_UNSPECIFIED)"

definition GetKeyType :: "key_metadata option \<Rightarrow> proto_enum" where
  "GetKeyType md = (case md of Some m \<Rightarrow> m_KeyType m | None \<Rightarrow> KEY_TYPE_UNSPECIFIED)"

lemma getters_Some [simp]:
  "GetStorageType (Some m) = m_StorageType m" "GetKeyType (Some m) = m_KeyType m"
  by (simp_all add: GetStorageType_def GetKeyType_def)

section \<open>Constants\<close>

definition AuthKeysRead :: string where "AuthKeysRead = ''keys:read''"
definition AuthKeysCreate :: string where "AuthKeysCreate = ''keys:create''"
definition AuthKeysList :: string where "AuthKeysList = ''keys:list''"
definition AuthKeysRotate :: string where "AuthKeysRotate = ''keys:rotate''"
definition AuthKeysRevoke :: string where "AuthKeysRevoke = ''keys:revoke''"
definition AuthKeysUpdate :: string where "AuthKeysUpdate = ''keys:update''"

lemmas auth_scopes [go_simps] =
  AuthKeysRead_def AuthKeysCreate_def AuthKeysList_def AuthKeysRotate_def AuthKeysRevoke_def
  AuthKeysUpdate_def

definition MethodScopes :: "(string \<times> string) list" where
  "MethodScopes =
    [(''GetKey'', AuthKeysRead), (''CreateKey'', AuthKeysCreate), (''ListKeys'', AuthKeysList),
     (''RotateKey'', AuthKeysRotate), (''RevokeKey'', AuthKeysRevoke),
     (''UpdateKeyMetadata'', AuthKeysUpdate), (''GetKeyMetadata'', AuthKeysRead)]"

text \<open>Indexing a Go map of strings gives the empty string for an absent key.\<close>

definition method_scope :: "string \<Rightarrow> string" where
  "method_scope m = (case map_of MethodScopes m of Some s \<Rightarrow> s | None \<Rightarrow> '''')"

section \<open>Tiers, key types and storage types\<close>

datatype client_tier =
  CLIENT_TIER_FREE | CLIENT_TIER_PRO | CLIENT_TIER_ENTERPRISE | CLIENT_TIER_OTHER int

fun FromProtoTier :: "client_tier \<Rightarrow> string" where
  "FromProtoTier CLIENT_TIER_FREE = TierFree"
| "FromProtoTier CLIENT_TIER_PRO = TierPro"
| "FromProtoTier CLIENT_TIER_ENTERPRISE = TierEnterprise"
| "FromProtoTier (CLIENT_TIER_OTHER _) = TierUnknown"

definition GetStorageProfileForTier :: "string \<Rightarrow> proto_enum" where
  "GetStorageProfileForTier tier =
     (if tier = TierPro \<or> tier = TierEnterprise then STORAGE_PROFILE_HARDENED
      else STORAGE_PROFILE_STANDARD)"

text \<open>The names of an enum value in an error text come from the generated code.\<close>

definition ValidateTierForProfile ::
  "(proto_enum \<Rightarrow> string) \<Rightarrow> string \<Rightarrow> proto_enum \<Rightarrow> go_error option" where
  "ValidateTierForProfile profile_name tier profile =
     (let maxProfile = GetStorageProfileForTier tier
      in if profile > maxProfile
         then Some (Plain (''tier '' @ [CHR 39] @ tier @ [CHR 39] @ '' is not permitted to use the ''
                @ [CHR 39] @ profile_name profile @ [CHR 39] @ '' storage profile''))
         else None)"

definition GetCryptoDetails ::
  "(proto_enum \<Rightarrow> string) \<Rightarrow> proto_enum \<Rightarrow> go_error + (nat \<times> string)" where
  "GetCryptoDetails type_name keyType =
     (if keyType = KEY_TYPE_AES_256 then Inr (32, ''AES-256-GCM'')
      else Inl (wrap_suffix (Sentinel CryptoErrInvalidKeyType) (type_name keyType)))"

definition storageTypeMap :: "(proto_enum \<times> string) list" where
  "storageTypeMap =
    [(STORAGE_PROFILE_STANDARD, ''standard''), (STORAGE_PROFILE_HARDENED, ''hardened'')]"

definition getStorageTypeOptimized :: "proto_enum \<Rightarrow> string" where
  "getStorageTypeOptimized profile =
     (case map_of storageTypeMap profile of Some t \<Rightarrow> t | None \<Rightarrow> ''unknown'')"

lemma ValidateTierForProfile_own_profile:
  "ValidateTierForProfile f tier (GetStorageProfileForTier tier) = None"
  by (simp add: ValidateTierForProfile_def)

lemma ValidateTierForProfile_hardened_iff:
  "ValidateTierForProfile f (FromProtoTier t) STORAGE_PROFILE_HARDENED = None \<longleftrightarrow>
   t = CLIENT_TIER_PRO \<or> t = CLIENT_TIER_ENTERPRISE"
  by (cases t) (simp_all add: ValidateTierForProfile_def GetStorageProfileForTier_def go_simps)

lemma ValidateTierForProfile_downward:
  "ValidateTierForProfile f tier p = None \<Longrightarrow> p' \<le> p \<Longrightarrow> ValidateTierForProfile f tier p' = None"
  by (auto simp: ValidateTierForProfile_def Let_def split: if_splits)

section \<open>Requester\<close>

text \<open>\<^verbatim>\<open>pk.RequesterContext\<close>; the generated getters return zero values on a nil message.\<close>

record requester_context =
  rc_ClientIdentity :: string
  rc_ClientTier :: client_tier

definition GetClientIdentity :: "requester_context option \<Rightarrow> string" where
  "GetClientIdentity rc = (case rc of None \<Rightarrow> '''' | Some c \<Rightarrow> rc_ClientIdentity c)"

definition GetClientTier :: "requester_context option \<Rightarrow> client_tier" where
  "GetClientTier rc = (case rc of None \<Rightarrow> CLIENT_TIER_OTHER 0 | Some c \<Rightarrow> rc_ClientTier c)"

section \<open>A concrete uuid library\<close>

text \<open>
  The canonical 8-4-4-4-12 hexadecimal form, to run the model on closed inputs.  Its parser
  accepts that form only.
\<close>

definition hex_digit :: "nat \<Rightarrow> char" where
  "hex_digit d = (if d < 10 then char_of (48 + d) else char_of (87 + d))"

definition hex_value :: "char \<Rightarrow> nat option" where
  "hex_value c =
     (let n = of_char c in
      if 48 \<le> n \<and> n < 58 then Some (n - 48)
      else if 97 \<le> n \<and> n < 103 then Some (n - 87) else None)"

fun hex_digits :: "nat \<Rightarrow> nat \<Rightarrow> nat list" where
  "hex_digits 0 n = []"
| "hex_digits (Suc k) n = hex_digits k (n div 16) @ [n mod 16]"

definition hex_number :: "nat list \<Rightarrow> nat" where
  "hex_number ds = foldl (\<lambda>a d. 16 * a + d) 0 ds"

definition dashed :: "char list \<Rightarrow> string" where
  "dashed h = take 8 h @ ''-'' @ take 4 (drop 8 h) @ ''-'' @ take 4 (drop 12 h) @ ''-''
     @ take 4 (drop 16 h) @ ''-'' @ drop 20 h"

definition undashed :: "string \<Rightarrow> char list" where
  "undashed s = take 8 s @ take 4 (drop 9 s) @ take 4 (drop 14 s) @ take 4 (drop 19 s) @ drop 24 s"

definition canonical_uuid_lib :: uuid_lib where
  "canonical_uuid_lib =
     \<lparr>uuid_Parse = (\<lambda>s.
        if length s \<noteq> 36 then Inl ''invalid UUID length''
        else if dashed (undashed s) \<noteq> s then Inl ''invalid UUID format''
        else case those (map hex_value (undashed s)) of
               None \<Rightarrow> Inl ''invalid UUID format''
             | Some ds \<Rightarrow> Inr (of_nat (hex_number ds))),
      uuid_String = (\<lambda>u. dashed (map hex_digit (hex_digits 32 (unat u))))\<rparr>"

lemma hex_value_hex_digit: "d < 16 \<Longrightarrow> hex_value (hex_digit d) = Some d"
  by (auto simp: hex_value_def hex_digit_def Let_def)

lemma hex_digits_bound: "d \<in> set (hex_digits k n) \<Longrightarrow> d < 16"
  by (induction k arbitrary: n) auto

lemma length_hex_digits [simp]: "length (hex_digits k n) = k"
  by (induction k arbitrary: n) auto

lemma hex_number_hex_digits: "hex_number (hex_digits k n) = n mod 16 ^ k"
proof (induction k arbitrary: n)
  case 0
  then show ?case by (simp add: hex_number_def)
next
  case (Suc k)
  have "hex_number (hex_digits (Suc k) n) = 16 * hex_number (hex_digits k (n div 16)) + n mod 16"
    by (simp add: hex_number_def)
  also have "\<dots> = n mod (16 * 16 ^ k)"
    by (simp add: Suc mod_mult2_eq)
  finally show ?case by simp
qed

lemma those_hex: "(\<And>d. d \<in> set ds \<Longrightarrow> d < 16) \<Longrightarrow> those (map hex_value (map hex_digit ds)) = Some ds"
  by (induction ds) (auto simp: hex_value_hex_digit)

lemma undashed_dashed: "length h = 32 \<Longrightarrow> undashed (dashed h) = h"
proof -
  assume len: "length h = 32"
  have "undashed (dashed h) =
      take 8 h @ take 4 (drop 8 h) @ take 4 (drop 12 h) @ take 4 (drop 16 h) @ drop 20 h"
    by (simp add: undashed_def dashed_def len)
  also have "\<dots> = h"
    using append_take_drop_id [of 4 "drop 16 h"] append_take_drop_id [of 4 "drop 12 h"]
      append_take_drop_id [of 4 "drop 8 h"] append_take_drop_id [of 8 h]
    by (simp add: drop_drop)
  finally show ?thesis .
qed

lemma length_dashed: "length h = 32 \<Longrightarrow> length (dashed h) = 36"
  by (simp add: dashed_def)

lemma canonical_uuid_lib_ok: "uuid_lib_ok canonical_uuid_lib"
proof -
  have len: "length (map hex_digit (hex_digits 32 (unat u))) = 32" for u :: uuid
    by simp
  have num: "of_nat (hex_number (hex_digits 32 (unat u))) = u" for u :: uuid
    using unsigned_less [of u, where ?'a = nat] by (simp add: hex_number_hex_digits)
  have "uuid_Parse canonical_uuid_lib (uuid_String canonical_uuid_lib u) = Inr u" for u
    using those_hex [of "hex_digits 32 (unat u)"] hex_digits_bound
    by (simp add: canonical_uuid_lib_def length_dashed undashed_dashed num del: map_map)
  moreover have "length (uuid_String canonical_uuid_lib u) = 36" for u
    by (simp add: canonical_uuid_lib_def length_dashed)
  ultimately show ?thesis by (simp add: uuid_lib_ok_def)
qed

end
