(* ===== verification/Cache.thy ===== *)
theory Cache
  imports Prelude "HOL-Library.AList"
begin

text \<open>
  The generic cache of \<^verbatim>\<open>pkg/cache\<close>.  The Go map is an association list with distinct keys
  whose order is the (unspecified) iteration order.  The eviction callback acts on the state of
  the client, so the operations that evict carry that state along.  The locale \<open>cache_store\<close> is
  the interface \<^verbatim>\<open>cache.Store\<close> with its laws; it is interpreted on this cache below and the
  clients (repository cache, token store, authorizer) rest on its lemmas.
\<close>

section \<open>State\<close>

record 'v item =
  it_value :: 'v
  it_expiresAt :: time
  it_permanent :: bool

record ('k, 'v) cache =
  c_items :: "('k \<times> 'v item) list"
  c_defaultTTL :: time
  c_cleanupInterval :: time
  c_stopped :: bool

definition DefaultTTL :: time where "DefaultTTL = 5 * minute"
definition DefaultCleanupInterval :: time where "DefaultCleanupInterval = 10 * minute"

type_synonym ('k, 'v) cache_option = "('k, 'v) cache \<Rightarrow> ('k, 'v) cache"

definition cache_New :: "('k, 'v) cache_option list \<Rightarrow> ('k, 'v) cache" where
  "cache_New opts =
     foldl (\<lambda>c opt. opt c)
       \<lparr>c_items = [], c_defaultTTL = DefaultTTL, c_cleanupInterval = DefaultCleanupInterval,
        c_stopped = False\<rparr> opts"

definition WithDefaultTTL :: "time \<Rightarrow> ('k, 'v) cache_option" where
  "WithDefaultTTL ttl c = c\<lparr>c_defaultTTL := ttl\<rparr>"

definition WithCleanupInterval :: "time \<Rightarrow> ('k, 'v) cache_option" where
  "WithCleanupInterval d c = c\<lparr>c_cleanupInterval := d\<rparr>"

section \<open>Operations\<close>

definition cache_Set :: "time \<Rightarrow> 'k \<Rightarrow> 'v \<Rightarrow> time \<Rightarrow> ('k, 'v) cache \<Rightarrow> ('k, 'v) cache" where
  "cache_Set now key v ttl c =
     (let permanent = (ttl = -1);
          expiresAt = (if ttl = -1 then 0 else if ttl = 0 then now + c_defaultTTL c else now + ttl)
      in c\<lparr>c_items := AList.update key
             \<lparr>it_value = v, it_expiresAt = expiresAt, it_permanent = permanent\<rparr> (c_items c)\<rparr>)"

definition item_expired :: "time \<Rightarrow> 'v item \<Rightarrow> bool" where
  "item_expired now i \<longleftrightarrow> \<not> it_permanent i \<and> now > it_expiresAt i"

definition cache_Get :: "time \<Rightarrow> 'k \<Rightarrow> ('k, 'v) cache \<Rightarrow> 'v option" where
  "cache_Get now key c =
     (case map_of (c_items c) key of
        None \<Rightarrow> None
      | Some i \<Rightarrow> if item_expired now i then None else Some (it_value i))"

text \<open>The callback runs after the item has left the map; \<open>None\<close> is a cache without a callback.\<close>

definition cache_delete ::
  "('k \<Rightarrow> 'v \<Rightarrow> 's \<Rightarrow> 's) option \<Rightarrow> 'k \<Rightarrow> ('k, 'v) cache \<times> 's \<Rightarrow> ('k, 'v) cache \<times> 's" where
  "cache_delete onEvicted key = (\<lambda>(c, s).
     case map_of (c_items c) key of
       None \<Rightarrow> (c, s)
     | Some i \<Rightarrow>
         (c\<lparr>c_items := AList.delete key (c_items c)\<rparr>,
          case onEvicted of None \<Rightarrow> s | Some f \<Rightarrow> f key (it_value i) s))"

definition cache_Delete ::
  "('k \<Rightarrow> 'v \<Rightarrow> 's \<Rightarrow> 's) option \<Rightarrow> 'k \<Rightarrow> ('k, 'v) cache \<times> 's \<Rightarrow> ('k, 'v) cache \<times> 's" where
  "cache_Delete onEvicted key cs = cache_delete onEvicted key cs"

definition cache_Count :: "('k, 'v) cache \<Rightarrow> nat" where
  "cache_Count c = length (c_items c)"

definition cache_Clear :: "('k, 'v) cache \<Rightarrow> ('k, 'v) cache" where
  "cache_Clear c = c\<lparr>c_items := []\<rparr>"

text \<open>Closing the channel a second time panics (\<open>None\<close>).\<close>

definition cache_Stop :: "('k, 'v) cache \<Rightarrow> ('k, 'v) cache option" where
  "cache_Stop c = (if c_stopped c then None else Some (c\<lparr>c_stopped := True\<rparr>))"

text \<open>The range loop visits the entries the map held when it started.\<close>

definition cache_deleteExpired ::
  "('k \<Rightarrow> 'v \<Rightarrow> 's \<Rightarrow> 's) option \<Rightarrow> time \<Rightarrow> ('k, 'v) cache \<times> 's \<Rightarrow> ('k, 'v) cache \<times> 's" where
  "cache_deleteExpired onEvicted now cs =
     foldl (\<lambda>cs (key, i). if item_expired now i then cache_delete onEvicted key cs else cs)
       cs (c_items (fst cs))"

text \<open>One iteration of \<^verbatim>\<open>cleanupLoop\<close>: a tick cleans up unless the loop has been stopped.\<close>

definition cache_cleanupTick ::
  "('k \<Rightarrow> 'v \<Rightarrow> 's \<Rightarrow> 's) option \<Rightarrow> time \<Rightarrow> ('k, 'v) cache \<times> 's \<Rightarrow> ('k, 'v) cache \<times> 's" where
  "cache_cleanupTick onEvicted now cs =
     (if c_stopped (fst cs) then cs else cache_deleteExpired onEvicted now cs)"

section \<open>Well-formedness and the behaviour of each operation\<close>

definition cache_ok :: "('k, 'v) cache \<Rightarrow> bool" where
  "cache_ok c \<longleftrightarrow> distinct (map fst (c_items c))"

lemma cache_New_ok:
  "(\<And>opt c. opt \<in> set opts \<Longrightarrow> c_items (opt c) = c_items c) \<Longrightarrow> c_items (cache_New opts) = []"
proof -
  assume keep: "\<And>opt c. opt \<in> set opts \<Longrightarrow> c_items (opt c) = c_items c"
  have "c_items (foldl (\<lambda>c opt. opt c) c0 opts) = c_items c0" for c0
    using keep by (induction opts arbitrary: c0) auto
  then show ?thesis by (simp add: cache_New_def)
qed

lemma cache_Set_ok: "cache_ok c \<Longrightarrow> cache_ok (cache_Set now k v ttl c)"
  by (simp add: cache_ok_def cache_Set_def Let_def distinct_update)

lemma cache_delete_ok: "cache_ok (fst cs) \<Longrightarrow> cache_ok (fst (cache_delete ev k cs))"
  by (auto simp: cache_ok_def cache_delete_def distinct_delete split: prod.splits option.splits)

lemma cache_Clear_ok: "cache_ok (cache_Clear c)"
  by (simp add: cache_ok_def cache_Clear_def)

lemma map_of_cache_delete:
  "map_of (c_items (fst (cache_delete ev k cs))) = (map_of (c_items (fst cs)))(k := None)"
  by (auto simp: cache_delete_def delete_conv' split: prod.splits option.splits)

lemma cache_Get_Set_other: "k' \<noteq> k \<Longrightarrow> cache_Get t k' (cache_Set now k v ttl c) = cache_Get t k' c"
  by (simp add: cache_Get_def cache_Set_def Let_def update_conv')

lemma cache_Get_Set_same:
  "cache_Get t k (cache_Set now k v ttl c) =
     (if ttl \<noteq> -1 \<and> t > now + (if ttl = 0 then c_defaultTTL c else ttl) then None else Some v)"
  by (simp add: cache_Get_def cache_Set_def Let_def update_conv' item_expired_def)

lemma cache_Get_delete:
  "cache_Get t k' (fst (cache_delete ev k cs)) =
     (if k' = k then None else cache_Get t k' (fst cs))"
  by (simp add: cache_Get_def map_of_cache_delete)

lemma cache_Get_Clear: "cache_Get t k (cache_Clear c) = None"
  by (simp add: cache_Get_def cache_Clear_def)

lemma cache_Get_mono:
  "cache_Get t k c = Some v \<Longrightarrow> t' \<le> t \<Longrightarrow> cache_Get t' k c = Some v"
  by (auto simp: cache_Get_def item_expired_def split: option.splits if_splits)

text \<open>The eviction callback fires exactly for a key that is present, with its value.\<close>

lemma cache_delete_client:
  "snd (cache_delete ev k cs) =
     (case map_of (c_items (fst cs)) k of
        None \<Rightarrow> snd cs
      | Some i \<Rightarrow> (case ev of None \<Rightarrow> snd cs | Some f \<Rightarrow> f k (it_value i) (snd cs)))"
  by (auto simp: cache_delete_def split: prod.splits option.splits)

section \<open>Clean-up\<close>

lemma foldl_delete_expired:
  "distinct (map fst l) \<Longrightarrow>
   map_of (c_items (fst (foldl (\<lambda>cs (key, i). if item_expired now i then cache_delete ev key cs else cs) cs l))) k =
     (case map_of l k of
        Some i \<Rightarrow> if item_expired now i then None else map_of (c_items (fst cs)) k
      | None \<Rightarrow> map_of (c_items (fst cs)) k)"
proof (induction l arbitrary: cs)
  case Nil
  then show ?case by simp
next
  case (Cons a l)
  have "map_of l (fst a) = None"
    using Cons.prems by (simp add: map_of_eq_None_iff)
  with Cons show ?case
    by (cases a) (auto simp: map_of_cache_delete split: option.splits)
qed

lemma map_of_deleteExpired:
  "cache_ok (fst cs) \<Longrightarrow>
   map_of (c_items (fst (cache_deleteExpired ev now cs))) k =
     (case map_of (c_items (fst cs)) k of
        Some i \<Rightarrow> if item_expired now i then None else Some i
      | None \<Rightarrow> None)"
  by (auto simp: cache_deleteExpired_def cache_ok_def foldl_delete_expired split: option.splits)

lemma cache_deleteExpired_ok:
  "cache_ok (fst cs) \<Longrightarrow> cache_ok (fst (cache_deleteExpired ev now cs))"
  unfolding cache_deleteExpired_def
  by (rule foldl_invariant) (auto simp: cache_delete_ok simp del: fst_conv)

text \<open>Cleaning up is invisible: it removes only what no later \<open>Get\<close> can return.\<close>

lemma cache_Get_deleteExpired:
  assumes "cache_ok (fst cs)" and "now \<le> t"
  shows "cache_Get t k (fst (cache_deleteExpired ev now cs)) = cache_Get t k (fst cs)"
  using assms by (auto simp: cache_Get_def map_of_deleteExpired item_expired_def split: option.splits)

section \<open>The store interface\<close>

locale cache_store =
  fixes get :: "time \<Rightarrow> 'k \<Rightarrow> 'c \<Rightarrow> 'v option"
    and set_ttl :: "time \<Rightarrow> 'k \<Rightarrow> 'v \<Rightarrow> time \<Rightarrow> 'c \<Rightarrow> 'c"
    and remove :: "'k \<Rightarrow> 'c \<Rightarrow> 'c"
    and life :: "'c \<Rightarrow> time"
  assumes get_set_other: "k' \<noteq> k \<Longrightarrow> get t k' (set_ttl now k v ttl c) = get t k' c"
    and get_set_same: "get t k (set_ttl now k v ttl c) =
       (if ttl \<noteq> -1 \<and> t > now + (if ttl = 0 then life c else ttl) then None else Some v)"
    and get_remove: "get t k' (remove k c) = (if k' = k then None else get t k' c)"
    and get_mono: "get t k c = Some v \<Longrightarrow> t' \<le> t \<Longrightarrow> get t' k c = Some v"
begin

text \<open>What a fold of removals leaves is what was there for the other keys.\<close>

lemma get_remove_all:
  "get t k (fold remove ks c) = (if k \<in> set ks then None else get t k c)"
  by (induction ks arbitrary: c) (auto simp: get_remove)

lemma expired_stays_expired: "get t k c = None \<Longrightarrow> t \<le> t' \<Longrightarrow> get t' k c = None"
  using get_mono [of t' k c _ t] by (cases "get t' k c") auto

text \<open>A value that a client reads after a write is the one written or the one that was there.\<close>

lemma get_set_cases:
  "get t k' (set_ttl now k v ttl c) = Some v' \<Longrightarrow> (k' = k \<and> v' = v) \<or> (k' \<noteq> k \<and> get t k' c = Some v')"
  by (cases "k' = k") (auto simp: get_set_same get_set_other split: if_splits)

lemma get_after_set: "0 < ttl \<Longrightarrow> now \<le> t \<Longrightarrow> t \<le> now + ttl \<Longrightarrow> get t k (set_ttl now k v ttl c) = Some v"
  by (simp add: get_set_same)

lemma get_after_expiry: "0 < ttl \<Longrightarrow> now + ttl < t \<Longrightarrow> get t k (set_ttl now k v ttl c) = None"
  by (simp add: get_set_same)

end

text \<open>The Go cache, seen by a client that ignores the callback, is such a store.\<close>

definition cache_remove :: "'k \<Rightarrow> ('k, 'v) cache \<Rightarrow> ('k, 'v) cache" where
  "cache_remove k c = fst (cache_Delete None k (c, ()))"

interpretation go_cache: cache_store cache_Get cache_Set cache_remove c_defaultTTL
  by unfold_locales
    (auto simp: cache_Get_Set_other cache_Get_Set_same cache_remove_def cache_Delete_def
       cache_Get_delete intro: cache_Get_mono)

lemma fst_cache_delete: "fst (cache_delete ev k (c, s)) = cache_remove k c"
  by (auto simp: cache_remove_def cache_Delete_def cache_delete_def split: option.splits)

section \<open>Histories\<close>

text \<open>What can happen to a cache while the clock runs: client calls and clean-up ticks.\<close>

datatype ('k, 'v) cache_event =
  EvSet 'k 'v time | EvDelete 'k | EvClear | EvTick | EvWait nat

fun cache_run ::
  "('k, 'v) cache_event list \<Rightarrow> time \<times> ('k, 'v) cache \<Rightarrow> time \<times> ('k, 'v) cache" where
  "cache_run [] tc = tc"
| "cache_run (e # es) (t, c) = cache_run es
     (case e of
        EvSet k v ttl \<Rightarrow> (t, cache_Set t k v ttl c)
      | EvDelete k \<Rightarrow> (t, cache_remove k c)
      | EvClear \<Rightarrow> (t, cache_Clear c)
      | EvTick \<Rightarrow> (t, fst (cache_cleanupTick None t (c, ())))
      | EvWait d \<Rightarrow> (t + int d, c))"

text \<open>The reference: the same history on a map that never cleans up and stores deadlines.\<close>

fun ref_run ::
  "('k, 'v) cache_event list \<Rightarrow> time \<Rightarrow> time \<times> ('k \<rightharpoonup> 'v \<times> time option) \<Rightarrow>
   time \<times> ('k \<rightharpoonup> 'v \<times> time option)" where
  "ref_run [] ttl0 tm = tm"
| "ref_run (e # es) ttl0 (t, m) = ref_run es ttl0
     (case e of
        EvSet k v ttl \<Rightarrow>
          (t, m(k \<mapsto> (v, if ttl = -1 then None else Some (t + (if ttl = 0 then ttl0 else ttl)))))
      | EvDelete k \<Rightarrow> (t, m(k := None))
      | EvClear \<Rightarrow> (t, Map.empty)
      | EvTick \<Rightarrow> (t, m)
      | EvWait d \<Rightarrow> (t + int d, m))"

definition ref_get :: "time \<Rightarrow> 'k \<Rightarrow> ('k \<rightharpoonup> 'v \<times> time option) \<Rightarrow> 'v option" where
  "ref_get t k m =
     (case m k of
        None \<Rightarrow> None
      | Some (v, None) \<Rightarrow> Some v
      | Some (v, Some d) \<Rightarrow> if t > d then None else Some v)"

text \<open>From time \<open>t\<close> on the cache and the reference answer every \<open>Get\<close> alike.\<close>

definition cache_sim :: "time \<Rightarrow> ('k, 'v) cache \<Rightarrow> ('k \<rightharpoonup> 'v \<times> time option) \<Rightarrow> bool" where
  "cache_sim t c m \<longleftrightarrow> (\<forall>t'\<ge>t. \<forall>k. cache_Get t' k c = ref_get t' k m)"

lemma cache_sim_Set:
  "cache_sim t c m \<Longrightarrow> cache_sim t (cache_Set t k v ttl c)
     (m(k \<mapsto> (v, if ttl = -1 then None else Some (t + (if ttl = 0 then c_defaultTTL c else ttl)))))"
  unfolding cache_sim_def
proof (intro allI impI)
  fix t' k'
  assume sim: "\<forall>t'\<ge>t. \<forall>k. cache_Get t' k c = ref_get t' k m" and "t \<le> t'"
  then show "cache_Get t' k' (cache_Set t k v ttl c) = ref_get t' k'
     (m(k \<mapsto> (v, if ttl = -1 then None else Some (t + (if ttl = 0 then c_defaultTTL c else ttl)))))"
    by (cases "k' = k")
      (simp_all add: ref_get_def cache_Get_Set_same cache_Get_Set_other)
qed

lemma cache_sim_remove: "cache_sim t c m \<Longrightarrow> cache_sim t (cache_remove k c) (m(k := None))"
  by (auto simp: cache_sim_def go_cache.get_remove ref_get_def)

lemma cache_sim_Clear: "cache_sim t (cache_Clear c) Map.empty"
  by (simp add: cache_sim_def cache_Get_Clear ref_get_def)

lemma cache_sim_tick:
  "cache_ok c \<Longrightarrow> cache_sim t c m \<Longrightarrow> cache_sim t (fst (cache_cleanupTick ev t (c, s))) m"
  by (auto simp: cache_sim_def cache_cleanupTick_def cache_Get_deleteExpired)

lemma cache_sim_wait: "cache_sim t c m \<Longrightarrow> cache_sim (t + int d) c m"
  by (auto simp: cache_sim_def)

lemma ttl_keep:
  "c_defaultTTL (cache_Set now k v ttl c) = c_defaultTTL c"
  "c_defaultTTL (cache_remove k c) = c_defaultTTL c"
  "c_defaultTTL (cache_Clear c) = c_defaultTTL c"
  by (auto simp: cache_Set_def Let_def cache_remove_def cache_Delete_def cache_delete_def
      cache_Clear_def split: option.splits)

lemma ttl_keep_delete: "c_defaultTTL (fst (cache_delete ev k cs)) = c_defaultTTL (fst cs)"
  by (auto simp: cache_delete_def split: prod.splits option.splits)

lemma ttl_keep_tick: "c_defaultTTL (fst (cache_cleanupTick ev t cs)) = c_defaultTTL (fst cs)"
proof -
  have "c_defaultTTL (fst (cache_deleteExpired ev t cs)) = c_defaultTTL (fst cs)"
    unfolding cache_deleteExpired_def
    by (rule foldl_invariant) (auto simp: ttl_keep_delete)
  then show ?thesis by (simp add: cache_cleanupTick_def)
qed

lemma cache_remove_ok: "cache_ok c \<Longrightarrow> cache_ok (cache_remove k c)"
  by (simp add: cache_remove_def cache_Delete_def cache_delete_ok)

lemma cache_tick_ok: "cache_ok (fst cs) \<Longrightarrow> cache_ok (fst (cache_cleanupTick ev t cs))"
  by (simp add: cache_cleanupTick_def cache_deleteExpired_ok)

lemma cache_run_sim:
  assumes "cache_ok c" "cache_sim t c m" "cache_run es (t, c) = (t', c')"
    "ref_run es (c_defaultTTL c) (t, m) = (t'', m')"
  shows "t'' = t' \<and> cache_ok c' \<and> cache_sim t' c' m'"
  using assms
proof (induction es arbitrary: t c m)
  case Nil
  then show ?case by simp
next
  case (Cons e es)
  then show ?case
    by (cases e)
      (auto simp: ttl_keep ttl_keep_tick cache_Set_ok cache_remove_ok cache_Clear_ok cache_tick_ok
         dest!: Cons.IH [rotated 2] intro: cache_sim_Set cache_sim_remove cache_sim_Clear
         cache_sim_tick cache_sim_wait)
qed

end
