(* ===== verification/CircuitBreaker.thy ===== *)
theory CircuitBreaker
  imports GoErrors "HOL-Library.Sublist"
begin

text \<open>
  The circuit breaker of \<^verbatim>\<open>pkg/patterns/circuitbreaker\<close>.  The wrapped call runs in its own
  goroutine, so which case of the final select is taken is an input (\<open>race\<close>).  Concurrent
  calls are interleaved at the granularity of \<open>canExecute\<close> and \<open>recordResult\<close>, which is
  where a call touches the shared state.
\<close>

section \<open>State\<close>

datatype breaker_state = StateClosed | StateOpen | StateHalfOpen

record breaker =
  b_maxFailures :: int
  b_resetTimeout :: time
  b_callTimeout :: time
  b_halfOpenRequests :: int
  b_state :: breaker_state
  b_failures :: int
  b_lastFailureTime :: time
  b_successCount :: int
  b_changes :: "(breaker_state \<times> breaker_state) list"
    \<comment> \<open>the calls of \<^verbatim>\<open>onStateChange\<close>, oldest first\<close>

type_synonym breaker_option = "breaker \<Rightarrow> breaker"

definition WithResetTimeout :: "time \<Rightarrow> breaker_option" where
  "WithResetTimeout d b = b\<lparr>b_resetTimeout := d\<rparr>"

definition WithCallTimeout :: "time \<Rightarrow> breaker_option" where
  "WithCallTimeout d b = b\<lparr>b_callTimeout := d\<rparr>"

definition WithHalfOpenRequests :: "int \<Rightarrow> breaker_option" where
  "WithHalfOpenRequests n b = (if n > 0 then b\<lparr>b_halfOpenRequests := n\<rparr> else b)"

definition breaker_New :: "int \<Rightarrow> breaker_option list \<Rightarrow> breaker" where
  "breaker_New maxFailures opts =
     (foldl (\<lambda>b opt. opt b)
       \<lparr>b_maxFailures = maxFailures, b_resetTimeout = 5 * second, b_callTimeout = 2 * second,
        b_halfOpenRequests = 1, b_state = StateClosed, b_failures = 0, b_lastFailureTime = 0,
        b_successCount = 0, b_changes = []\<rparr> opts)
     \<lparr>b_state := StateClosed\<rparr>"

section \<open>Operations\<close>

definition transition :: "breaker_state \<Rightarrow> breaker_state \<Rightarrow> breaker \<Rightarrow> breaker" where
  "transition from to b =
     (if b_state b = from
      then (let b1 = b\<lparr>b_state := to\<rparr>;
                b2 = (case to of
                        StateOpen \<Rightarrow> b1\<lparr>b_successCount := 0\<rparr>
                      | StateHalfOpen \<Rightarrow> b1\<lparr>b_successCount := 0\<rparr>
                      | StateClosed \<Rightarrow> b1\<lparr>b_failures := 0, b_successCount := 0\<rparr>)
            in b2\<lparr>b_changes := b_changes b2 @ [(from, to)]\<rparr>)
      else b)"

definition canExecute :: "time \<Rightarrow> breaker \<Rightarrow> bool \<times> breaker" where
  "canExecute now b =
     (case b_state b of
        StateClosed \<Rightarrow> (True, b)
      | StateOpen \<Rightarrow>
          if now > int64 (b_lastFailureTime b + b_resetTimeout b)
          then (True, transition StateOpen StateHalfOpen b)
          else (False, b)
      | StateHalfOpen \<Rightarrow> (b_successCount b < b_halfOpenRequests b, b))"

definition recordResult :: "time \<Rightarrow> go_error option \<Rightarrow> breaker \<Rightarrow> breaker" where
  "recordResult now err b =
     (case err of
        Some _ \<Rightarrow>
          (let newFailures = int64 (b_failures b + 1);
               b1 = b\<lparr>b_failures := newFailures, b_lastFailureTime := now\<rparr>;
               currentState = b_state b1
           in if currentState = StateHalfOpen \<or>
                 (currentState = StateClosed \<and> newFailures \<ge> b_maxFailures b1)
              then transition currentState StateOpen b1 else b1)
      | None \<Rightarrow>
          if b_state b = StateHalfOpen
          then (let n = int64 (b_successCount b + 1); b1 = b\<lparr>b_successCount := n\<rparr>
                in if n \<ge> b_halfOpenRequests b1 then transition StateHalfOpen StateClosed b1 else b1)
          else b\<lparr>b_failures := 0\<rparr>)"

text \<open>
  Which case of the select in \<open>Execute\<close> is taken: the function's result, the deadline, or the
  cancellation of the caller's context.  In the last two the function may still have run.
\<close>

datatype race = FnFirst | DeadlineFirst bool | CancelFirst bool

definition Execute ::
  "time \<Rightarrow> time \<Rightarrow> race \<Rightarrow> ('s \<Rightarrow> 's \<times> (go_error + 'a)) \<Rightarrow> 's \<times> breaker \<Rightarrow>
   ('s \<times> breaker) \<times> (go_error + 'a)" where
  "Execute t0 t1 r fn = (\<lambda>(s, b).
     let (ok, b1) = canExecute t0 b
     in if \<not> ok then ((s, b1), Inl (Sentinel CbErrOpen))
        else case r of
               FnFirst \<Rightarrow>
                 (case fn s of
                    (s1, Inr v) \<Rightarrow> ((s1, recordResult t1 None b1), Inr v)
                  | (s1, Inl err) \<Rightarrow> ((s1, recordResult t1 (Some err) b1), Inl err))
             | DeadlineFirst applied \<Rightarrow>
                 ((if applied then fst (fn s) else s, recordResult t1 (Some (Sentinel CbErrTimeout)) b1),
                  Inl (Sentinel CbErrTimeout))
             | CancelFirst applied \<Rightarrow>
                 ((if applied then fst (fn s) else s, recordResult t1 (Some (Sentinel CtxCanceled)) b1),
                  Inl (Sentinel CtxCanceled)))"

section \<open>Invariant\<close>

definition breaker_inv :: "breaker \<Rightarrow> bool" where
  "breaker_inv b \<longleftrightarrow>
     0 < b_maxFailures b \<and> 0 < b_halfOpenRequests b \<and>
     (b_state b = StateClosed \<longrightarrow> b_failures b < b_maxFailures b) \<and>
     (b_state b = StateHalfOpen \<longrightarrow> b_successCount b < b_halfOpenRequests b)"

lemmas breaker_defs = transition_def canExecute_def recordResult_def Let_def

lemma canExecute_inv: "breaker_inv b \<Longrightarrow> breaker_inv (snd (canExecute now b))"
  by (auto simp: breaker_inv_def breaker_defs split: breaker_state.splits)

lemma recordResult_inv: "breaker_inv b \<Longrightarrow> breaker_inv (recordResult now err b)"
  by (cases err; cases "b_state b") (auto simp: breaker_inv_def breaker_defs)

lemma Execute_inv: "breaker_inv b \<Longrightarrow> breaker_inv (snd (fst (Execute t0 t1 r fn (s, b))))"
  using canExecute_inv [of b t0]
  by (auto simp: Execute_def Let_def recordResult_inv split: prod.splits race.splits sum.splits)

text \<open>Configuration is never written after construction.\<close>

lemma canExecute_config [simp]:
  "b_maxFailures (snd (canExecute t b)) = b_maxFailures b"
  "b_resetTimeout (snd (canExecute t b)) = b_resetTimeout b"
  "b_halfOpenRequests (snd (canExecute t b)) = b_halfOpenRequests b"
  "b_lastFailureTime (snd (canExecute t b)) = b_lastFailureTime b"
  by (auto simp: breaker_defs split: breaker_state.splits)

lemma recordResult_config [simp]:
  "b_maxFailures (recordResult t e b) = b_maxFailures b"
  "b_resetTimeout (recordResult t e b) = b_resetTimeout b"
  "b_halfOpenRequests (recordResult t e b) = b_halfOpenRequests b"
  by (cases e; cases "b_state b"; auto simp: breaker_defs)+

section \<open>Interleaved calls\<close>

text \<open>
  The shared breaker, the clock and the number of admitted calls that have not recorded their
  result.  A call is admitted by \<open>canExecute\<close> and ends by \<open>recordResult\<close>, in any order.
\<close>

type_synonym breaker_config = "breaker \<times> time \<times> nat"

inductive breaker_step :: "breaker_config \<Rightarrow> breaker_config \<Rightarrow> bool" where
  admit: "canExecute now b = (True, b') \<Longrightarrow> breaker_step (b, now, n) (b', now, Suc n)"
| reject: "canExecute now b = (False, b') \<Longrightarrow> breaker_step (b, now, n) (b', now, n)"
| finish: "breaker_step (b, now, Suc n) (recordResult now err b, now, n)"
| tick: "breaker_step (b, now, n) (b, now + int d, n)"

inductive_cases breaker_stepE: "breaker_step (b, now, n) c"

text \<open>The four edges of the state diagram.\<close>

definition breaker_edges :: "(breaker_state \<times> breaker_state) list" where
  "breaker_edges = [(StateClosed, StateOpen), (StateOpen, StateHalfOpen),
     (StateHalfOpen, StateOpen), (StateHalfOpen, StateClosed)]"

fun chained :: "breaker_state \<Rightarrow> (breaker_state \<times> breaker_state) list \<Rightarrow> breaker_state \<Rightarrow> bool" where
  "chained s [] s' = (s = s')"
| "chained s ((a, b) # l) s' = (a = s \<and> chained b l s')"

lemma chained_snoc: "chained s (l @ [(a, b)]) s' \<longleftrightarrow> chained s l a \<and> s' = b"
  by (induction s l s' rule: chained.induct) auto

definition changes_ok :: "breaker \<Rightarrow> bool" where
  "changes_ok b \<longleftrightarrow> set (b_changes b) \<subseteq> set breaker_edges \<and> chained StateClosed (b_changes b) (b_state b)"

lemma changes_ok_updates:
  "changes_ok (b\<lparr>b_failures := x\<rparr>) = changes_ok b"
  "changes_ok (b\<lparr>b_lastFailureTime := t\<rparr>) = changes_ok b"
  "changes_ok (b\<lparr>b_successCount := x\<rparr>) = changes_ok b"
  by (simp_all add: changes_ok_def)

lemma transition_changes_ok:
  "changes_ok b \<Longrightarrow> (from, to) \<in> set breaker_edges \<Longrightarrow> changes_ok (transition from to b)"
  by (cases to) (auto simp: changes_ok_def transition_def Let_def chained_snoc)

lemma canExecute_changes_ok: "changes_ok b \<Longrightarrow> changes_ok (snd (canExecute t b))"
  by (auto simp: canExecute_def transition_changes_ok breaker_edges_def split: breaker_state.splits)

lemma recordResult_changes_ok: "changes_ok b \<Longrightarrow> changes_ok (recordResult t e b)"
  by (cases e; cases "b_state b")
    (auto simp: recordResult_def Let_def changes_ok_updates breaker_edges_def
       intro!: transition_changes_ok)

lemma canExecute_keeps:
  "canExecute t b = (ok, b') \<Longrightarrow> breaker_inv b \<Longrightarrow> breaker_inv b'"
  "canExecute t b = (ok, b') \<Longrightarrow> changes_ok b \<Longrightarrow> changes_ok b'"
  using canExecute_inv [of b t] canExecute_changes_ok [of b t] by simp_all

lemma breaker_steps_inv:
  assumes "breaker_step\<^sup>*\<^sup>* c c'" and "breaker_inv (fst c)" and "changes_ok (fst c)"
  shows "breaker_inv (fst c') \<and> changes_ok (fst c')"
  using assms
proof (induction rule: rtranclp_induct)
  case base
  then show ?case by simp
next
  case (step d e)
  have "breaker_inv (fst d)" "changes_ok (fst d)" using step by auto
  with step.hyps(2) show ?case
    by cases (auto intro: canExecute_keeps recordResult_inv recordResult_changes_ok)
qed

text \<open>A half-open breaker admits every call: nothing limits how many are in flight.\<close>

lemma half_open_admits: "breaker_inv b \<Longrightarrow> b_state b = StateHalfOpen \<Longrightarrow> canExecute now b = (True, b)"
  by (simp add: canExecute_def breaker_inv_def)

section \<open>When the breaker trips\<close>

definition record_all :: "(time \<times> go_error option) list \<Rightarrow> breaker \<Rightarrow> breaker" where
  "record_all rs b = foldl (\<lambda>b (t, e). recordResult t e b) b rs"

definition failed_calls :: "(time \<times> go_error option) list \<Rightarrow> bool list" where
  "failed_calls rs = map (\<lambda>(t, e). e \<noteq> None) rs"

lemma record_all_simps [simp]:
  "record_all [] b = b"
  "record_all ((t, e) # rs) b = record_all rs (recordResult t e b)"
  by (simp_all add: record_all_def)

lemma recordResult_open: "b_state b = StateOpen \<Longrightarrow> b_state (recordResult t e b) = StateOpen"
  by (cases e) (simp_all add: breaker_defs)

lemma record_all_open: "b_state b = StateOpen \<Longrightarrow> b_state (record_all rs b) = StateOpen"
  by (induction rs arbitrary: b) (auto simp: recordResult_open)

lemma sublist_run_reset:
  assumes "k < n"
  shows "sublist (replicate n True) (replicate k True @ False # bs) \<longleftrightarrow> sublist (replicate n True) bs"
proof
  assume "sublist (replicate n True) (replicate k True @ False # bs)"
  then consider "sublist (replicate n True) (replicate k True)"
    | "sublist (replicate n True) (False # bs)"
    | xs1 xs2 where "replicate n True = xs1 @ xs2" "suffix xs1 (replicate k True)" "prefix xs2 (False # bs)"
    by (auto simp: sublist_append)
  then show "sublist (replicate n True) bs"
  proof cases
    case 1
    then show ?thesis using assms by (auto dest: sublist_length_le)
  next
    case 2
    then show ?thesis using assms by (cases n) (auto simp: sublist_Cons_right prefix_Cons)
  next
    case 3
    have "set xs2 \<subseteq> set (replicate n True)" using 3(1) by simp
    then have "xs2 = []" using 3(3) by (cases xs2) (auto split: if_splits)
    then show ?thesis using 3 assms suffix_length_le [OF 3(2)]
      by (metis append_Nil2 length_replicate not_less)
  qed
next
  assume "sublist (replicate n True) bs"
  then show "sublist (replicate n True) (replicate k True @ False # bs)"
    by (auto simp: sublist_append sublist_Cons_right)
qed

text \<open>
  Starting closed with \<open>k\<close> failures in a row, the breaker stays closed exactly if no run of
  \<open>maxFailures\<close> failures occurs.
\<close>

lemma record_all_closed_iff:
  assumes "b_state b = StateClosed" and "b_failures b = int k" and "int k < b_maxFailures b"
    and "fits_int64 (b_maxFailures b)"
  shows "b_state (record_all rs b) = StateClosed \<longleftrightarrow>
    \<not> sublist (replicate (nat (b_maxFailures b)) True) (replicate k True @ failed_calls rs)"
  using assms
proof (induction rs arbitrary: b k)
  case Nil
  then show ?case by (auto simp: failed_calls_def dest!: sublist_length_le)
next
  case (Cons r rs)
  obtain t e where r: "r = (t, e)" by (cases r)
  let ?n = "nat (b_maxFailures b)"
  show ?case
  proof (cases e)
    case None
    let ?b = "recordResult t e b"
    have "b_state ?b = StateClosed" "b_failures ?b = int 0"
      using Cons.prems None by (simp_all add: recordResult_def)
    then have "b_state (record_all rs ?b) = StateClosed \<longleftrightarrow>
        \<not> sublist (replicate ?n True) (failed_calls rs)"
      using Cons.IH [of ?b 0] Cons.prems by simp
    then show ?thesis
      using sublist_run_reset [of k ?n "failed_calls rs"] Cons.prems None r
      by (simp add: failed_calls_def)
  next
    case (Some err)
    have fit: "int64 (int k + 1) = int k + 1"
      using Cons.prems by (intro int64_id) (simp add: fits_int64_def)
    let ?b = "recordResult t e b"
    have run: "replicate k True @ failed_calls (r # rs) = replicate (Suc k) True @ failed_calls rs"
      by (simp add: failed_calls_def r Some replicate_app_Cons_same)
    show ?thesis
    proof (cases "int (Suc k) < b_maxFailures b")
      case True
      then have "b_state ?b = StateClosed" "b_failures ?b = int (Suc k)"
        using Cons.prems Some fit by (simp_all add: recordResult_def Let_def)
      then show ?thesis
        using Cons.IH [of ?b "Suc k"] True Cons.prems run r by simp
    next
      case False
      then have "b_state ?b = StateOpen"
        using Cons.prems Some fit by (simp add: breaker_defs)
      moreover have "?n = Suc k" using False Cons.prems by linarith
      ultimately show ?thesis using record_all_open [of ?b rs] run r by simp
    qed
  qed
qed

section \<open>While open, and recovery\<close>

definition opened_at :: "time \<Rightarrow> breaker \<Rightarrow> bool" where
  "opened_at t b \<longleftrightarrow> b_state b = StateOpen \<and> b_lastFailureTime b = t"

text \<open>An open breaker refuses every call without running it until the reset timeout has passed.\<close>

lemma Execute_open:
  assumes "opened_at t b" and "fits_int64 (t + b_resetTimeout b)" and "t0 \<le> t + b_resetTimeout b"
  shows "Execute t0 t1 r fn (s, b) = ((s, b), Inl (Sentinel CbErrOpen))"
  using assms by (simp add: Execute_def canExecute_def opened_at_def)

lemma Execute_probe:
  assumes "opened_at t b" and "fits_int64 (t + b_resetTimeout b)" and "t + b_resetTimeout b < t0"
    and "fn s = (s', res)"
  shows "fst (fst (Execute t0 t1 FnFirst fn (s, b))) = s'"
    and "snd (Execute t0 t1 FnFirst fn (s, b)) = res"
    and "res = Inl err \<Longrightarrow> opened_at t1 (snd (fst (Execute t0 t1 FnFirst fn (s, b))))"
    and "res = Inr v \<Longrightarrow> b_halfOpenRequests b = 1 \<Longrightarrow>
      b_state (snd (fst (Execute t0 t1 FnFirst fn (s, b)))) = StateClosed \<and>
      b_failures (snd (fst (Execute t0 t1 FnFirst fn (s, b)))) = 0"
  using assms
  by (auto simp: Execute_def opened_at_def breaker_defs fits_int64_def split: sum.splits)

lemma Execute_closed_transparent:
  assumes "b_state b = StateClosed"
  shows "fst (fst (Execute t0 t1 FnFirst fn (s, b))) = fst (fn s)"
    and "snd (Execute t0 t1 FnFirst fn (s, b)) = snd (fn s)"
  using assms by (auto simp: Execute_def canExecute_def split: prod.splits sum.splits)

end
