(* ===== verification/KeyTable.thy ===== *)
theory KeyTable
  imports Domain
begin

text \<open>
  The table \<^verbatim>\<open>keys\<close> (\<^verbatim>\<open>migrations/001\<close>) and the statements of
  \<^verbatim>\<open>internal/constants/queries.go\<close> and \<^verbatim>\<open>rotateKeyInTx\<close> as functions on it, with the row
  scanner of the persistence layer.  The order of the list is the order in which the server
  happens to visit rows; sorted results break ties by it.
\<close>

section \<open>Rows\<close>

text \<open>
  A JSONB metadata value: the encoding of a \<^verbatim>\<open>pk.KeyMetadata\<close>, the JSON null that a nil
  pointer encodes to, or a value that does not decode (with the decoder's error).
\<close>

datatype jsonb = JMeta key_metadata | JNull | JOther go_error

record key_row =
  r_id :: key_id
  r_version :: int
  r_metadata :: jsonb
  r_encrypted_dek :: bytes
  r_status :: string
  r_storage_type :: string
  r_created_at :: time
  r_updated_at :: time
  r_revoked_at :: "time option"

type_synonym key_table = "key_row list"

text \<open>A \<^verbatim>\<open>timestamptz\<close> keeps microseconds.\<close>

definition timestamptz :: "time \<Rightarrow> time" where
  "timestamptz t = t - t mod 1000"

lemma timestamptz_le: "timestamptz t \<le> t"
  by (simp add: timestamptz_def)

definition zero_metadata :: key_metadata where
  "zero_metadata =
     \<lparr>m_KeyId = '''', m_KeyType = 0, m_Status = 0, m_Version = 0, m_CreatedAt = None,
      m_UpdatedAt = None, m_ExpiresAt = None, m_LastAccessedAt = None, m_CreatorIdentity = '''',
      m_AuthorizedContexts = [], m_AccessPolicies = Map.empty, m_Description = '''',
      m_Tags = Map.empty, m_DataClassification = '''', m_MetadataChecksum = '''',
      m_AccessCount = 0, m_StorageType = 0\<rparr>"

text \<open>\<^verbatim>\<open>json.Marshal\<close> of a metadata pointer; decoding into a pointer and into a struct.\<close>

definition marshal_metadata :: "key_metadata option \<Rightarrow> jsonb" where
  "marshal_metadata md = (case md of Some m \<Rightarrow> JMeta m | None \<Rightarrow> JNull)"

definition unmarshal_pointer :: "jsonb \<Rightarrow> go_error + key_metadata option" where
  "unmarshal_pointer j =
     (case j of JMeta m \<Rightarrow> Inr (Some m) | JNull \<Rightarrow> Inr None | JOther e \<Rightarrow> Inl e)"

definition unmarshal_struct :: "jsonb \<Rightarrow> go_error + key_metadata" where
  "unmarshal_struct j =
     (case j of JMeta m \<Rightarrow> Inr m | JNull \<Rightarrow> Inr zero_metadata | JOther e \<Rightarrow> Inl e)"

lemma unmarshal_marshal: "unmarshal_pointer (marshal_metadata md) = Inr md"
  by (simp add: unmarshal_pointer_def marshal_metadata_def split: option.splits)

section \<open>Row scanner\<close>

definition ScanKeyRow :: "key_row \<Rightarrow> go_error + key" where
  "ScanKeyRow r =
     (case unmarshal_pointer (r_metadata r) of
        Inl err \<Rightarrow> Inl (wrapf ''failed to unmarshal metadata'' err)
      | Inr md \<Rightarrow> Inr
          \<lparr>k_ID = zero_KeyID, k_Version = r_version r, k_Metadata = md,
           k_EncryptedDEK = r_encrypted_dek r, k_Status = r_status r, k_Tier = '''',
           k_CreatedAt = r_created_at r, k_UpdatedAt = r_updated_at r,
           k_RevokedAt = r_revoked_at r\<rparr>)"

definition ScanKeyRowWithID :: "uuid_lib \<Rightarrow> key_row \<Rightarrow> go_error + key" where
  "ScanKeyRowWithID L r =
     (case KeyIDFromString L (uuid_String L (kid_value (r_id r))) of
        Inl err \<Rightarrow> Inl (wrapf ''failed to create key id from uuid string'' err)
      | Inr kid \<Rightarrow>
          (case unmarshal_pointer (r_metadata r) of
             Inl err \<Rightarrow> Inl (wrapf (''failed to unmarshal metadata for key '' @ KeyID_String L kid) err)
           | Inr md \<Rightarrow> Inr
               \<lparr>k_ID = kid, k_Version = r_version r, k_Metadata = md,
                k_EncryptedDEK = r_encrypted_dek r, k_Status = r_status r, k_Tier = '''',
                k_CreatedAt = r_created_at r, k_UpdatedAt = r_updated_at r,
                k_RevokedAt = r_revoked_at r\<rparr>))"

text \<open>The key a row denotes.\<close>

definition row_key :: "key_row \<Rightarrow> key option" where
  "row_key r =
     (case unmarshal_pointer (r_metadata r) of
        Inl _ \<Rightarrow> None
      | Inr md \<Rightarrow> Some
          \<lparr>k_ID = r_id r, k_Version = r_version r, k_Metadata = md,
           k_EncryptedDEK = r_encrypted_dek r, k_Status = r_status r, k_Tier = '''',
           k_CreatedAt = r_created_at r, k_UpdatedAt = r_updated_at r,
           k_RevokedAt = r_revoked_at r\<rparr>)"

lemma ScanKeyRow_row_key:
  "ScanKeyRow r = Inr k \<longleftrightarrow> (\<exists>k'. row_key r = Some k' \<and> k = k'\<lparr>k_ID := zero_KeyID\<rparr>)"
  by (auto simp: ScanKeyRow_def row_key_def split: sum.splits)

lemma ScanKeyRow_setID:
  "ScanKeyRow r = Inr k \<Longrightarrow> r_id r = i \<Longrightarrow> row_key r = Some (k\<lparr>k_ID := i\<rparr>)"
  by (auto simp: ScanKeyRow_def row_key_def split: sum.splits)

lemma ScanKeyRowWithID_row_key:
  "uuid_lib_ok L \<Longrightarrow> ScanKeyRowWithID L r = Inr k \<longleftrightarrow> row_key r = Some k"
  using KeyID_roundtrip [of L "r_id r"]
  by (auto simp: ScanKeyRowWithID_def row_key_def KeyID_String_def split: sum.splits)

lemma row_key_fields:
  "row_key r = Some k \<Longrightarrow> k_ID k = r_id r \<and> k_Version k = r_version r \<and> k_Status k = r_status r \<and>
     k_CreatedAt k = r_created_at r \<and> k_EncryptedDEK k = r_encrypted_dek r \<and>
     k_RevokedAt k = r_revoked_at r \<and> k_UpdatedAt k = r_updated_at r"
  by (auto simp: row_key_def split: sum.splits)

lemma row_key_metadata: "row_key r = Some k \<Longrightarrow> r_metadata r = JMeta m \<Longrightarrow> k_Metadata k = Some m"
  by (auto simp: row_key_def unmarshal_pointer_def)

section \<open>Statements\<close>

definition rows_of :: "key_id \<Rightarrow> key_table \<Rightarrow> key_row list" where
  "rows_of i t = filter (\<lambda>r. r_id r = i) t"

text \<open>\<^verbatim>\<open>StmtGetLatestKey\<close> and \<^verbatim>\<open>StmtGetKeyMetadata\<close>: order by version descending, limit 1.\<close>

definition sql_latest :: "key_id \<Rightarrow> key_table \<Rightarrow> key_row option" where
  "sql_latest i t = max_by r_version (rows_of i t)"

definition sql_by_version :: "key_id \<Rightarrow> int \<Rightarrow> key_table \<Rightarrow> key_row option" where
  "sql_by_version i v t = find (\<lambda>r. r_id r = i \<and> r_version r = v) t"

definition is_latest :: "key_table \<Rightarrow> key_row \<Rightarrow> bool" where
  "is_latest t r \<longleftrightarrow> list_all (\<lambda>r'. r_id r' = r_id r \<longrightarrow> r_version r' \<le> r_version r) t"

text \<open>\<^verbatim>\<open>StmtUpdateMetadata\<close>, with the number of rows affected.\<close>

definition sql_update_metadata ::
  "jsonb \<Rightarrow> time \<Rightarrow> key_id \<Rightarrow> key_table \<Rightarrow> key_table \<times> nat" where
  "sql_update_metadata md at i t =
     (let hit = (\<lambda>r. r_id r = i \<and> is_latest t r)
      in (map (\<lambda>r. if hit r then r\<lparr>r_metadata := md, r_updated_at := timestamptz at\<rparr> else r) t,
          length (filter hit t)))"

definition revoke_row :: "string \<Rightarrow> time \<Rightarrow> key_row \<Rightarrow> key_row" where
  "revoke_row status at r = r\<lparr>r_status := status, r_revoked_at := Some (timestamptz at)\<rparr>"

definition sql_revoke :: "string \<Rightarrow> time \<Rightarrow> key_id \<Rightarrow> key_table \<Rightarrow> key_table \<times> nat" where
  "sql_revoke status at i t =
     (map (\<lambda>r. if r_id r = i then revoke_row status at r else r) t, length (rows_of i t))"

definition sql_revoke_batch :: "string \<Rightarrow> time \<Rightarrow> key_id list \<Rightarrow> key_table \<Rightarrow> key_table \<times> nat" where
  "sql_revoke_batch status at ids t =
     (map (\<lambda>r. if r_id r \<in> set ids then revoke_row status at r else r) t,
      length (filter (\<lambda>r. r_id r \<in> set ids) t))"

definition sql_exists :: "key_id \<Rightarrow> key_table \<Rightarrow> bool" where
  "sql_exists i t \<longleftrightarrow> list_ex (\<lambda>r. r_id r = i) t"

definition sql_versions :: "key_id \<Rightarrow> key_table \<Rightarrow> key_row list" where
  "sql_versions i t = sort_key (\<lambda>r. - r_version r) (rows_of i t)"

text \<open>\<^verbatim>\<open>StmtListKeys\<close>; a negative limit is an error of the server.\<close>

definition sql_list :: "time option \<Rightarrow> int \<Rightarrow> key_table \<Rightarrow> go_error + key_row list" where
  "sql_list lastCreatedAt limit t =
     (if limit < 0 then Inl (PgError ''2201W'' ''LIMIT must not be negative'')
      else Inr (take (nat limit)
        (sort_key (\<lambda>r. - r_created_at r)
          (filter (\<lambda>r. case lastCreatedAt of None \<Rightarrow> True | Some c \<Rightarrow> r_created_at r < c)
            (filter (is_latest t) t)))))"

definition sql_batch :: "key_id list \<Rightarrow> key_table \<Rightarrow> key_row list" where
  "sql_batch ids t =
     sort_key (\<lambda>r. kid_value (r_id r)) (sort_key (\<lambda>r. - r_version r)
       (filter (\<lambda>r. r_id r \<in> set ids) t))"

definition row_pk :: "key_row \<Rightarrow> key_id \<times> int" where
  "row_pk r = (r_id r, r_version r)"

text \<open>\<^verbatim>\<open>COPY keys FROM\<close>: all rows or, when a primary key is taken, none.\<close>

definition sql_copy :: "key_row list \<Rightarrow> key_table \<Rightarrow> go_error + key_table" where
  "sql_copy rows t =
     (if distinct (map row_pk (t @ rows)) then Inr (t @ rows)
      else Inl (PgError ''23505'' ''duplicate key value violates unique constraint''))"

definition int4_max :: int where "int4_max = 2 ^ 31 - 1"

text \<open>
  The statement of \<^verbatim>\<open>rotateKeyInTx\<close>.  The generated encoder omits a zero version, so
  \<^verbatim>\<open>metadata->>'version'\<close> is NULL there and the NOT NULL column refuses the row.
\<close>

definition sql_rotate ::
  "string \<Rightarrow> key_id \<Rightarrow> bytes \<Rightarrow> string \<Rightarrow> time \<Rightarrow> key_table \<Rightarrow> go_error + key_table \<times> key_row option"
where
  "sql_rotate old_status i dek new_status dbnow t =
     (case sql_latest i t of
        None \<Rightarrow> Inr (t, None)
      | Some old \<Rightarrow>
          (case r_metadata old of
             JMeta m \<Rightarrow>
               if m_Version m = 0
               then Inl (PgError ''23502'' ''null value in column version violates not-null constraint'')
               else if m_Version m + 1 > int4_max
               then Inl (PgError ''22003'' ''integer out of range'')
               else
                 (let t1 = map (\<lambda>r. if r_id r = i \<and> is_latest t r
                                    then r\<lparr>r_status := old_status, r_updated_at := timestamptz dbnow\<rparr>
                                    else r) t;
                      new = \<lparr>r_id = i, r_version = m_Version m + 1,
                             r_metadata = JMeta (m\<lparr>m_Version := m_Version m + 1\<rparr>),
                             r_encrypted_dek = dek, r_status = new_status,
                             r_storage_type = r_storage_type old, r_created_at = timestamptz dbnow,
                             r_updated_at = timestamptz dbnow, r_revoked_at = None\<rparr>
                  in case sql_copy [new] t1 of
                       Inl err \<Rightarrow> Inl err
                     | Inr t2 \<Rightarrow> Inr (t2, Some new))
           | JNull \<Rightarrow> Inl (PgError ''23502'' ''null value in column version violates not-null constraint'')
           | JOther e \<Rightarrow> Inl e))"

section \<open>Well-formed tables\<close>

definition row_ok :: "key_row \<Rightarrow> bool" where
  "row_ok r \<longleftrightarrow> 1 \<le> r_version r \<and> r_version r \<le> int4_max \<and>
     (case r_metadata r of JMeta m \<Rightarrow> m_Version m = r_version r | _ \<Rightarrow> False)"

text \<open>
  The primary key holds and every row carries metadata for its own version, which is what the
  rotation statement derives the next version from.
\<close>

definition table_ok :: "key_table \<Rightarrow> bool" where
  "table_ok t \<longleftrightarrow> distinct (map row_pk t) \<and> list_all row_ok t"

lemma row_okE:
  assumes "row_ok r"
  obtains m where "r_metadata r = JMeta m" "m_Version m = r_version r" "1 \<le> r_version r"
    "r_version r \<le> int4_max"
  using assms by (auto simp: row_ok_def split: jsonb.splits)

lemma table_ok_row: "table_ok t \<Longrightarrow> r \<in> set t \<Longrightarrow> row_ok r"
  by (simp add: table_ok_def list_all_iff)

lemma distinct_pk_eq:
  "distinct (map row_pk t) \<Longrightarrow> r \<in> set t \<Longrightarrow> r' \<in> set t \<Longrightarrow> r_id r = r_id r' \<Longrightarrow>
   r_version r = r_version r' \<Longrightarrow> r = r'"
  by (metis (mono_tags, lifting) distinct_map inj_onD row_pk_def)

lemma sql_latest_mem: "sql_latest i t = Some r \<Longrightarrow> r \<in> set t \<and> r_id r = i \<and> is_latest t r"
  using max_by_mem [of r_version "rows_of i t" r] max_by_ge [of r_version "rows_of i t" r]
  by (auto simp: sql_latest_def rows_of_def is_latest_def list_all_iff)

lemma sql_latest_None: "sql_latest i t = None \<longleftrightarrow> (\<forall>r \<in> set t. r_id r \<noteq> i)"
  by (auto simp: sql_latest_def rows_of_def filter_empty_conv)

lemma sql_exists_iff: "sql_exists i t \<longleftrightarrow> sql_latest i t \<noteq> None"
  by (auto simp: sql_exists_def sql_latest_None list_ex_iff)

lemma sql_latest_iff:
  assumes "distinct (map row_pk t)"
  shows "sql_latest i t = Some r \<longleftrightarrow> r \<in> set t \<and> r_id r = i \<and> is_latest t r"
proof
  assume r: "r \<in> set t \<and> r_id r = i \<and> is_latest t r"
  show "sql_latest i t = Some r"
    unfolding sql_latest_def
    by (rule max_by_eqI)
      (use r assms in \<open>auto simp: rows_of_def is_latest_def list_all_iff intro: distinct_pk_eq\<close>)
qed (rule sql_latest_mem)

lemma sql_by_version_iff:
  assumes "distinct (map row_pk t)"
  shows "sql_by_version i v t = Some r \<longleftrightarrow> r \<in> set t \<and> r_id r = i \<and> r_version r = v"
proof
  assume "sql_by_version i v t = Some r"
  then show "r \<in> set t \<and> r_id r = i \<and> r_version r = v"
    by (auto simp: sql_by_version_def find_Some_iff)
next
  assume r: "r \<in> set t \<and> r_id r = i \<and> r_version r = v"
  show "sql_by_version i v t = Some r"
  proof (cases "sql_by_version i v t")
    case None
    with r show ?thesis by (auto simp: sql_by_version_def find_None_iff)
  next
    case (Some r')
    then have "r' \<in> set t" "r_id r' = i" "r_version r' = v"
      by (auto simp: sql_by_version_def find_Some_iff)
    with r assms Some show ?thesis by (metis distinct_pk_eq)
  qed
qed

lemma sql_by_version_latest:
  "distinct (map row_pk t) \<Longrightarrow> sql_latest i t = Some r \<Longrightarrow> sql_by_version i (r_version r) t = Some r"
  by (simp add: sql_by_version_iff sql_latest_iff)

section \<open>Statements that rewrite rows in place\<close>

text \<open>
  Updates keep the identity, version and order of the rows, so lookups commute with them.
\<close>

lemma max_by_map:
  "(\<And>x. x \<in> set xs \<Longrightarrow> f (g x) = f x) \<Longrightarrow> max_by f (map g xs) = map_option g (max_by f xs)"
  by (induction xs) (auto split: option.splits dest: max_by_mem)

lemma find_map_same:
  "(\<And>x. x \<in> set xs \<Longrightarrow> P (g x) = P x) \<Longrightarrow> find P (map g xs) = map_option g (find P xs)"
  by (induction xs) auto

lemma filter_map_same:
  "(\<And>x. x \<in> set xs \<Longrightarrow> P (g x) = P x) \<Longrightarrow> filter P (map g xs) = map g (filter P xs)"
  by (induction xs) auto

locale row_update =
  fixes g :: "key_row \<Rightarrow> key_row"
  assumes same_id [simp]: "r_id (g r) = r_id r"
    and same_version [simp]: "r_version (g r) = r_version r"
begin

lemma update_pk: "map row_pk (map g t) = map row_pk t"
  by (simp add: row_pk_def comp_def)

lemma update_rows_of: "rows_of i (map g t) = map g (rows_of i t)"
  by (simp add: rows_of_def filter_map_same)

lemma update_latest: "sql_latest i (map g t) = map_option g (sql_latest i t)"
  by (simp add: sql_latest_def update_rows_of max_by_map)

lemma update_by_version: "sql_by_version i v (map g t) = map_option g (sql_by_version i v t)"
  by (simp add: sql_by_version_def find_map_same)

lemma update_is_latest: "is_latest (map g t) (g r) = is_latest t r"
  by (simp add: is_latest_def list_all_iff)

lemma update_exists: "sql_exists i (map g t) = sql_exists i t"
  by (simp add: sql_exists_iff update_latest)

lemma update_table_ok: "table_ok t \<Longrightarrow> (\<And>r. r \<in> set t \<Longrightarrow> row_ok (g r)) \<Longrightarrow> table_ok (map g t)"
  by (auto simp: table_ok_def update_pk list_all_iff simp del: map_map)

end

text \<open>The three row rewrites of the statements.\<close>

definition on_id :: "key_id \<Rightarrow> (key_row \<Rightarrow> key_row) \<Rightarrow> key_row \<Rightarrow> key_row" where
  "on_id i f r = (if r_id r = i then f r else r)"

definition on_latest ::
  "key_table \<Rightarrow> key_id \<Rightarrow> (key_row \<Rightarrow> key_row) \<Rightarrow> key_row \<Rightarrow> key_row" where
  "on_latest t i f r = (if r_id r = i \<and> is_latest t r then f r else r)"

definition on_ids :: "key_id list \<Rightarrow> (key_row \<Rightarrow> key_row) \<Rightarrow> key_row \<Rightarrow> key_row" where
  "on_ids ids f r = (if r_id r \<in> set ids then f r else r)"

lemma revoke_row_simps [simp]:
  "r_id (revoke_row s a r) = r_id r" "r_version (revoke_row s a r) = r_version r"
  "r_status (revoke_row s a r) = s" "r_metadata (revoke_row s a r) = r_metadata r"
  "r_created_at (revoke_row s a r) = r_created_at r"
  by (simp_all add: revoke_row_def)

lemma sql_revoke_map: "fst (sql_revoke s a i t) = map (on_id i (revoke_row s a)) t"
  by (simp add: sql_revoke_def on_id_def)

lemma sql_revoke_batch_map: "fst (sql_revoke_batch s a ids t) = map (on_ids ids (revoke_row s a)) t"
  by (simp add: sql_revoke_batch_def on_ids_def)

lemma sql_update_metadata_map:
  "fst (sql_update_metadata md a i t) =
     map (on_latest t i (\<lambda>r. r\<lparr>r_metadata := md, r_updated_at := timestamptz a\<rparr>)) t"
  by (simp add: sql_update_metadata_def on_latest_def Let_def)

interpretation revoke_update: row_update "on_id i (revoke_row s a)" for i s a
  by unfold_locales (simp_all add: on_id_def)

interpretation revoke_batch_update: row_update "on_ids ids (revoke_row s a)" for ids s a
  by unfold_locales (simp_all add: on_ids_def)

interpretation metadata_update:
  row_update "on_latest t i (\<lambda>r. r\<lparr>r_metadata := md, r_updated_at := a\<rparr>)" for t i md a
  by unfold_locales (simp_all add: on_latest_def)

interpretation rotated_update:
  row_update "on_latest t i (\<lambda>r. r\<lparr>r_status := s, r_updated_at := a\<rparr>)" for t i s a
  by unfold_locales (simp_all add: on_latest_def)

section \<open>What the statements do to a well-formed table\<close>

lemma row_ok_cong: "r_version r' = r_version r \<Longrightarrow> r_metadata r' = r_metadata r \<Longrightarrow> row_ok r' = row_ok r"
  by (simp add: row_ok_def split: jsonb.splits)

lemma row_ok_revoke [simp]: "row_ok (revoke_row s a r) = row_ok r"
  by (rule row_ok_cong) simp_all

lemma row_ok_status [simp]: "row_ok (r\<lparr>r_status := s, r_updated_at := a\<rparr>) = row_ok r"
  by (rule row_ok_cong) simp_all

lemma sql_by_version_mem: "sql_by_version i v t = Some r \<Longrightarrow> r \<in> set t \<and> r_id r = i \<and> r_version r = v"
  by (auto simp: sql_by_version_def find_Some_iff)

lemma on_latest_fun: "(\<lambda>r. if r_id r = i \<and> is_latest t r then f r else r) = on_latest t i f"
  by (simp add: on_latest_def fun_eq_iff)

lemma sql_revoke_ok: "table_ok t \<Longrightarrow> table_ok (fst (sql_revoke s a i t))"
  unfolding sql_revoke_map
  by (rule revoke_update.update_table_ok) (auto simp: on_id_def dest: table_ok_row)

lemma sql_revoke_batch_ok: "table_ok t \<Longrightarrow> table_ok (fst (sql_revoke_batch s a ids t))"
  unfolding sql_revoke_batch_map
  by (rule revoke_batch_update.update_table_ok) (auto simp: on_ids_def dest: table_ok_row)

lemma sql_update_metadata_ok:
  assumes "table_ok t"
    and "\<And>r. sql_latest i t = Some r \<Longrightarrow> m_Version m = r_version r"
  shows "table_ok (fst (sql_update_metadata (JMeta m) a i t))"
  unfolding sql_update_metadata_map
proof (rule metadata_update.update_table_ok [OF assms(1)])
  fix r assume r: "r \<in> set t"
  have "row_ok r" using assms(1) r by (rule table_ok_row)
  moreover have "r_id r = i \<Longrightarrow> is_latest t r \<Longrightarrow> m_Version m = r_version r"
    using assms r by (auto simp: sql_latest_iff table_ok_def)
  ultimately show "row_ok (on_latest t i (\<lambda>r. r\<lparr>r_metadata := JMeta m, r_updated_at := timestamptz a\<rparr>) r)"
    by (auto simp: on_latest_def row_ok_def)
qed

lemma sql_copy_ok:
  "table_ok t \<Longrightarrow> list_all row_ok rows \<Longrightarrow> sql_copy rows t = Inr t' \<Longrightarrow> table_ok t' \<and> t' = t @ rows"
  by (auto simp: sql_copy_def table_ok_def split: if_splits)

lemma sql_revoke_latest:
  "sql_latest j (fst (sql_revoke s a i t)) =
     (if j = i then map_option (revoke_row s a) (sql_latest j t) else sql_latest j t)"
proof -
  have "map_option (on_id i (revoke_row s a)) (sql_latest j t) =
      (if j = i then map_option (revoke_row s a) (sql_latest j t) else sql_latest j t)"
    using sql_latest_mem [of j t] by (cases "j = i"; cases "sql_latest j t") (simp_all add: on_id_def)
  then show ?thesis by (simp only: sql_revoke_map revoke_update.update_latest)
qed

lemma sql_revoke_by_version:
  "sql_by_version j v (fst (sql_revoke s a i t)) =
     (if j = i then map_option (revoke_row s a) (sql_by_version j v t) else sql_by_version j v t)"
proof -
  have "map_option (on_id i (revoke_row s a)) (sql_by_version j v t) =
      (if j = i then map_option (revoke_row s a) (sql_by_version j v t) else sql_by_version j v t)"
    using sql_by_version_mem [of j v t]
    by (cases "j = i"; cases "sql_by_version j v t") (simp_all add: on_id_def)
  then show ?thesis by (simp only: sql_revoke_map revoke_update.update_by_version)
qed

lemma sql_revoke_all:
  "r \<in> set (fst (sql_revoke s a i t)) \<Longrightarrow> r_id r = i \<Longrightarrow> r_status r = s \<and> r_revoked_at r = Some (timestamptz a)"
  unfolding sql_revoke_map set_map
  by (elim imageE) (simp add: on_id_def revoke_row_def split: if_splits)

lemma sql_update_metadata_other:
  assumes "j \<noteq> i"
  shows "sql_latest j (fst (sql_update_metadata md a i t)) = sql_latest j t"
    and "sql_by_version j v (fst (sql_update_metadata md a i t)) = sql_by_version j v t"
proof -
  let ?g = "on_latest t i (\<lambda>r. r\<lparr>r_metadata := md, r_updated_at := timestamptz a\<rparr>)"
  have "map_option ?g (sql_latest j t) = sql_latest j t"
    using assms sql_latest_mem [of j t] by (cases "sql_latest j t") (simp_all add: on_latest_def)
  moreover have "map_option ?g (sql_by_version j v t) = sql_by_version j v t"
    using assms sql_by_version_mem [of j v t]
    by (cases "sql_by_version j v t") (simp_all add: on_latest_def)
  ultimately show "sql_latest j (fst (sql_update_metadata md a i t)) = sql_latest j t"
    and "sql_by_version j v (fst (sql_update_metadata md a i t)) = sql_by_version j v t"
    by (simp_all only: sql_update_metadata_map metadata_update.update_latest metadata_update.update_by_version)
qed

lemma sql_update_metadata_latest:
  "sql_latest i (fst (sql_update_metadata md a i t)) =
     map_option (\<lambda>r. r\<lparr>r_metadata := md, r_updated_at := timestamptz a\<rparr>) (sql_latest i t)"
proof -
  let ?f = "\<lambda>r. r\<lparr>r_metadata := md, r_updated_at := timestamptz a\<rparr>"
  have "map_option (on_latest t i ?f) (sql_latest i t) = map_option ?f (sql_latest i t)"
    using sql_latest_mem [of i t] by (cases "sql_latest i t") (simp_all add: on_latest_def)
  then show ?thesis by (simp only: sql_update_metadata_map metadata_update.update_latest)
qed

lemma sql_update_metadata_count:
  "snd (sql_update_metadata md a i t) = 0 \<longleftrightarrow> sql_latest i t = None"
proof -
  have "snd (sql_update_metadata md a i t) = 0 \<longleftrightarrow> (\<forall>r \<in> set t. \<not> (r_id r = i \<and> is_latest t r))"
    by (simp add: sql_update_metadata_def Let_def filter_empty_conv)
  also have "\<dots> \<longleftrightarrow> sql_latest i t = None"
  proof
    assume no: "\<forall>r \<in> set t. \<not> (r_id r = i \<and> is_latest t r)"
    then show "sql_latest i t = None"
      using sql_latest_mem [of i t] by (cases "sql_latest i t") auto
  qed (simp add: sql_latest_None)
  finally show ?thesis .
qed

lemma sql_revoke_count: "snd (sql_revoke s a i t) = 0 \<longleftrightarrow> sql_latest i t = None"
  by (auto simp: sql_revoke_def sql_latest_def)

lemma sql_revoke_none: "sql_latest i t = None \<Longrightarrow> fst (sql_revoke s a i t) = t"
  unfolding sql_revoke_map by (rule map_idI) (simp add: sql_latest_None on_id_def)

lemma sql_update_metadata_none: "sql_latest i t = None \<Longrightarrow> fst (sql_update_metadata md a i t) = t"
  unfolding sql_update_metadata_map by (rule map_idI) (simp add: sql_latest_None on_latest_def)

section \<open>Rotation\<close>

definition rotated_row :: "key_row \<Rightarrow> bytes \<Rightarrow> string \<Rightarrow> time \<Rightarrow> key_metadata \<Rightarrow> key_row" where
  "rotated_row old dek status dbnow m =
     \<lparr>r_id = r_id old, r_version = r_version old + 1,
      r_metadata = JMeta (m\<lparr>m_Version := r_version old + 1\<rparr>), r_encrypted_dek = dek,
      r_status = status, r_storage_type = r_storage_type old, r_created_at = timestamptz dbnow,
      r_updated_at = timestamptz dbnow, r_revoked_at = None\<rparr>"

lemma is_latest_notin:
  "is_latest t old \<Longrightarrow> (r_id old, r_version old + 1) \<notin> row_pk ` set t"
  by (auto simp: is_latest_def list_all_iff row_pk_def)

text \<open>
  On a well-formed table the statement succeeds for every present key below the last version,
  marks the old row and appends the next version.
\<close>

lemma sql_rotate_success:
  assumes "table_ok t" and "sql_latest i t = Some old" and "r_version old < int4_max"
  shows "\<exists>m. r_metadata old = JMeta m \<and> m_Version m = r_version old \<and>
    sql_rotate os i dek ns dbnow t =
      Inr (map (on_latest t i (\<lambda>r. r\<lparr>r_status := os, r_updated_at := timestamptz dbnow\<rparr>)) t
             @ [rotated_row old dek ns dbnow m], Some (rotated_row old dek ns dbnow m))"
proof -
  have old: "old \<in> set t" "r_id old = i" "is_latest t old"
    using sql_latest_mem [OF assms(2)] by auto
  obtain m where m: "r_metadata old = JMeta m" "m_Version m = r_version old" "1 \<le> r_version old"
    using row_okE [OF table_ok_row [OF assms(1) old(1)]] by metis
  let ?g = "on_latest t i (\<lambda>r. r\<lparr>r_status := os, r_updated_at := timestamptz dbnow\<rparr>)"
  let ?new = "rotated_row old dek ns dbnow m"
  have pk: "map row_pk (map ?g t) = map row_pk t" by (rule rotated_update.update_pk)
  have "row_pk ?new \<notin> row_pk ` set t"
    using is_latest_notin [OF old(3)] by (simp add: row_pk_def rotated_row_def)
  then have "row_pk ?new \<notin> set (map row_pk (map ?g t))" by (simp only: pk set_map not_False_eq_True)
  then have copy: "sql_copy [?new] (map ?g t) = Inr (map ?g t @ [?new])"
    using assms(1) pk by (simp add: sql_copy_def table_ok_def del: map_map)
  have "sql_rotate os i dek ns dbnow t = Inr (map ?g t @ [?new], Some ?new)"
    using assms m old copy
    by (simp add: sql_rotate_def Let_def rotated_row_def on_latest_fun)
  then show ?thesis using m by blast
qed

lemma sql_rotate_cases:
  assumes "table_ok t" and "sql_rotate os i dek ns dbnow t = Inr (t', res)"
  obtains (missing) "res = None" "t' = t" "sql_latest i t = None"
  | (rotated) old m where "sql_latest i t = Some old" "r_metadata old = JMeta m"
      "r_version old < int4_max" "res = Some (rotated_row old dek ns dbnow m)"
      "t' = map (on_latest t i (\<lambda>r. r\<lparr>r_status := os, r_updated_at := timestamptz dbnow\<rparr>)) t
             @ [rotated_row old dek ns dbnow m]"
proof (cases "sql_latest i t")
  case None
  then show ?thesis using assms missing by (simp add: sql_rotate_def)
next
  case (Some old)
  then obtain m where m: "r_metadata old = JMeta m" "m_Version m = r_version old"
    using row_okE [OF table_ok_row [OF assms(1)]] sql_latest_mem [OF Some] by metis
  have "r_version old < int4_max"
    using assms(2) Some m by (auto simp: sql_rotate_def split: if_splits)
  from sql_rotate_success [OF assms(1) Some this, of os dek ns dbnow] assms(2) m
  show ?thesis by (intro rotated [OF Some m(1) \<open>r_version old < int4_max\<close>]) auto
qed

lemma rotated_table_ok:
  assumes "table_ok t" and "sql_rotate os i dek ns dbnow t = Inr (t', res)"
  shows "table_ok t'"
  using assms(1) assms(2)
proof (cases rule: sql_rotate_cases)
  case missing
  then show ?thesis using assms by simp
next
  case (rotated old m)
  let ?g = "on_latest t i (\<lambda>r. r\<lparr>r_status := os, r_updated_at := timestamptz dbnow\<rparr>)"
  have old: "old \<in> set t" "r_id old = i" "is_latest t old"
    using sql_latest_mem [OF rotated(1)] by auto
  have "table_ok (map ?g t)"
    using assms(1)
    by (rule rotated_update.update_table_ok)
      (simp add: on_latest_def table_ok_row [OF assms(1)])
  moreover have "row_ok (rotated_row old dek ns dbnow m)"
    using rotated table_ok_row [OF assms(1) old(1)] by (auto simp: row_ok_def rotated_row_def)
  moreover have "row_pk (rotated_row old dek ns dbnow m) \<notin> set (map row_pk (map ?g t))"
    unfolding rotated_update.update_pk
    using is_latest_notin [OF old(3)] by (simp add: row_pk_def rotated_row_def)
  ultimately show ?thesis using rotated by (simp add: table_ok_def)
qed

lemma sql_rotate_latest:
  assumes "table_ok t" and "sql_rotate os i dek ns dbnow t = Inr (t', Some new)"
  shows "sql_latest i t' = Some new"
    and "j \<noteq> i \<Longrightarrow> sql_latest j t' = sql_latest j t"
    and "j \<noteq> i \<Longrightarrow> sql_by_version j v t' = sql_by_version j v t"
proof -
  have ok': "table_ok t'" using assms by (rule rotated_table_ok)
  then have dist: "distinct (map row_pk t')" by (simp add: table_ok_def)
  from assms obtain old m where r: "sql_latest i t = Some old"
      "new = rotated_row old dek ns dbnow m"
      "t' = map (on_latest t i (\<lambda>r. r\<lparr>r_status := os, r_updated_at := timestamptz dbnow\<rparr>)) t @ [new]"
    by (cases rule: sql_rotate_cases) auto
  have old: "r_id old = i" "is_latest t old" using sql_latest_mem [OF r(1)] by auto
  show "sql_latest i t' = Some new"
    using old unfolding sql_latest_iff [OF dist]
    by (auto simp: r(2,3) rotated_row_def is_latest_def list_all_iff on_latest_def)
  assume j: "j \<noteq> i"
  have rows: "rows_of j t' = rows_of j t"
  proof -
    let ?g = "on_latest t i (\<lambda>r. r\<lparr>r_status := os, r_updated_at := timestamptz dbnow\<rparr>)"
    have "rows_of j t' = rows_of j (map ?g t)"
      using j old by (simp add: r(2,3) rotated_row_def rows_of_def)
    also have "\<dots> = map ?g (rows_of j t)" by (rule rotated_update.update_rows_of)
    also have "\<dots> = rows_of j t"
      using j by (intro map_idI) (auto simp: on_latest_def rows_of_def)
    finally show ?thesis .
  qed
  then show "sql_latest j t' = sql_latest j t" by (simp add: sql_latest_def)
  have "sql_by_version j v u = find (\<lambda>r. r_version r = v) (rows_of j u)" for u
    by (induction u) (auto simp: sql_by_version_def rows_of_def)
  then show "sql_by_version j v t' = sql_by_version j v t" by (simp add: rows)
qed

end
