(* ===== verification/Memory.thy ===== *)
theory Memory
  imports Prelude
begin

text \<open>
  The zeroing buffer pools of \<^verbatim>\<open>pkg/memory\<close>.  A \<^verbatim>\<open>sync.Pool\<close> is the list of the buffers put
  back; \<^verbatim>\<open>Get\<close> may return any of them or a new one, and that choice is an argument.
\<close>

section \<open>Pools\<close>

definition sync_pool_Get :: "'a \<Rightarrow> nat option \<Rightarrow> 'a list \<Rightarrow> 'a \<times> 'a list" where
  "sync_pool_Get new pick pool =
     (case pick of
        Some i \<Rightarrow> if i < length pool then (pool ! i, take i pool @ drop (Suc i) pool) else (new, pool)
      | None \<Rightarrow> (new, pool))"

fun SecureZeroBytes :: "bytes \<Rightarrow> bytes" where
  "SecureZeroBytes [] = []"
| "SecureZeroBytes (b # bs) = 0 # SecureZeroBytes bs"

text \<open>\<^verbatim>\<open>BufferPool\<close> and \<^verbatim>\<open>SecureDEKPool\<close>: buffers of one size.\<close>

record buffer_pool =
  bp_size :: nat
  bp_pool :: "bytes list"

definition NewBufferPool :: "nat \<Rightarrow> buffer_pool" where
  "NewBufferPool n = \<lparr>bp_size = n, bp_pool = []\<rparr>"

definition BufferPool_Get :: "nat option \<Rightarrow> buffer_pool \<Rightarrow> bytes \<times> buffer_pool" where
  "BufferPool_Get pick p =
     (let (b, pool) = sync_pool_Get (replicate (bp_size p) 0) pick (bp_pool p)
      in (b, p\<lparr>bp_pool := pool\<rparr>))"

definition BufferPool_Put :: "bytes \<Rightarrow> buffer_pool \<Rightarrow> buffer_pool" where
  "BufferPool_Put b p = p\<lparr>bp_pool := SecureZeroBytes b # bp_pool p\<rparr>"

definition NewSecureDEKPool :: "nat \<Rightarrow> buffer_pool" where
  "NewSecureDEKPool n = \<lparr>bp_size = n, bp_pool = []\<rparr>"

definition SecureDEKPool_Get :: "nat option \<Rightarrow> buffer_pool \<Rightarrow> bytes \<times> buffer_pool" where
  "SecureDEKPool_Get pick p =
     (let (b, pool) = sync_pool_Get (replicate (bp_size p) 0) pick (bp_pool p)
      in (b, p\<lparr>bp_pool := pool\<rparr>))"

definition SecureDEKPool_Put :: "bytes \<Rightarrow> buffer_pool \<Rightarrow> buffer_pool" where
  "SecureDEKPool_Put buf p = p\<lparr>bp_pool := SecureZeroBytes buf # bp_pool p\<rparr>"

section \<open>What a pool holds\<close>

lemma SecureZeroBytes_eq: "SecureZeroBytes b = replicate (length b) 0"
  by (induction b) auto

text \<open>Every pooled buffer has the pool's size and holds only zeros.\<close>

definition pool_ok :: "buffer_pool \<Rightarrow> bool" where
  "pool_ok p \<longleftrightarrow> list_all (\<lambda>b. b = replicate (bp_size p) 0) (bp_pool p)"

lemma sync_pool_Get_all:
  "sync_pool_Get new pick pool = (b, pool') \<Longrightarrow> P new \<Longrightarrow> list_all P pool \<Longrightarrow> P b \<and> list_all P pool'"
  by (auto simp: sync_pool_Get_def list_all_iff split: option.splits if_splits
      dest!: in_set_takeD in_set_dropD)

lemma SecureDEKPool_Get_ok:
  assumes "pool_ok p" and "SecureDEKPool_Get pick p = (b, p')"
  shows "b = replicate (bp_size p) 0 \<and> pool_ok p' \<and> bp_size p' = bp_size p"
  using assms sync_pool_Get_all [of "replicate (bp_size p) 0" pick "bp_pool p" b _ "\<lambda>b. b = replicate (bp_size p) 0"]
  by (auto simp: SecureDEKPool_Get_def pool_ok_def Let_def split: prod.splits)

lemma SecureDEKPool_Put_ok:
  "pool_ok p \<Longrightarrow> length b = bp_size p \<Longrightarrow> pool_ok (SecureDEKPool_Put b p)"
  by (simp add: SecureDEKPool_Put_def pool_ok_def SecureZeroBytes_eq)

lemma SecureDEKPool_Put_size [simp]: "bp_size (SecureDEKPool_Put b p) = bp_size p"
  by (simp add: SecureDEKPool_Put_def)

end
