(* ===== verification/World.thy ===== *)
theory World
  imports Cache CircuitBreaker KeyTable Memory
begin

text \<open>
  The state the server works on.  It gathers the state of the components (the key table behind
  the database, the heap of \<^verbatim>\<open>domain.Key\<close> objects that repositories hand out by pointer, the
  repository cache and its index, the circuit breaker, the derived-key cache, the DEK pool, the
  audit trail) and what the environment decides: the clocks, the outcome of each database round
  trip, the outcome of each breaker race.  The record \<open>env\<close> holds what does not change: the uuid
  library and the random sources, indexed by the number of the draw.
\<close>

section \<open>Environment\<close>

record env =
  e_uuid :: uuid_lib
  e_newUUID :: "nat \<Rightarrow> uuid"
  e_rand :: "nat \<Rightarrow> nat \<Rightarrow> bytes option"  \<comment> \<open>\<^verbatim>\<open>crypto/rand\<close>: draw, length; \<open>None\<close> is an error\<close>
  e_intn :: "nat \<Rightarrow> nat"  \<comment> \<open>\<^verbatim>\<open>math/rand\<close>\<close>
  e_pick :: "nat \<Rightarrow> nat option"  \<comment> \<open>the choice of \<^verbatim>\<open>sync.Pool.Get\<close>\<close>

text \<open>
  The outcome of a round trip to the database server.  A failed call may have taken effect
  there (\<open>True\<close>), as when the connection breaks after a commit.
\<close>

datatype net = NetOk | NetErr go_error bool

record audit_entry =
  ae_ClientIdentity :: string
  ae_Operation :: string
  ae_KeyID :: string
  ae_AuthDecisionID :: string
  ae_Success :: bool
  ae_Error :: "go_error option"

record world =
  w_now :: time
  w_dbnow :: time
  w_draws :: nat
  w_net :: "net list"
  w_races :: "race list"
  w_keys :: key_table
  w_locks :: "int list"  \<comment> \<open>advisory locks held by other transactions\<close>
  w_slept :: "time list"  \<comment> \<open>the sleeps between attempts, latest first\<close>
  w_heap :: "key list"  \<comment> \<open>a \<^verbatim>\<open>*domain.Key\<close> is an index\<close>
  w_cache :: "(string, nat) cache"
  w_index :: "string \<rightharpoonup> string list"
  w_brk :: breaker
  w_dkc :: "(string, bytes) cache"
  w_deks :: buffer_pool
  w_audit :: "audit_entry list"

type_synonym 'a result = "(go_error + 'a) \<times> world"

section \<open>Access\<close>

text \<open>Round trips beyond the recorded outcomes succeed.\<close>

definition net_next :: "world \<Rightarrow> net \<times> world" where
  "net_next w =
     ((case w_net w of [] \<Rightarrow> NetOk | n # ns \<Rightarrow> n), w\<lparr>w_net := tl (w_net w)\<rparr>)"

definition race_next :: "world \<Rightarrow> race \<times> world" where
  "race_next w =
     ((case w_races w of [] \<Rightarrow> FnFirst | r # rs \<Rightarrow> r), w\<lparr>w_races := tl (w_races w)\<rparr>)"

text \<open>A query, and a statement that rewrites the table when the server accepts it.\<close>

definition db_query :: "(key_table \<Rightarrow> go_error + 'a) \<Rightarrow> world \<Rightarrow> 'a result" where
  "db_query q w =
     (case net_next w of
        (NetErr e _, w1) \<Rightarrow> (Inl e, w1)
      | (NetOk, w1) \<Rightarrow> (q (w_keys w1), w1))"

definition db_exec :: "(key_table \<Rightarrow> go_error + key_table \<times> 'a) \<Rightarrow> world \<Rightarrow> 'a result" where
  "db_exec f w =
     (case net_next w of
        (NetErr e applied, w1) \<Rightarrow>
          (Inl e, case f (w_keys w1) of
                    Inr (t, _) \<Rightarrow> if applied then w1\<lparr>w_keys := t\<rparr> else w1
                  | Inl _ \<Rightarrow> w1)
      | (NetOk, w1) \<Rightarrow>
          (case f (w_keys w1) of
             Inl e \<Rightarrow> (Inl e, w1)
           | Inr (t, x) \<Rightarrow> (Inr x, w1\<lparr>w_keys := t\<rparr>)))"

definition heap_alloc :: "key \<Rightarrow> world \<Rightarrow> nat \<times> world" where
  "heap_alloc k w = (length (w_heap w), w\<lparr>w_heap := w_heap w @ [k]\<rparr>)"

definition deref :: "world \<Rightarrow> nat \<Rightarrow> key" where
  "deref w p = w_heap w ! p"

definition heap_write :: "nat \<Rightarrow> key \<Rightarrow> world \<Rightarrow> world" where
  "heap_write p k w = w\<lparr>w_heap := (w_heap w)[p := k]\<rparr>"

definition AuditLog ::
  "string \<Rightarrow> string \<Rightarrow> string \<Rightarrow> string \<Rightarrow> bool \<Rightarrow> go_error option \<Rightarrow> world \<Rightarrow> world" where
  "AuditLog client op kid decision success err w =
     w\<lparr>w_audit := w_audit w @ [\<lparr>ae_ClientIdentity = client, ae_Operation = op, ae_KeyID = kid,
        ae_AuthDecisionID = decision, ae_Success = success, ae_Error = err\<rparr>]\<rparr>"

definition next_draw :: "world \<Rightarrow> nat \<times> world" where
  "next_draw w = (w_draws w, w\<lparr>w_draws := Suc (w_draws w)\<rparr>)"

text \<open>No round trip on the tape fails after taking effect.\<close>

fun net_effect_free :: "net \<Rightarrow> bool" where
  "net_effect_free NetOk = True"
| "net_effect_free (NetErr e applied) = (\<not> applied)"

definition net_clean :: "world \<Rightarrow> bool" where
  "net_clean w \<longleftrightarrow> list_all net_effect_free (w_net w)"

section \<open>The repository interface\<close>

text \<open>\<^verbatim>\<open>domain.KeyRepository\<close>: the methods, on the state of the server.\<close>

record key_repo =
  repo_GetKey :: "key_id \<Rightarrow> world \<Rightarrow> nat result"
  repo_GetKeyByVersion :: "key_id \<Rightarrow> int \<Rightarrow> world \<Rightarrow> nat result"
  repo_GetKeyMetadata :: "key_id \<Rightarrow> world \<Rightarrow> key_metadata option result"
  repo_GetKeyMetadataByVersion :: "key_id \<Rightarrow> int \<Rightarrow> world \<Rightarrow> key_metadata option result"
  repo_CreateKey :: "key option \<Rightarrow> world \<Rightarrow> unit result"
  repo_CreateBatchKeys :: "key list \<Rightarrow> world \<Rightarrow> unit result"
  repo_ListKeys :: "time option \<Rightarrow> int \<Rightarrow> world \<Rightarrow> key list result"
  repo_UpdateKeyMetadata :: "key_id \<Rightarrow> key_metadata option \<Rightarrow> world \<Rightarrow> unit result"
  repo_RotateKey :: "key_id \<Rightarrow> bytes \<Rightarrow> world \<Rightarrow> key result"
  repo_RevokeKey :: "key_id \<Rightarrow> world \<Rightarrow> unit result"
  repo_GetKeyVersions :: "key_id \<Rightarrow> world \<Rightarrow> key list result"
  repo_Exists :: "key_id \<Rightarrow> world \<Rightarrow> bool result"
  repo_GetBatchKeys :: "key_id list \<Rightarrow> world \<Rightarrow> key list result"
  repo_GetBatchKeyMetadata :: "key_id list \<Rightarrow> world \<Rightarrow> key_metadata list result"
  repo_RevokeBatchKeys :: "key_id list \<Rightarrow> world \<Rightarrow> unit result"
  repo_UpdateBatchKeyMetadata :: "nat list \<Rightarrow> world \<Rightarrow> unit result"

section \<open>Frames\<close>

lemma net_next_Nil [simp]: "w_net w = [] \<Longrightarrow> net_next w = (NetOk, w)"
  by (simp add: net_next_def)

text \<open>A query changes nothing but the tape; its result is the statement's or a server error.\<close>

lemma db_query_frame: "snd (db_query q w) = w\<lparr>w_net := tl (w_net w)\<rparr>"
  by (simp add: db_query_def net_next_def split: net.splits)

lemma db_query_result: "fst (db_query q w) = Inr x \<Longrightarrow> q (w_keys w) = Inr x"
  by (simp add: db_query_def net_next_def split: net.splits)

lemma db_query_Nil: "w_net w = [] \<Longrightarrow> db_query q w = (q (w_keys w), w)"
  by (simp add: db_query_def)

lemma db_exec_frame:
  "snd (db_exec f w) = w\<lparr>w_net := tl (w_net w), w_keys := w_keys (snd (db_exec f w))\<rparr>"
  by (auto simp: db_exec_def net_next_def split: net.splits sum.splits prod.splits)

lemma db_exec_ok: "fst (db_exec f w) = Inr x \<Longrightarrow> f (w_keys w) = Inr (w_keys (snd (db_exec f w)), x)"
  by (auto simp: db_exec_def net_next_def split: net.splits sum.splits prod.splits)

lemma net_clean_tl: "net_clean w \<Longrightarrow> net_clean (w'\<lparr>w_net := tl (w_net w)\<rparr>)"
  by (cases "w_net w") (simp_all add: net_clean_def)

lemma db_exec_failed:
  "fst (db_exec f w) = Inl e \<Longrightarrow> net_clean w \<Longrightarrow> w_keys (snd (db_exec f w)) = w_keys w"
  by (cases "w_net w")
    (auto simp: db_exec_def net_next_def net_clean_def split: net.splits sum.splits prod.splits)

lemma db_exec_cases:
  "w_keys (snd (db_exec f w)) = w_keys w \<or> (\<exists>x. f (w_keys w) = Inr (w_keys (snd (db_exec f w)), x))"
  by (auto simp: db_exec_def net_next_def split: net.splits sum.splits prod.splits)

lemma db_exec_Nil:
  "w_net w = [] \<Longrightarrow> db_exec f w =
     (case f (w_keys w) of Inl e \<Rightarrow> (Inl e, w) | Inr (t, x) \<Rightarrow> (Inr x, w\<lparr>w_keys := t\<rparr>))"
  by (simp add: db_exec_def)

lemma net_clean_cong: "w_net w' = w_net w \<Longrightarrow> net_clean w' = net_clean w"
  by (simp add: net_clean_def)

lemma net_clean_Nil [simp]: "w_net w = [] \<Longrightarrow> net_clean w"
  by (simp add: net_clean_def)

end
