(* ===== verification/Retry.thy ===== *)
theory Retry
  imports World
begin

text \<open>
  \<^verbatim>\<open>pkg/execution\<close> (retry with exponential backoff, timeout) and the transaction manager of
  the persistence layer.  A loop of at most \<open>n\<close> attempts recurses on the attempts left.
\<close>

section \<open>Retry\<close>

definition sleep :: "time \<Rightarrow> world \<Rightarrow> world" where
  "sleep d w = w\<lparr>w_slept := d # w_slept w\<rparr>"

definition rand_Intn :: "env \<Rightarrow> nat \<Rightarrow> world \<Rightarrow> nat \<times> world" where
  "rand_Intn E n w = (let (d, w1) = next_draw w in (e_intn E d mod n, w1))"

text \<open>The arithmetic on \<^verbatim>\<open>time.Duration\<close> wraps at 64 bits.\<close>

definition retry_backoff :: "time \<Rightarrow> time \<Rightarrow> nat \<Rightarrow> time" where
  "retry_backoff initialBackoff maxBackoff i =
     (let backoff = int64 (initialBackoff * int64 (2 ^ i))
      in if backoff > maxBackoff then maxBackoff else backoff)"

fun retry_loop ::
  "env \<Rightarrow> nat \<Rightarrow> nat \<Rightarrow> time \<Rightarrow> time \<Rightarrow> (world \<Rightarrow> 'a result) \<Rightarrow> (go_error + 'a) \<Rightarrow> world \<Rightarrow> 'a result"
where
  "retry_loop E i 0 initialBackoff maxBackoff fn res w = (res, w)"
| "retry_loop E i (Suc n) initialBackoff maxBackoff fn res w =
     (case fn w of
        (Inr r, w1) \<Rightarrow> (Inr r, w1)
      | (Inl err, w1) \<Rightarrow>
          (let backoff = retry_backoff initialBackoff maxBackoff i;
               (j, w2) = rand_Intn E 100 w1;
               w3 = sleep (backoff + int j * millisecond) w2
           in retry_loop E (Suc i) n initialBackoff maxBackoff fn (Inl err) w3))"

text \<open>Without an attempt the zero value is returned without an error.\<close>

definition WithRetry ::
  "env \<Rightarrow> nat \<Rightarrow> time \<Rightarrow> time \<Rightarrow> 'a \<Rightarrow> (world \<Rightarrow> 'a result) \<Rightarrow> world \<Rightarrow> 'a result" where
  "WithRetry E maxRetries initialBackoff maxBackoff zero fn w =
     retry_loop E 0 maxRetries initialBackoff maxBackoff fn (Inr zero) w"

text \<open>A deadline reaches the callee through its context: it shows as an error of the callee.\<close>

definition WithTimeout :: "time \<Rightarrow> (world \<Rightarrow> 'a result) \<Rightarrow> world \<Rightarrow> 'a result" where
  "WithTimeout timeout fn w = fn w"

section \<open>Transactions\<close>

definition maxRetries :: nat where "maxRetries = 5"
definition baseDelay :: time where "baseDelay = 10 * millisecond"
definition maxDelay :: time where "maxDelay = 250 * millisecond"

lemmas tx_constants [go_simps] = maxRetries_def baseDelay_def maxDelay_def

definition tx_delay :: "nat \<Rightarrow> time" where
  "tx_delay i = (let delay = baseDelay * 2 ^ i in if delay > maxDelay then maxDelay else delay)"

text \<open>
  Inside the transaction \<open>w_keys\<close> is the transaction's view.  Commit publishes it; rollback and
  a failed commit go back to the table \<open>t0\<close> the transaction began with, unless the failure
  struck after the server had committed.
\<close>

definition tx_commit :: "key_table \<Rightarrow> world \<Rightarrow> unit result" where
  "tx_commit t0 w =
     (case net_next w of
        (NetOk, w1) \<Rightarrow> (Inr (), w1)
      | (NetErr e applied, w1) \<Rightarrow> (Inl e, if applied then w1 else w1\<lparr>w_keys := t0\<rparr>))"

definition is_serialization_error :: "go_error \<Rightarrow> bool" where
  "is_serialization_error e \<longleftrightarrow> pg_code e = Some ''40001''"

text \<open>The part of the loop body after \<open>fn\<close> or the commit failed with a retryable error.\<close>

definition tx_backoff :: "env \<Rightarrow> nat \<Rightarrow> world \<Rightarrow> world" where
  "tx_backoff E i w =
     (let delay = tx_delay i;
          (j, w1) = rand_Intn E (nat (delay div 10)) w
      in sleep (delay + int j) w1)"

fun tx_loop :: "env \<Rightarrow> nat \<Rightarrow> nat \<Rightarrow> (world \<Rightarrow> 'a result) \<Rightarrow> go_error \<Rightarrow> world \<Rightarrow> 'a result" where
  "tx_loop E i 0 fn err w =
     (Inl (wrapf (''transaction failed after '' @ itoa (int maxRetries) @ '' retries'') err), w)"
| "tx_loop E i (Suc n) fn err w =
     (case net_next w of
        (NetErr e _, w1) \<Rightarrow> (Inl (wrapf ''failed to begin transaction'' e), w1)
      | (NetOk, w1) \<Rightarrow>
          (let t0 = w_keys w1 in
           case fn w1 of
             (Inr result, w2) \<Rightarrow>
               (case tx_commit t0 w2 of
                  (Inr _, w3) \<Rightarrow> (Inr result, w3)
                | (Inl e, w3) \<Rightarrow>
                    if is_serialization_error e
                    then tx_loop E (Suc i) n fn e (tx_backoff E i w3)
                    else (Inl (wrapf ''failed to commit transaction'' e), w3))
           | (Inl e, w2) \<Rightarrow>
               (let w3 = w2\<lparr>w_keys := t0\<rparr>
                in if is_serialization_error e
                   then tx_loop E (Suc i) n fn e (tx_backoff E i w3)
                   else (Inl (wrapf ''transaction failed'' e), w3))))"

definition ExecuteInTransaction :: "env \<Rightarrow> (world \<Rightarrow> 'a result) \<Rightarrow> world \<Rightarrow> 'a result" where
  "ExecuteInTransaction E fn w = tx_loop E 0 maxRetries fn (Plain '''') w"

section \<open>Retry: how often, how long\<close>

lemma retry_loop_sleeps:
  assumes "\<And>w. length (w_slept (snd (fn w))) = length (w_slept w)"
    and "retry_loop E i n ib mb fn res w = (r, w')"
  shows "length (w_slept w') \<le> length (w_slept w) + n"
  using assms(2)
proof (induction n arbitrary: i res w)
  case 0
  then show ?case by simp
next
  case (Suc n)
  obtain r1 w1 where f: "fn w = (r1, w1)" by (cases "fn w")
  then have len: "length (w_slept w1) = length (w_slept w)" using assms(1) [of w] by simp
  show ?case
  proof (cases r1)
    case (Inr x)
    with Suc.prems f len show ?thesis by simp
  next
    case (Inl e)
    with Suc.prems f obtain j d w2 where
      "retry_loop E (Suc i) n ib mb fn (Inl e) (sleep d w2) = (r, w')" "w_slept w2 = w_slept w1"
      by (auto simp: rand_Intn_def next_draw_def)
    from Suc.IH [OF this(1)] this(2) len show ?thesis by (simp add: sleep_def)
  qed
qed

lemma retry_backoff_le: "retry_backoff ib mb i \<le> mb"
  by (simp add: retry_backoff_def Let_def)

text \<open>The outcome of a retried call is that of its last attempt.\<close>

lemma retry_loop_result:
  assumes "retry_loop E i n ib mb fn res w = (r, w')" and "0 < n"
  shows "\<exists>v. fst (fn v) = r"
  using assms
proof (induction n arbitrary: i res w)
  case 0
  then show ?case by simp
next
  case (Suc n)
  obtain r1 w1 where f: "fn w = (r1, w1)" by (cases "fn w")
  show ?case
  proof (cases r1)
    case (Inr x)
    with Suc.prems f show ?thesis by (intro exI [of _ w]) simp
  next
    case (Inl e)
    with Suc.prems f obtain d where
      rest: "retry_loop E (Suc i) n ib mb fn (Inl e) d = (r, w')"
      by (auto simp: rand_Intn_def next_draw_def)
    show ?thesis
    proof (cases n)
      case 0
      with rest f Inl show ?thesis by (intro exI [of _ w]) simp
    next
      case (Suc m)
      with Suc.IH [OF rest] show ?thesis by simp
    qed
  qed
qed

section \<open>Transactions: atomicity\<close>

lemma tx_delay_bounds: "10 * millisecond \<le> tx_delay i \<and> tx_delay i \<le> 250 * millisecond"
proof -
  have "(1::int) \<le> 2 ^ i" by simp
  then have "10 * millisecond \<le> baseDelay * 2 ^ i"
    by (simp add: baseDelay_def millisecond_def)
  then show ?thesis
    by (simp add: tx_delay_def Let_def maxDelay_def millisecond_def)
qed

text \<open>The jitter's bound is positive, so \<^verbatim>\<open>rand.Intn\<close> does not panic.\<close>

lemma tx_jitter_positive: "0 < nat (tx_delay i div 10)"
  using tx_delay_bounds [of i] by (simp add: millisecond_def pos_imp_zdiv_pos_iff)

lemma tx_backoff_frame:
  "tx_backoff E i w = w\<lparr>w_draws := Suc (w_draws w), w_slept := w_slept (tx_backoff E i w)\<rparr>"
  by (simp add: tx_backoff_def rand_Intn_def next_draw_def sleep_def Let_def)

lemma tx_backoff_sleep:
  "\<exists>d. w_slept (tx_backoff E i w) = d # w_slept w \<and> 10 * millisecond \<le> d \<and> d < 275 * millisecond"
proof -
  let ?j = "e_intn E (w_draws w) mod nat (tx_delay i div 10)"
  have "?j < nat (tx_delay i div 10)" using tx_jitter_positive by simp
  then have "int ?j < tx_delay i div 10" by linarith
  moreover have "tx_delay i div 10 \<le> 25 * millisecond"
    using tx_delay_bounds [of i] zdiv_mono1 [of "tx_delay i" "250 * millisecond" 10]
    by (simp add: millisecond_def)
  ultimately have "tx_delay i + int ?j < 275 * millisecond"
    using tx_delay_bounds [of i] by linarith
  moreover have "w_slept (tx_backoff E i w) = (tx_delay i + int ?j) # w_slept w"
    by (simp add: tx_backoff_def rand_Intn_def next_draw_def sleep_def Let_def)
  ultimately show ?thesis using tx_delay_bounds [of i] by (metis add_increasing2 of_nat_0_le_iff)
qed

lemma tx_backoff_keys [simp]:
  "w_keys (tx_backoff E i w) = w_keys w" "w_net (tx_backoff E i w) = w_net w"
  "w_heap (tx_backoff E i w) = w_heap w" "w_cache (tx_backoff E i w) = w_cache w"
  "w_index (tx_backoff E i w) = w_index w" "w_now (tx_backoff E i w) = w_now w"
  "w_dbnow (tx_backoff E i w) = w_dbnow w" "w_locks (tx_backoff E i w) = w_locks w"
  by (subst tx_backoff_frame, simp)+

text \<open>
  A transaction either ran \<open>fn\<close> to a successful commit of its table, or left the table as it
  was, whatever failed on the way (commits that fail after taking effect apart).
\<close>

lemma tx_backoff_clean [simp]: "net_clean (tx_backoff E i w) = net_clean w"
  by (rule net_clean_cong) simp

lemma tx_commit_spec:
  assumes "net_clean w" and "tx_commit t0 w = (rc, w')"
  shows "net_clean w' \<and> w_keys w' = (if is_ok rc then w_keys w else t0)"
  using assms
  by (cases "w_net w") (auto simp: tx_commit_def net_next_def net_clean_def split: net.splits)

text \<open>
  The outcome of the loop: the table of a successful attempt, or the table \<open>t\<close> it found.  \<open>Q\<close> is
  a frame condition that the attempts and the bookkeeping of the loop keep.
\<close>

definition tx_outcome ::
  "(world \<Rightarrow> bool) \<Rightarrow> (world \<Rightarrow> 'a result) \<Rightarrow> key_table \<Rightarrow> 'a result \<Rightarrow> bool" where
  "tx_outcome Q fn t r \<longleftrightarrow> net_clean (snd r) \<and> Q (snd r) \<and>
     (\<forall>e. fst r = Inl e \<longrightarrow> w_keys (snd r) = t) \<and>
     (\<forall>x. fst r = Inr x \<longrightarrow>
        (\<exists>v v'. Q v \<and> w_keys v = t \<and> fn v = (Inr x, v') \<and> w_keys (snd r) = w_keys v'))"

definition tx_frame :: "(world \<Rightarrow> bool) \<Rightarrow> bool" where
  "tx_frame Q \<longleftrightarrow> (\<forall>w n t d s. Q w \<longrightarrow> Q (w\<lparr>w_net := n, w_keys := t, w_draws := d, w_slept := s\<rparr>))"

lemma tx_frameD:
  assumes "tx_frame Q" and "Q w"
  shows "Q (w\<lparr>w_net := n\<rparr>)" and "Q (w\<lparr>w_keys := t\<rparr>)" and "Q (w\<lparr>w_net := n, w_keys := t\<rparr>)"
    and "Q (tx_backoff E i w)"
proof -
  have upd: "Q (w\<lparr>w_net := n, w_keys := t, w_draws := d, w_slept := s\<rparr>)" for n t d s
    using assms by (simp add: tx_frame_def)
  show "Q (w\<lparr>w_net := n\<rparr>)" using upd [where n = n and t = "w_keys w" and d = "w_draws w" and s = "w_slept w"] by simp
  show "Q (w\<lparr>w_keys := t\<rparr>)" using upd [where n = "w_net w" and t = t and d = "w_draws w" and s = "w_slept w"] by simp
  show "Q (w\<lparr>w_net := n, w_keys := t\<rparr>)" using upd [where n = n and t = t and d = "w_draws w" and s = "w_slept w"] by simp
  show "Q (tx_backoff E i w)"
    using upd [where n = "w_net w" and t = "w_keys w" and d = "Suc (w_draws w)"
        and s = "w_slept (tx_backoff E i w)"]
    by (subst tx_backoff_frame) simp
qed

lemma tx_commit_frame: "tx_frame Q \<Longrightarrow> Q w \<Longrightarrow> tx_commit t0 w = (rc, w') \<Longrightarrow> Q w'"
  by (auto simp: tx_commit_def net_next_def split: net.splits if_splits intro: tx_frameD)

lemma tx_outcome_Inl: "net_clean w \<Longrightarrow> Q w \<Longrightarrow> w_keys w = t \<Longrightarrow> tx_outcome Q fn t (Inl e, w)"
  by (simp add: tx_outcome_def)

lemma tx_loop_atomic:
  assumes clean: "\<And>w. net_clean w \<Longrightarrow> net_clean (snd (fn w))"
    and frame: "tx_frame Q" and keep: "\<And>w. Q w \<Longrightarrow> Q (snd (fn w))"
  shows "net_clean w \<Longrightarrow> Q w \<Longrightarrow> tx_outcome Q fn (w_keys w) (tx_loop E i n fn err w)"
proof (induction n arbitrary: i err w)
  case 0
  then show ?case by (simp add: tx_outcome_Inl)
next
  case (Suc n)
  obtain nt w1 where nx: "net_next w = (nt, w1)" by (cases "net_next w")
  have w1: "net_clean w1" "w_keys w1 = w_keys w" "Q w1"
    using nx Suc.prems net_clean_tl [of w w] tx_frameD [OF frame] by (auto simp: net_next_def)
  obtain rf w2 where f: "fn w1 = (rf, w2)" by (cases "fn w1")
  have w2: "net_clean w2" "Q w2" using clean [OF w1(1)] keep [OF w1(3)] f by auto
  obtain rc w3 where c: "tx_commit (w_keys w1) w2 = (rc, w3)" by (cases "tx_commit (w_keys w1) w2")
  note w3 = tx_commit_spec [OF w2(1) c] tx_commit_frame [OF frame w2(2) c]
  have again: "tx_outcome Q fn (w_keys w) (tx_loop E (Suc i) n fn e (tx_backoff E i v))"
    if "net_clean v" "Q v" "w_keys v = w_keys w" for e v
    using Suc.IH [of "tx_backoff E i v" "Suc i" e] that tx_frameD(4) [OF frame] by simp
  have undone: "net_clean (w2\<lparr>w_keys := w_keys w1\<rparr>)" "Q (w2\<lparr>w_keys := w_keys w1\<rparr>)"
    using w2 tx_frameD(2) [OF frame] by (simp_all add: net_clean_def)
  consider e a where "nt = NetErr e a" | e where "nt = NetOk" "rf = Inl e"
    | x e where "nt = NetOk" "rf = Inr x" "rc = Inl e" | x u where "nt = NetOk" "rf = Inr x" "rc = Inr u"
    by (cases nt; cases rf; cases rc) auto
  then show ?case
  proof cases
    case 1
    then show ?thesis using nx w1 by (simp add: tx_outcome_Inl)
  next
    case 2
    then show ?thesis using nx f w1 undone by (auto simp: Let_def intro!: tx_outcome_Inl again)
  next
    case 3
    then show ?thesis using nx f c w1 w3 by (auto simp: Let_def intro!: tx_outcome_Inl again)
  next
    case 4
    then show ?thesis using nx f c w1 w3 by (auto simp: Let_def tx_outcome_def)
  qed
qed

end
