(* ===== verification/PSQLAdapter.thy ===== *)
theory PSQLAdapter
  imports Retry
begin

text \<open>
  The PostgreSQL repository (\<^verbatim>\<open>internal/infra/persistence/psql_adapter.go\<close>), method by method,
  over the statements of \<open>KeyTable\<close>, and the interface \<open>key_repository\<close> that the decorators
  and the service rely on.
\<close>

section \<open>Advisory locks\<close>

text \<open>FNV-1a on 64 bits (\<^verbatim>\<open>hash/fnv\<close>), read as a signed integer.\<close>

fun fnv64a :: "64 word \<Rightarrow> string \<Rightarrow> 64 word" where
  "fnv64a h [] = h"
| "fnv64a h (c # cs) = fnv64a (xor h (of_nat (of_char c)) * 1099511628211) cs"

definition GetLockID :: "uuid_lib \<Rightarrow> key_id \<Rightarrow> int" where
  "GetLockID L i = sint (fnv64a 14695981039346656037 (KeyID_String L i))"

definition TryAcquireLock :: "int \<Rightarrow> world \<Rightarrow> bool result" where
  "TryAcquireLock lockID w =
     (case db_query (\<lambda>_. Inr (lockID \<notin> set (w_locks w))) w of
        (Inl e, w1) \<Rightarrow> (Inl (wrapf ''failed to acquire advisory lock'' e), w1)
      | (Inr locked, w1) \<Rightarrow> (Inr locked, w1))"

section \<open>Reading rows\<close>

text \<open>\<^verbatim>\<open>QueryRow\<close> followed by a scan; a missing row is \<^verbatim>\<open>pgx.ErrNoRows\<close>.\<close>

definition one_row :: "key_row option \<Rightarrow> go_error + key_row" where
  "one_row r = (case r of None \<Rightarrow> Inl (Sentinel PgxErrNoRows) | Some x \<Rightarrow> Inr x)"

definition query_key :: "(key_table \<Rightarrow> key_row option) \<Rightarrow> world \<Rightarrow> key result" where
  "query_key q w =
     (case db_query (\<lambda>t. one_row (q t)) w of
        (Inl e, w1) \<Rightarrow> (Inl (wrapf ''failed to scan key row'' e), w1)
      | (Inr r, w1) \<Rightarrow> (ScanKeyRow r, w1))"

text \<open>
  \<^verbatim>\<open>Query\<close> and the iteration over its rows: either can fail.  Rows that do not scan are
  skipped.
\<close>

definition query_rows ::
  "string \<Rightarrow> string \<Rightarrow> (key_table \<Rightarrow> go_error + key_row list) \<Rightarrow> world \<Rightarrow> key_row list result" where
  "query_rows on_query on_rows q w =
     (case db_query q w of
        (Inl e, w1) \<Rightarrow> (Inl (wrapf on_query e), w1)
      | (Inr rows, w1) \<Rightarrow>
          (case net_next w1 of
             (NetErr e _, w2) \<Rightarrow> (Inl (wrapf on_rows e), w2)
           | (NetOk, w2) \<Rightarrow> (Inr rows, w2)))"

definition scan_all :: "(key_row \<Rightarrow> go_error + 'a) \<Rightarrow> key_row list \<Rightarrow> 'a list" where
  "scan_all scan rows = concat (map (\<lambda>r. case scan r of Inl _ \<Rightarrow> [] | Inr k \<Rightarrow> [k]) rows)"

section \<open>The adapter\<close>

definition psql_GetKey :: "env \<Rightarrow> key_id \<Rightarrow> world \<Rightarrow> nat result" where
  "psql_GetKey E i w =
     (case query_key (sql_latest i) w of
        (Inl err, w1) \<Rightarrow>
          if errors_is err PgxErrNoRows then (Inl (Sentinel PgErrKeyNotFound), w1)
          else (Inl (wrapf (''failed to get key '' @ KeyID_String (e_uuid E) i) err), w1)
      | (Inr k, w1) \<Rightarrow> (let (p, w2) = heap_alloc (k\<lparr>k_ID := i\<rparr>) w1 in (Inr p, w2)))"

definition psql_GetKeyByVersion :: "env \<Rightarrow> key_id \<Rightarrow> int \<Rightarrow> world \<Rightarrow> nat result" where
  "psql_GetKeyByVersion E i version w =
     (if version \<le> 0 then (Inl (Sentinel PgErrInvalidVersion), w)
      else case query_key (sql_by_version i version) w of
        (Inl err, w1) \<Rightarrow>
          if errors_is err PgxErrNoRows then (Inl (Sentinel PgErrKeyNotFound), w1)
          else (Inl (wrapf (''failed to get key '' @ KeyID_String (e_uuid E) i @ '' version ''
                      @ itoa version) err), w1)
      | (Inr k, w1) \<Rightarrow>
          (let (p, w2) = heap_alloc (k\<lparr>k_ID := i, k_Version := version\<rparr>) w1 in (Inr p, w2)))"

text \<open>The common part of the two metadata lookups.\<close>

definition query_metadata ::
  "string \<Rightarrow> (key_table \<Rightarrow> key_row option) \<Rightarrow> world \<Rightarrow> key_metadata option result" where
  "query_metadata what q w =
     (case db_query (\<lambda>t. one_row (q t)) w of
        (Inl err, w1) \<Rightarrow>
          if errors_is err PgxErrNoRows then (Inl (Sentinel PgErrKeyNotFound), w1)
          else (Inl (wrapf (''failed to get key metadata for '' @ what) err), w1)
      | (Inr r, w1) \<Rightarrow>
          (case unmarshal_struct (r_metadata r) of
             Inl err \<Rightarrow> (Inl (wrapf ''failed to unmarshal metadata'' err), w1)
           | Inr m \<Rightarrow> (Inr (Some m), w1)))"

definition psql_GetKeyMetadata :: "env \<Rightarrow> key_id \<Rightarrow> world \<Rightarrow> key_metadata option result" where
  "psql_GetKeyMetadata E i w = query_metadata (KeyID_String (e_uuid E) i) (sql_latest i) w"

definition psql_GetKeyMetadataByVersion ::
  "env \<Rightarrow> key_id \<Rightarrow> int \<Rightarrow> world \<Rightarrow> key_metadata option result" where
  "psql_GetKeyMetadataByVersion E i version w =
     (if version \<le> 0 then (Inl (Sentinel PgErrInvalidVersion), w)
      else query_metadata (KeyID_String (e_uuid E) i @ '' version '' @ itoa version)
             (sql_by_version i version) w)"

text \<open>The row that \<^verbatim>\<open>CreateKey\<close> and \<^verbatim>\<open>CreateBatchKeys\<close> copy for a key.\<close>

definition key_to_row :: "key \<Rightarrow> key_row" where
  "key_to_row k =
     \<lparr>r_id = k_ID k, r_version = k_Version k, r_metadata = marshal_metadata (k_Metadata k),
      r_encrypted_dek = k_EncryptedDEK k, r_status = k_Status k,
      r_storage_type = getStorageTypeOptimized (GetStorageType (k_Metadata k)),
      r_created_at = timestamptz (k_CreatedAt k), r_updated_at = timestamptz (k_UpdatedAt k),
      r_revoked_at = None\<rparr>"

definition copy_rows :: "string \<Rightarrow> key_row list \<Rightarrow> world \<Rightarrow> unit result" where
  "copy_rows on_error rows w =
     (case db_exec (\<lambda>t. case sql_copy rows t of Inl e \<Rightarrow> Inl e | Inr t' \<Rightarrow> Inr (t', ())) w of
        (Inr u, w1) \<Rightarrow> (Inr u, w1)
      | (Inl e, w1) \<Rightarrow>
          if pg_code e = Some ''23505'' then (Inl (Sentinel PgErrKeyAlreadyExists), w1)
          else (Inl (wrapf on_error e), w1))"

definition psql_CreateKey :: "env \<Rightarrow> key option \<Rightarrow> world \<Rightarrow> unit result" where
  "psql_CreateKey E ko w =
     (case ko of
        None \<Rightarrow> (Inl (Plain ''key cannot be nil''), w)
      | Some k \<Rightarrow>
          if k_Metadata k = None then (Inl (Plain ''key metadata cannot be nil''), w)
          else if k_EncryptedDEK k = [] then (Inl (Plain ''encrypted DEK cannot be empty''), w)
          else copy_rows (''failed to create key '' @ KeyID_String (e_uuid E) (k_ID k))
                 [key_to_row k] w)"

definition psql_CreateBatchKeys :: "env \<Rightarrow> key list \<Rightarrow> world \<Rightarrow> unit result" where
  "psql_CreateBatchKeys E ks w =
     (if ks = [] then (Inr (), w)
      else copy_rows ''failed to create keys in batch'' (map key_to_row ks) w)"

definition psql_ListKeys :: "env \<Rightarrow> time option \<Rightarrow> int \<Rightarrow> world \<Rightarrow> key list result" where
  "psql_ListKeys E lastCreatedAt limit w =
     (case query_rows ''failed to query keys'' ''error iterating over rows''
             (sql_list lastCreatedAt limit) w of
        (Inl e, w1) \<Rightarrow> (Inl e, w1)
      | (Inr rows, w1) \<Rightarrow> (Inr (scan_all (ScanKeyRowWithID (e_uuid E)) rows), w1))"

definition psql_UpdateKeyMetadata ::
  "env \<Rightarrow> key_id \<Rightarrow> key_metadata option \<Rightarrow> world \<Rightarrow> unit result" where
  "psql_UpdateKeyMetadata E i md w =
     (if md = None then (Inl (Plain ''metadata cannot be nil''), w)
      else case db_exec (\<lambda>t. Inr (sql_update_metadata (marshal_metadata md) (w_now w) i t)) w of
        (Inl e, w1) \<Rightarrow>
          (Inl (wrapf (''failed to update key metadata '' @ KeyID_String (e_uuid E) i) e), w1)
      | (Inr affected, w1) \<Rightarrow>
          if affected = 0 then (Inl (Sentinel PgErrKeyNotFound), w1) else (Inr (), w1))"

definition rotateKeyInTx :: "env \<Rightarrow> key_id \<Rightarrow> bytes \<Rightarrow> world \<Rightarrow> key result" where
  "rotateKeyInTx E i dek w =
     (case TryAcquireLock (GetLockID (e_uuid E) i) w of
        (Inl err, w1) \<Rightarrow> (Inl err, w1)
      | (Inr locked, w1) \<Rightarrow>
          if \<not> locked then (Inl (Sentinel ErrKeyRotationLocked), w1)
          else
            (let on_err = (\<lambda>err.
                   if errors_is err PgxErrNoRows then Sentinel PgErrKeyNotFound
                   else wrapf (''failed to rotate key '' @ KeyID_String (e_uuid E) i) err)
             in case db_exec (\<lambda>t. sql_rotate KeyStatusRotated i dek KeyStatusActive (w_dbnow w1) t) w1 of
                  (Inl e, w2) \<Rightarrow> (Inl (on_err (wrapf ''failed to scan key row'' e)), w2)
                | (Inr None, w2) \<Rightarrow>
                    (Inl (on_err (wrapf ''failed to scan key row'' (Sentinel PgxErrNoRows))), w2)
                | (Inr (Some r), w2) \<Rightarrow>
                    (case ScanKeyRowWithID (e_uuid E) r of
                       Inl e \<Rightarrow> (Inl (on_err e), w2)
                     | Inr k \<Rightarrow> (Inr k, w2))))"

definition psql_RotateKey :: "env \<Rightarrow> key_id \<Rightarrow> bytes \<Rightarrow> world \<Rightarrow> key result" where
  "psql_RotateKey E i dek w =
     (if dek = [] then (Inl (Plain ''new encrypted DEK cannot be empty''), w)
      else ExecuteInTransaction E (rotateKeyInTx E i dek) w)"

definition psql_RevokeKey :: "env \<Rightarrow> key_id \<Rightarrow> world \<Rightarrow> unit result" where
  "psql_RevokeKey E i w =
     (case db_exec (\<lambda>t. Inr (sql_revoke KeyStatusRevoked (w_now w) i t)) w of
        (Inl e, w1) \<Rightarrow> (Inl (wrapf (''failed to revoke key '' @ KeyID_String (e_uuid E) i) e), w1)
      | (Inr affected, w1) \<Rightarrow>
          if affected = 0 then (Inl (Sentinel PgErrKeyNotFound), w1) else (Inr (), w1))"

definition psql_GetKeyVersions :: "env \<Rightarrow> key_id \<Rightarrow> world \<Rightarrow> key list result" where
  "psql_GetKeyVersions E i w =
     (case query_rows ''failed to query key versions'' ''error iterating over key versions''
             (\<lambda>t. Inr (sql_versions i t)) w of
        (Inl e, w1) \<Rightarrow> (Inl e, w1)
      | (Inr rows, w1) \<Rightarrow> (Inr (map (\<lambda>k. k\<lparr>k_ID := i\<rparr>) (scan_all ScanKeyRow rows)), w1))"

definition psql_Exists :: "env \<Rightarrow> key_id \<Rightarrow> world \<Rightarrow> bool result" where
  "psql_Exists E i w =
     (case db_query (\<lambda>t. Inr (sql_exists i t)) w of
        (Inl e, w1) \<Rightarrow>
          (Inl (wrapf (''failed to check key existence '' @ KeyID_String (e_uuid E) i) e), w1)
      | (Inr b, w1) \<Rightarrow> (Inr b, w1))"

text \<open>The batch reads return a nil slice, without a round trip, for no ids.\<close>

definition psql_GetBatchKeys :: "env \<Rightarrow> key_id list \<Rightarrow> world \<Rightarrow> key list result" where
  "psql_GetBatchKeys E ids w =
     (if ids = [] then (Inr [], w)
      else case query_rows ''failed to get batch keys'' ''error iterating over batch key rows''
             (\<lambda>t. Inr (sql_batch ids t)) w of
        (Inl e, w1) \<Rightarrow> (Inl e, w1)
      | (Inr rows, w1) \<Rightarrow> (Inr (scan_all (ScanKeyRowWithID (e_uuid E)) rows), w1))"

definition psql_GetBatchKeyMetadata :: "env \<Rightarrow> key_id list \<Rightarrow> world \<Rightarrow> key_metadata list result" where
  "psql_GetBatchKeyMetadata E ids w =
     (if ids = [] then (Inr [], w)
      else case query_rows ''failed to get batch key metadata''
             ''error iterating over batch key metadata rows'' (\<lambda>t. Inr (sql_batch ids t)) w of
        (Inl e, w1) \<Rightarrow> (Inl e, w1)
      | (Inr rows, w1) \<Rightarrow> (Inr (scan_all (\<lambda>r. unmarshal_struct (r_metadata r)) rows), w1))"

definition psql_RevokeBatchKeys :: "env \<Rightarrow> key_id list \<Rightarrow> world \<Rightarrow> unit result" where
  "psql_RevokeBatchKeys E ids w =
     (if ids = [] then (Inr (), w)
      else case db_exec (\<lambda>t. Inr (sql_revoke_batch KeyStatusRevoked (w_now w) ids t)) w of
        (Inl e, w1) \<Rightarrow> (Inl (wrapf ''failed to revoke batch keys'' e), w1)
      | (Inr affected, w1) \<Rightarrow> (Inr (), w1))"

text \<open>
  \<^verbatim>\<open>SendBatch\<close> sends the queued statements in one implicit transaction; how many rows each
  affected is not looked at.
\<close>

definition psql_UpdateBatchKeyMetadata :: "env \<Rightarrow> nat list \<Rightarrow> world \<Rightarrow> unit result" where
  "psql_UpdateBatchKeyMetadata E ps w =
     (let ups = map (deref w) ps
      in if ups = [] then (Inr (), w)
         else if list_ex (\<lambda>k. k_Metadata k = None) ups
         then (Inl (Plain ''key metadata cannot be nil for batch update''), w)
         else case db_exec (\<lambda>t. Inr (foldl (\<lambda>t k. fst (sql_update_metadata
                       (marshal_metadata (k_Metadata k)) (w_now w) (k_ID k) t)) t ups, ())) w of
                (Inl e, w1) \<Rightarrow> (Inl (wrapf ''failed to update key metadata in batch'' e), w1)
              | (Inr u, w1) \<Rightarrow> (Inr u, w1))"

definition NewPSQLAdapter :: "env \<Rightarrow> key_repo" where
  "NewPSQLAdapter E =
     \<lparr>repo_GetKey = psql_GetKey E, repo_GetKeyByVersion = psql_GetKeyByVersion E,
      repo_GetKeyMetadata = psql_GetKeyMetadata E,
      repo_GetKeyMetadataByVersion = psql_GetKeyMetadataByVersion E,
      repo_CreateKey = psql_CreateKey E, repo_CreateBatchKeys = psql_CreateBatchKeys E,
      repo_ListKeys = psql_ListKeys E, repo_UpdateKeyMetadata = psql_UpdateKeyMetadata E,
      repo_RotateKey = psql_RotateKey E, repo_RevokeKey = psql_RevokeKey E,
      repo_GetKeyVersions = psql_GetKeyVersions E, repo_Exists = psql_Exists E,
      repo_GetBatchKeys = psql_GetBatchKeys E,
      repo_GetBatchKeyMetadata = psql_GetBatchKeyMetadata E,
      repo_RevokeBatchKeys = psql_RevokeBatchKeys E,
      repo_UpdateBatchKeyMetadata = psql_UpdateBatchKeyMetadata E\<rparr>"

end
