(* ===== verification/Repository.thy ===== *)
theory Repository
  imports PSQLAdapter
begin

text \<open>
  The contract of \<^verbatim>\<open>domain.KeyRepository\<close>: what the callers of a repository rely on, stated
  against the table of keys.  A read returns what the table holds, a successful write is the
  statement's effect on the table, and no operation breaks the repository's own invariant.  The
  PostgreSQL adapter is shown to meet it here; the cache and the breaker, which wrap another
  repository, in their own theories.
\<close>

section \<open>Contract\<close>

text \<open>What no repository operation touches; heap objects are only added.\<close>

definition keeps :: "world \<Rightarrow> world \<Rightarrow> bool" where
  "keeps w w' \<longleftrightarrow>
     w_now w' = w_now w \<and> w_dbnow w' = w_dbnow w \<and> w_audit w' = w_audit w \<and>
     w_deks w' = w_deks w \<and> w_dkc w' = w_dkc w \<and> w_locks w' = w_locks w \<and>
     (\<exists>h. w_heap w' = w_heap w @ h)"

lemma keeps_refl [simp]: "keeps w w"
  by (simp add: keeps_def)

lemma keeps_trans: "keeps w w' \<Longrightarrow> keeps w' w'' \<Longrightarrow> keeps w w''"
  by (auto simp: keeps_def)

lemma keeps_deref: "keeps w w' \<Longrightarrow> p < length (w_heap w) \<Longrightarrow> p < length (w_heap w') \<and> deref w' p = deref w p"
  by (auto simp: keeps_def deref_def nth_append)

text \<open>The effect a write has on the table; \<open>None\<close> where the statement is refused.\<close>

definition revoke_effect :: "time \<Rightarrow> key_id \<Rightarrow> key_table \<Rightarrow> key_table" where
  "revoke_effect now i t = fst (sql_revoke KeyStatusRevoked now i t)"

definition update_effect :: "time \<Rightarrow> key_id \<Rightarrow> key_metadata \<Rightarrow> key_table \<Rightarrow> key_table" where
  "update_effect now i m t = fst (sql_update_metadata (JMeta m) now i t)"

definition rotate_effect ::
  "time \<Rightarrow> key_id \<Rightarrow> bytes \<Rightarrow> key_table \<Rightarrow> (key_table \<times> key_row) option" where
  "rotate_effect dbnow i dek t =
     (case sql_rotate KeyStatusRotated i dek KeyStatusActive dbnow t of
        Inr (t', Some new) \<Rightarrow> Some (t', new) | _ \<Rightarrow> None)"

definition create_effect :: "key list \<Rightarrow> key_table \<Rightarrow> key_table" where
  "create_effect ks t = t @ map key_to_row ks"

text \<open>New metadata is for the version the table holds.\<close>

definition for_latest :: "key_id \<Rightarrow> key_metadata \<Rightarrow> key_table \<Rightarrow> bool" where
  "for_latest i m t \<longleftrightarrow> (\<forall>r. sql_latest i t = Some r \<longrightarrow> m_Version m = r_version r)"

locale key_repository =
  fixes R :: key_repo and inv :: "world \<Rightarrow> bool"
  assumes inv_table: "inv w \<Longrightarrow> table_ok (w_keys w)"
    and get_frame: "inv w \<Longrightarrow> repo_GetKey R i w = (res, w') \<Longrightarrow> inv w' \<and> keeps w w' \<and> w_keys w' = w_keys w"
    and get_reads: "inv w \<Longrightarrow> repo_GetKey R i w = (Inr p, w') \<Longrightarrow>
      p < length (w_heap w') \<and> (\<exists>r. sql_latest i (w_keys w) = Some r \<and> row_key r = Some (deref w' p))"
    and version_frame: "inv w \<Longrightarrow> repo_GetKeyByVersion R i v w = (res, w') \<Longrightarrow>
      inv w' \<and> keeps w w' \<and> w_keys w' = w_keys w"
    and version_reads: "inv w \<Longrightarrow> repo_GetKeyByVersion R i v w = (Inr p, w') \<Longrightarrow> v \<noteq> 0 \<Longrightarrow>
      p < length (w_heap w') \<and> (\<exists>r. sql_by_version i v (w_keys w) = Some r \<and> row_key r = Some (deref w' p))"
    and metadata_frame: "inv w \<Longrightarrow> repo_GetKeyMetadata R i w = (resm, w') \<Longrightarrow>
      inv w' \<and> keeps w w' \<and> w_keys w' = w_keys w"
    and metadata_reads: "inv w \<Longrightarrow> repo_GetKeyMetadata R i w = (Inr md, w') \<Longrightarrow>
      \<exists>r m. sql_latest i (w_keys w) = Some r \<and> r_metadata r = JMeta m \<and> md = Some m"
    and list_frame: "inv w \<Longrightarrow> repo_ListKeys R c n w = (resl, w') \<Longrightarrow>
      inv w' \<and> keeps w w' \<and> w_keys w' = w_keys w"
    and list_reads: "inv w \<Longrightarrow> repo_ListKeys R c n w = (Inr ks, w') \<Longrightarrow>
      \<exists>rows. sql_list c n (w_keys w) = Inr rows \<and> map Some ks = map row_key rows"
    and create_keeps: "inv w \<Longrightarrow> repo_CreateKey R (Some k) w = (resu, w') \<Longrightarrow> row_ok (key_to_row k) \<Longrightarrow>
      inv w' \<and> keeps w w' \<and> w_keys w' \<in> {w_keys w, create_effect [k] (w_keys w)}"
    and create_done: "inv w \<Longrightarrow> repo_CreateKey R (Some k) w = (Inr u, w') \<Longrightarrow> row_ok (key_to_row k) \<Longrightarrow>
      w_keys w' = create_effect [k] (w_keys w)"
    and update_keeps: "inv w \<Longrightarrow> repo_UpdateKeyMetadata R i (Some m) w = (resu, w') \<Longrightarrow>
      for_latest i m (w_keys w) \<Longrightarrow>
      inv w' \<and> keeps w w' \<and> w_keys w' \<in> {w_keys w, update_effect (w_now w) i m (w_keys w)}"
    and update_done: "inv w \<Longrightarrow> repo_UpdateKeyMetadata R i (Some m) w = (Inr u, w') \<Longrightarrow>
      for_latest i m (w_keys w) \<Longrightarrow>
      w_keys w' = update_effect (w_now w) i m (w_keys w) \<and> sql_latest i (w_keys w) \<noteq> None"
    and rotate_keeps: "inv w \<Longrightarrow> repo_RotateKey R i dek w = (resk, w') \<Longrightarrow>
      inv w' \<and> keeps w w' \<and> (w_keys w' = w_keys w \<or>
        (\<exists>new. rotate_effect (w_dbnow w) i dek (w_keys w) = Some (w_keys w', new)))"
    and rotate_done: "inv w \<Longrightarrow> repo_RotateKey R i dek w = (Inr k, w') \<Longrightarrow>
      \<exists>new. rotate_effect (w_dbnow w) i dek (w_keys w) = Some (w_keys w', new) \<and> row_key new = Some k"
    and revoke_keeps: "inv w \<Longrightarrow> repo_RevokeKey R i w = (resu, w') \<Longrightarrow>
      inv w' \<and> keeps w w' \<and> w_keys w' \<in> {w_keys w, revoke_effect (w_now w) i (w_keys w)}"
    and revoke_done: "inv w \<Longrightarrow> repo_RevokeKey R i w = (Inr u, w') \<Longrightarrow>
      w_keys w' = revoke_effect (w_now w) i (w_keys w) \<and> sql_latest i (w_keys w) \<noteq> None"
begin

text \<open>Once a key is revoked, every version of it that the repository returns is revoked.\<close>

lemma revoke_then_get:
  assumes "inv w" "repo_RevokeKey R i w = (Inr u, w1)" "repo_GetKey R i w1 = (Inr p, w2)"
  shows "k_Status (deref w2 p) = KeyStatusRevoked"
proof -
  have w1: "inv w1" "w_keys w1 = revoke_effect (w_now w) i (w_keys w)"
    using assms revoke_keeps revoke_done by blast+
  obtain r where r: "sql_latest i (w_keys w1) = Some r" "row_key r = Some (deref w2 p)"
    using get_reads [OF w1(1) assms(3)] by blast
  then have "r_status r = KeyStatusRevoked"
    using w1(2) by (auto simp: revoke_effect_def sql_revoke_latest)
  then show ?thesis using row_key_fields [OF r(2)] by simp
qed

lemma revoke_then_get_version:
  assumes "inv w" "repo_RevokeKey R i w = (Inr u, w1)"
    "repo_GetKeyByVersion R i v w1 = (Inr p, w2)" "v \<noteq> 0"
  shows "k_Status (deref w2 p) = KeyStatusRevoked"
proof -
  have w1: "inv w1" "w_keys w1 = revoke_effect (w_now w) i (w_keys w)"
    using assms revoke_keeps revoke_done by blast+
  obtain r where r: "sql_by_version i v (w_keys w1) = Some r" "row_key r = Some (deref w2 p)"
    using version_reads [OF w1(1) assms(3,4)] by blast
  then have "r_status r = KeyStatusRevoked"
    using w1(2) by (auto simp: revoke_effect_def sql_revoke_by_version)
  then show ?thesis using row_key_fields [OF r(2)] by simp
qed

text \<open>A rotation is read back: the latest version is the one it returned.\<close>

lemma rotate_then_get:
  assumes "inv w" "repo_RotateKey R i dek w = (Inr k, w1)" "repo_GetKey R i w1 = (Inr p, w2)"
  shows "deref w2 p = k"
proof -
  have w1: "inv w1" using assms rotate_keeps by blast
  obtain new where new: "rotate_effect (w_dbnow w) i dek (w_keys w) = Some (w_keys w1, new)"
    "row_key new = Some k"
    using rotate_done [OF assms(1,2)] by blast
  have "sql_latest i (w_keys w1) = Some new"
    using new(1) sql_rotate_latest(1) [OF inv_table [OF assms(1)]]
    by (auto simp: rotate_effect_def split: sum.splits prod.splits option.splits)
  moreover obtain r where "sql_latest i (w_keys w1) = Some r" "row_key r = Some (deref w2 p)"
    using get_reads [OF w1 assms(3)] by blast
  ultimately show ?thesis using new(2) by simp
qed

text \<open>A version never changes hands: other keys read the same before and after a write.\<close>

lemma rotate_other_keys:
  assumes "inv w" "repo_RotateKey R i dek w = (res, w1)" "j \<noteq> i"
  shows "sql_latest j (w_keys w1) = sql_latest j (w_keys w)"
proof -
  consider "w_keys w1 = w_keys w"
    | new where "rotate_effect (w_dbnow w) i dek (w_keys w) = Some (w_keys w1, new)"
    using rotate_keeps [OF assms(1,2)] by blast
  then show ?thesis
  proof cases
    case 2
    then show ?thesis
      using sql_rotate_latest(2) [OF inv_table [OF assms(1)]] assms(3)
      by (auto simp: rotate_effect_def split: sum.splits prod.splits option.splits)
  qed simp
qed

end

section \<open>The adapter meets the contract\<close>

text \<open>The adapter leaves the state of the decorators around it alone.\<close>

definition bare_keeps :: "world \<Rightarrow> world \<Rightarrow> bool" where
  "bare_keeps w w' \<longleftrightarrow> keeps w w' \<and> w_cache w' = w_cache w \<and> w_index w' = w_index w \<and>
     w_brk w' = w_brk w \<and> w_races w' = w_races w"

lemma bare_keepsD: "bare_keeps w w' \<Longrightarrow> keeps w w'"
  by (simp add: bare_keeps_def)

definition psql_inv :: "env \<Rightarrow> world \<Rightarrow> bool" where
  "psql_inv E w \<longleftrightarrow> uuid_lib_ok (e_uuid E) \<and> table_ok (w_keys w) \<and> net_clean w"

lemma psql_inv_net: "psql_inv E w \<Longrightarrow> psql_inv E (w\<lparr>w_net := tl (w_net w)\<rparr>)"
  by (simp add: psql_inv_def net_clean_tl)

lemma psql_inv_cong:
  "w_keys w' = w_keys w \<Longrightarrow> w_net w' = w_net w \<Longrightarrow> psql_inv E w' = psql_inv E w"
  by (simp add: psql_inv_def net_clean_def)

lemma query_key_spec:
  assumes "query_key q w = (res, w')"
  shows "w' = w\<lparr>w_net := tl (w_net w)\<rparr>"
    and "res = Inr k \<Longrightarrow> \<exists>r. q (w_keys w) = Some r \<and> ScanKeyRow r = Inr k"
proof -
  obtain r w1 where db: "db_query (\<lambda>t. one_row (q t)) w = (r, w1)" by (cases "db_query (\<lambda>t. one_row (q t)) w")
  have w1: "w1 = w\<lparr>w_net := tl (w_net w)\<rparr>" using db_query_frame [of _ w] db by (metis snd_conv)
  show "w' = w\<lparr>w_net := tl (w_net w)\<rparr>" using assms db w1 by (auto simp: query_key_def split: sum.splits)
  assume "res = Inr k"
  then show "\<exists>r. q (w_keys w) = Some r \<and> ScanKeyRow r = Inr k"
    using assms db db_query_result [of "\<lambda>t. one_row (q t)" w]
    by (auto simp: query_key_def one_row_def split: sum.splits option.splits)
qed

lemma bare_keeps_net [simp]: "bare_keeps w (w\<lparr>w_net := n\<rparr>)" "bare_keeps w (w\<lparr>w_net := n, w_keys := t\<rparr>)"
  by (simp_all add: bare_keeps_def keeps_def)

lemma bare_keeps_refl [simp]: "bare_keeps w w"
  by (simp add: bare_keeps_def)

lemma psql_GetKey_laws:
  assumes "psql_inv E w" and "psql_GetKey E i w = (res, w')"
  shows "psql_inv E w' \<and> bare_keeps w w' \<and> w_keys w' = w_keys w"
    and "res = Inr p \<Longrightarrow> p < length (w_heap w') \<and>
      (\<exists>r. sql_latest i (w_keys w) = Some r \<and> row_key r = Some (deref w' p))"
proof -
  obtain q w1 where qk: "query_key (sql_latest i) w = (q, w1)" by (cases "query_key (sql_latest i) w")
  note w1 = query_key_spec(1) [OF qk]
  have inv1: "psql_inv E w1" using psql_inv_net [OF assms(1)] w1 by simp
  have "psql_inv E w' \<and> bare_keeps w w' \<and> w_keys w' = w_keys w \<and> (res = Inr p \<longrightarrow> p < length (w_heap w') \<and>
      (\<exists>r. sql_latest i (w_keys w) = Some r \<and> row_key r = Some (deref w' p)))"
  proof (cases q)
    case (Inl e)
    then show ?thesis using assms(2) qk inv1 w1 by (auto simp: psql_GetKey_def split: if_splits)
  next
    case (Inr k)
    then have res: "res = Inr (length (w_heap w))" "w' = w1\<lparr>w_heap := w_heap w1 @ [k\<lparr>k_ID := i\<rparr>]\<rparr>"
      using assms(2) qk w1 by (auto simp: psql_GetKey_def heap_alloc_def)
    obtain r where r: "sql_latest i (w_keys w) = Some r" "ScanKeyRow r = Inr k"
      using query_key_spec(2) [OF qk Inr] by blast
    then have "row_key r = Some (k\<lparr>k_ID := i\<rparr>)"
      using sql_latest_mem ScanKeyRow_setID by blast
    with r res inv1 w1 show ?thesis
      by (auto simp: deref_def psql_inv_def net_clean_def bare_keeps_def keeps_def)
  qed
  then show "psql_inv E w' \<and> bare_keeps w w' \<and> w_keys w' = w_keys w"
    and "res = Inr p \<Longrightarrow> p < length (w_heap w') \<and>
      (\<exists>r. sql_latest i (w_keys w) = Some r \<and> row_key r = Some (deref w' p))" by blast+
qed

lemma psql_GetKeyByVersion_laws:
  assumes "psql_inv E w" and "psql_GetKeyByVersion E i v w = (res, w')"
  shows "psql_inv E w' \<and> bare_keeps w w' \<and> w_keys w' = w_keys w"
    and "res = Inr p \<Longrightarrow> p < length (w_heap w') \<and>
      (\<exists>r. sql_by_version i v (w_keys w) = Some r \<and> row_key r = Some (deref w' p))"
proof -
  obtain q w1 where qk: "query_key (sql_by_version i v) w = (q, w1)"
    by (cases "query_key (sql_by_version i v) w")
  note w1 = query_key_spec(1) [OF qk]
  have inv1: "psql_inv E w1" using psql_inv_net [OF assms(1)] w1 by simp
  have "psql_inv E w' \<and> bare_keeps w w' \<and> w_keys w' = w_keys w \<and> (res = Inr p \<longrightarrow> p < length (w_heap w') \<and>
      (\<exists>r. sql_by_version i v (w_keys w) = Some r \<and> row_key r = Some (deref w' p)))"
  proof (cases "v \<le> 0")
    case True
    then show ?thesis using assms by (auto simp: psql_GetKeyByVersion_def)
  next
    case pos: False
    show ?thesis
    proof (cases q)
      case (Inl e)
      then show ?thesis
        using assms(2) qk inv1 w1 pos by (auto simp: psql_GetKeyByVersion_def split: if_splits)
    next
      case (Inr k)
      then have res: "res = Inr (length (w_heap w))"
          "w' = w1\<lparr>w_heap := w_heap w1 @ [k\<lparr>k_ID := i, k_Version := v\<rparr>]\<rparr>"
        using assms(2) qk w1 pos by (auto simp: psql_GetKeyByVersion_def heap_alloc_def)
      obtain r where r: "sql_by_version i v (w_keys w) = Some r" "ScanKeyRow r = Inr k"
        using query_key_spec(2) [OF qk Inr] by blast
      then have rk: "row_key r = Some (k\<lparr>k_ID := i\<rparr>)"
        using sql_by_version_mem ScanKeyRow_setID by blast
      then have "k_Version (k\<lparr>k_ID := i\<rparr>) = v"
        using row_key_fields [OF rk] sql_by_version_mem [OF r(1)] by metis
      then have "k\<lparr>k_ID := i, k_Version := v\<rparr> = k\<lparr>k_ID := i\<rparr>" by (cases k) simp
      with rk r res inv1 w1 show ?thesis
        by (auto simp: deref_def psql_inv_def net_clean_def bare_keeps_def keeps_def)
    qed
  qed
  then show "psql_inv E w' \<and> bare_keeps w w' \<and> w_keys w' = w_keys w"
    and "res = Inr p \<Longrightarrow> p < length (w_heap w') \<and>
      (\<exists>r. sql_by_version i v (w_keys w) = Some r \<and> row_key r = Some (deref w' p))" by blast+
qed

lemma query_metadata_spec:
  assumes "query_metadata what q w = (res, w')"
  shows "w' = w\<lparr>w_net := tl (w_net w)\<rparr>"
    and "res = Inr md \<Longrightarrow> \<exists>r m. q (w_keys w) = Some r \<and> unmarshal_struct (r_metadata r) = Inr m \<and> md = Some m"
proof -
  obtain r w1 where db: "db_query (\<lambda>t. one_row (q t)) w = (r, w1)" by (cases "db_query (\<lambda>t. one_row (q t)) w")
  have w1: "w1 = w\<lparr>w_net := tl (w_net w)\<rparr>" using db_query_frame [of _ w] db by (metis snd_conv)
  show "w' = w\<lparr>w_net := tl (w_net w)\<rparr>"
    using assms db w1 by (auto simp: query_metadata_def split: sum.splits if_splits)
  assume "res = Inr md"
  then show "\<exists>r m. q (w_keys w) = Some r \<and> unmarshal_struct (r_metadata r) = Inr m \<and> md = Some m"
    using assms db db_query_result [of "\<lambda>t. one_row (q t)" w]
    by (auto simp: query_metadata_def one_row_def split: sum.splits option.splits if_splits)
qed

lemma psql_GetKeyMetadata_laws:
  assumes "psql_inv E w" and "psql_GetKeyMetadata E i w = (res, w')"
  shows "psql_inv E w' \<and> bare_keeps w w' \<and> w_keys w' = w_keys w"
    and "res = Inr md \<Longrightarrow> \<exists>r m. sql_latest i (w_keys w) = Some r \<and> r_metadata r = JMeta m \<and> md = Some m"
proof -
  note q = query_metadata_spec [OF assms(2) [unfolded psql_GetKeyMetadata_def]]
  show "psql_inv E w' \<and> bare_keeps w w' \<and> w_keys w' = w_keys w"
    using q(1) psql_inv_net [OF assms(1)] by simp
  assume "res = Inr md"
  then obtain r m where r: "sql_latest i (w_keys w) = Some r"
      "unmarshal_struct (r_metadata r) = Inr m" "md = Some m" using q(2) by blast
  moreover have "row_ok r"
    using assms(1) sql_latest_mem [OF r(1)] by (auto simp: psql_inv_def dest: table_ok_row)
  ultimately show "\<exists>r m. sql_latest i (w_keys w) = Some r \<and> r_metadata r = JMeta m \<and> md = Some m"
    by (auto simp: unmarshal_struct_def elim!: row_okE)
qed

lemma query_rows_spec:
  assumes "query_rows a b q w = (res, w')"
  shows "\<exists>n. w' = w\<lparr>w_net := n\<rparr> \<and> (net_clean w \<longrightarrow> net_clean w')"
    and "res = Inr rows \<Longrightarrow> q (w_keys w) = Inr rows"
proof -
  obtain r w1 where db: "db_query q w = (r, w1)" by (cases "db_query q w")
  have w1: "w1 = w\<lparr>w_net := tl (w_net w)\<rparr>" using db_query_frame [of q w] db by (metis snd_conv)
  have clean1: "net_clean w \<longrightarrow> net_clean w1" using net_clean_tl [of w w] w1 by simp
  have "net_clean w1 \<longrightarrow> net_clean (w1\<lparr>w_net := tl (w_net w1)\<rparr>)" using net_clean_tl [of w1 w1] by simp
  then show "\<exists>n. w' = w\<lparr>w_net := n\<rparr> \<and> (net_clean w \<longrightarrow> net_clean w')"
    using assms db w1 clean1
    by (auto simp: query_rows_def net_next_def split: sum.splits net.splits)
  assume "res = Inr rows"
  then show "q (w_keys w) = Inr rows"
    using assms db db_query_result [of q w]
    by (auto simp: query_rows_def split: sum.splits prod.splits net.splits)
qed

lemma scan_all_complete:
  "(\<And>r. r \<in> set rows \<Longrightarrow> f r = Some (g r)) \<Longrightarrow> (\<And>r k. scan r = Inr k \<longleftrightarrow> f r = Some k) \<Longrightarrow>
   map Some (scan_all scan rows) = map f rows"
proof (induction rows)
  case Nil
  then show ?case by (simp add: scan_all_def)
next
  case (Cons r rows)
  have "scan r = Inr (g r)" "f r = Some (g r)" using Cons.prems by simp_all
  moreover have "map Some (scan_all scan rows) = map f rows" using Cons by simp
  ultimately show ?case by (simp add: scan_all_def)
qed

lemma row_ok_decodes: "row_ok r \<Longrightarrow> row_key r = Some (the (row_key r))"
  by (auto simp: row_key_def unmarshal_pointer_def elim!: row_okE)

lemma sql_list_subset: "sql_list c n t = Inr rows \<Longrightarrow> set rows \<subseteq> set t"
  by (auto simp: sql_list_def split: if_splits dest!: in_set_takeD)

lemma psql_ListKeys_laws:
  assumes "psql_inv E w" and "psql_ListKeys E c n w = (res, w')"
  shows "psql_inv E w' \<and> bare_keeps w w' \<and> w_keys w' = w_keys w"
    and "res = Inr ks \<Longrightarrow> \<exists>rows. sql_list c n (w_keys w) = Inr rows \<and> map Some ks = map row_key rows"
proof -
  let ?q = "query_rows ''failed to query keys'' ''error iterating over rows'' (sql_list c n) w"
  obtain q w1 where q: "?q = (q, w1)" by (cases ?q)
  have w': "w' = w1" using assms(2) q by (auto simp: psql_ListKeys_def split: sum.splits)
  then show "psql_inv E w' \<and> bare_keeps w w' \<and> w_keys w' = w_keys w"
    using query_rows_spec(1) [OF q] assms(1) by (auto simp: psql_inv_def)
  assume "res = Inr ks"
  then obtain rows where rows: "sql_list c n (w_keys w) = Inr rows"
      "ks = scan_all (ScanKeyRowWithID (e_uuid E)) rows"
    using assms(2) q query_rows_spec(2) [OF q] by (auto simp: psql_ListKeys_def split: sum.splits)
  have "map Some ks = map row_key rows"
    unfolding rows(2)
  proof (rule scan_all_complete [where g = "\<lambda>r. the (row_key r)"])
    fix r assume "r \<in> set rows"
    then show "row_key r = Some (the (row_key r))"
      using sql_list_subset [OF rows(1)] assms(1)
      by (intro row_ok_decodes) (auto simp: psql_inv_def dest: table_ok_row)
  qed (use assms(1) in \<open>simp add: psql_inv_def ScanKeyRowWithID_row_key\<close>)
  with rows show "\<exists>rows. sql_list c n (w_keys w) = Inr rows \<and> map Some ks = map row_key rows" by blast
qed

text \<open>Every write of the adapter but rotation is one statement.\<close>

lemma db_exec_laws:
  assumes "psql_inv E w" and "db_exec f w = (res, w')"
    and "\<forall>t x. f (w_keys w) = Inr (t, x) \<longrightarrow> table_ok t"
  shows "psql_inv E w' \<and> bare_keeps w w'"
    and "w_keys w' = w_keys w \<or> (\<exists>x. res = Inr x \<and> f (w_keys w) = Inr (w_keys w', x))"
    and "res = Inr x \<Longrightarrow> f (w_keys w) = Inr (w_keys w', x)"
proof -
  have fr: "w' = w\<lparr>w_net := tl (w_net w), w_keys := w_keys w'\<rparr>"
    using db_exec_frame [of f w] assms(2) by simp
  have cl: "net_clean w" using assms(1) by (simp add: psql_inv_def)
  show ok: "f (w_keys w) = Inr (w_keys w', x)" if "res = Inr x" for x
    using db_exec_ok [of f w x] assms(2) that by simp
  show eff: "w_keys w' = w_keys w \<or> (\<exists>x. res = Inr x \<and> f (w_keys w) = Inr (w_keys w', x))"
    using ok db_exec_failed [OF _ cl, of f] assms(2) by (cases res) auto
  have "table_ok (w_keys w')" using eff assms(1,3) by (auto simp: psql_inv_def)
  moreover have "net_clean (w\<lparr>w_net := tl (w_net w), w_keys := w_keys w'\<rparr>)"
    using net_clean_tl [OF cl, of "w\<lparr>w_keys := w_keys w'\<rparr>"] by (simp add: net_clean_def)
  ultimately show "psql_inv E w' \<and> bare_keeps w w'"
    using assms(1) by (subst (1 2) fr) (simp add: psql_inv_def)
qed

lemma copy_rows_laws:
  assumes "psql_inv E w" and "copy_rows msg rows w = (res, w')" and "list_all row_ok rows"
  shows "psql_inv E w' \<and> bare_keeps w w' \<and> w_keys w' \<in> {w_keys w, w_keys w @ rows}"
    and "res = Inr u \<Longrightarrow> w_keys w' = w_keys w @ rows"
proof -
  let ?f = "\<lambda>t. case sql_copy rows t of Inl e \<Rightarrow> Inl e | Inr t' \<Rightarrow> Inr (t', ())"
  obtain q w1 where db: "db_exec ?f w = (q, w1)" by (cases "db_exec ?f w")
  have tok: "table_ok (w_keys w)" using assms(1) by (simp add: psql_inv_def)
  have f: "table_ok t \<and> t = w_keys w @ rows" if "?f (w_keys w) = Inr (t, x)" for t x
    using sql_copy_ok [OF tok assms(3), of t] that by (auto split: sum.splits)
  have tok': "\<forall>t x. ?f (w_keys w) = Inr (t, x) \<longrightarrow> table_ok t" using f by blast
  note laws = db_exec_laws [OF assms(1) db tok']
  have w': "w' = w1" using assms(2) db by (auto simp: copy_rows_def split: sum.splits if_splits)
  have "w_keys w1 \<in> {w_keys w, w_keys w @ rows}" using laws(2) f by blast
  then show "psql_inv E w' \<and> bare_keeps w w' \<and> w_keys w' \<in> {w_keys w, w_keys w @ rows}"
    using laws(1) w' by blast
  assume "res = Inr u"
  then have "q = Inr ()" using assms(2) db by (auto simp: copy_rows_def split: sum.splits if_splits)
  then show "w_keys w' = w_keys w @ rows" using f [OF laws(3)] w' by blast
qed

lemma psql_CreateKey_laws:
  assumes "psql_inv E w" and "psql_CreateKey E (Some k) w = (res, w')" and "row_ok (key_to_row k)"
  shows "psql_inv E w' \<and> bare_keeps w w' \<and> w_keys w' \<in> {w_keys w, create_effect [k] (w_keys w)}"
    and "res = Inr u \<Longrightarrow> w_keys w' = create_effect [k] (w_keys w)"
  using assms copy_rows_laws [OF assms(1), of _ "[key_to_row k]" res w']
  by (auto simp: psql_CreateKey_def create_effect_def split: if_splits)

lemma psql_CreateBatchKeys_laws:
  assumes "psql_inv E w" and "psql_CreateBatchKeys E ks w = (res, w')"
    and "list_all (\<lambda>k. row_ok (key_to_row k)) ks"
  shows "psql_inv E w' \<and> bare_keeps w w' \<and> w_keys w' \<in> {w_keys w, create_effect ks (w_keys w)}"
    and "res = Inr u \<Longrightarrow> w_keys w' = create_effect ks (w_keys w)"
  using assms copy_rows_laws [OF assms(1), of _ "map key_to_row ks" res w']
  by (auto simp: psql_CreateBatchKeys_def create_effect_def list.pred_map comp_def split: if_splits)

lemma psql_UpdateKeyMetadata_laws:
  assumes "psql_inv E w" and "psql_UpdateKeyMetadata E i (Some m) w = (res, w')"
    and "for_latest i m (w_keys w)"
  shows "psql_inv E w' \<and> bare_keeps w w' \<and>
      w_keys w' \<in> {w_keys w, update_effect (w_now w) i m (w_keys w)}"
    and "res = Inr u \<Longrightarrow>
      w_keys w' = update_effect (w_now w) i m (w_keys w) \<and> sql_latest i (w_keys w) \<noteq> None"
proof -
  let ?s = "sql_update_metadata (JMeta m) (w_now w) i (w_keys w)"
  let ?f = "\<lambda>t. Inr (sql_update_metadata (marshal_metadata (Some m)) (w_now w) i t) :: go_error + _"
  obtain q w1 where db: "db_exec ?f w = (q, w1)" by (cases "db_exec ?f w")
  have f: "table_ok t \<and> t = fst ?s \<and> x = snd ?s" if "?f (w_keys w) = Inr (t, x)" for t x
    using that assms sql_update_metadata_ok [of "w_keys w" i m "w_now w"]
    by (auto simp: marshal_metadata_def psql_inv_def for_latest_def)
  have tok': "\<forall>t x. ?f (w_keys w) = Inr (t, x) \<longrightarrow> table_ok t" using f by blast
  note laws = db_exec_laws [OF assms(1) db tok']
  have w': "w' = w1"
    using assms(2) db by (auto simp: psql_UpdateKeyMetadata_def split: sum.splits if_splits)
  have eff: "update_effect (w_now w) i m (w_keys w) = fst ?s" by (simp add: update_effect_def)
  have "w_keys w1 = w_keys w \<or> w_keys w1 = fst ?s" using laws(2) f by blast
  then show "psql_inv E w' \<and> bare_keeps w w' \<and>
      w_keys w' \<in> {w_keys w, update_effect (w_now w) i m (w_keys w)}"
    using laws(1) w' eff by auto
  assume "res = Inr u"
  then obtain n where "q = Inr n" "n \<noteq> 0"
    using assms(2) db by (auto simp: psql_UpdateKeyMetadata_def split: sum.splits if_splits)
  then show "w_keys w' = update_effect (w_now w) i m (w_keys w) \<and> sql_latest i (w_keys w) \<noteq> None"
    using f [OF laws(3)] w' eff sql_update_metadata_count [of "JMeta m" "w_now w" i "w_keys w"] by auto
qed

lemma psql_RevokeKey_laws:
  assumes "psql_inv E w" and "psql_RevokeKey E i w = (res, w')"
  shows "psql_inv E w' \<and> bare_keeps w w' \<and> w_keys w' \<in> {w_keys w, revoke_effect (w_now w) i (w_keys w)}"
    and "res = Inr u \<Longrightarrow>
      w_keys w' = revoke_effect (w_now w) i (w_keys w) \<and> sql_latest i (w_keys w) \<noteq> None"
proof -
  let ?s = "sql_revoke KeyStatusRevoked (w_now w) i (w_keys w)"
  let ?f = "\<lambda>t. Inr (sql_revoke KeyStatusRevoked (w_now w) i t) :: go_error + _"
  obtain q w1 where db: "db_exec ?f w = (q, w1)" by (cases "db_exec ?f w")
  have f: "table_ok t \<and> t = fst ?s \<and> x = snd ?s" if "?f (w_keys w) = Inr (t, x)" for t x
    using that assms(1) sql_revoke_ok [of "w_keys w" KeyStatusRevoked "w_now w" i]
    by (auto simp: psql_inv_def)
  have tok': "\<forall>t x. ?f (w_keys w) = Inr (t, x) \<longrightarrow> table_ok t" using f by blast
  note laws = db_exec_laws [OF assms(1) db tok']
  have w': "w' = w1" using assms(2) db by (auto simp: psql_RevokeKey_def split: sum.splits if_splits)
  have eff: "revoke_effect (w_now w) i (w_keys w) = fst ?s" by (simp add: revoke_effect_def)
  have "w_keys w1 = w_keys w \<or> w_keys w1 = fst ?s" using laws(2) f by blast
  then show "psql_inv E w' \<and> bare_keeps w w' \<and> w_keys w' \<in> {w_keys w, revoke_effect (w_now w) i (w_keys w)}"
    using laws(1) w' eff by auto
  assume "res = Inr u"
  then obtain n where "q = Inr n" "n \<noteq> 0"
    using assms(2) db by (auto simp: psql_RevokeKey_def split: sum.splits if_splits)
  then show "w_keys w' = revoke_effect (w_now w) i (w_keys w) \<and> sql_latest i (w_keys w) \<noteq> None"
    using f [OF laws(3)] w' eff sql_revoke_count [of KeyStatusRevoked "w_now w" i "w_keys w"] by auto
qed

section \<open>Rotation in a transaction\<close>

lemma TryAcquireLock_frame: "snd (TryAcquireLock l w) = w\<lparr>w_net := tl (w_net w)\<rparr>"
  using db_query_frame [of "\<lambda>_. Inr (l \<notin> set (w_locks w))" w]
  by (auto simp: TryAcquireLock_def split: prod.splits sum.splits)

lemma TryAcquireLock_result: "fst (TryAcquireLock l w) = Inr b \<Longrightarrow> b = (l \<notin> set (w_locks w))"
  using db_query_result [of "\<lambda>_. Inr (l \<notin> set (w_locks w))" w b]
  by (auto simp: TryAcquireLock_def split: prod.splits sum.splits)

text \<open>The attempt touches the tape and, through the statement, the table.\<close>

lemma rotateKeyInTx_frame:
  "\<exists>n t. snd (rotateKeyInTx E i dek w) = w\<lparr>w_net := n, w_keys := t\<rparr> \<and>
     (net_clean w \<longrightarrow> net_clean (snd (rotateKeyInTx E i dek w)))"
proof -
  obtain l w1 where lock: "TryAcquireLock (GetLockID (e_uuid E) i) w = (l, w1)"
    by (cases "TryAcquireLock (GetLockID (e_uuid E) i) w")
  then have w1: "w1 = w\<lparr>w_net := tl (w_net w)\<rparr>" by (metis TryAcquireLock_frame snd_conv)
  let ?f = "\<lambda>t. sql_rotate KeyStatusRotated i dek KeyStatusActive (w_dbnow w1) t"
  obtain r w2 where db: "db_exec ?f w1 = (r, w2)" by (cases "db_exec ?f w1")
  then have w2: "w2 = w1\<lparr>w_net := tl (w_net w1), w_keys := w_keys w2\<rparr>"
    using db_exec_frame [of ?f w1] by simp
  have "snd (rotateKeyInTx E i dek w) \<in> {w1, w2}"
    using lock db by (auto simp: rotateKeyInTx_def Let_def split: sum.splits option.splits)
  moreover have "\<exists>n t. w1 = w\<lparr>w_net := n, w_keys := t\<rparr>"
    by (rule exI [of _ "tl (w_net w)"], rule exI [of _ "w_keys w"]) (simp add: w1)
  moreover have "\<exists>n t. w2 = w\<lparr>w_net := n, w_keys := t\<rparr>"
    by (rule exI [of _ "tl (w_net w1)"], rule exI [of _ "w_keys w2"], subst w2) (simp add: w1)
  moreover have "net_clean w1 \<and> net_clean w2" if "net_clean w"
  proof -
    have "net_clean w1" using net_clean_tl [OF that, of w] w1 by simp
    moreover have "net_clean w2"
      by (subst w2) (use net_clean_tl [OF calculation, of w1] in \<open>simp add: net_clean_def\<close>)
    ultimately show ?thesis by simp
  qed
  ultimately show ?thesis by auto
qed

lemma rotateKeyInTx_ok:
  assumes "uuid_lib_ok (e_uuid E)" and "rotateKeyInTx E i dek w = (Inr k, w')"
  shows "\<exists>new. rotate_effect (w_dbnow w) i dek (w_keys w) = Some (w_keys w', new) \<and> row_key new = Some k"
    and "GetLockID (e_uuid E) i \<notin> set (w_locks w)"
proof -
  obtain l w1 where lock: "TryAcquireLock (GetLockID (e_uuid E) i) w = (l, w1)"
    by (cases "TryAcquireLock (GetLockID (e_uuid E) i) w")
  then have w1: "w1 = w\<lparr>w_net := tl (w_net w)\<rparr>" by (metis TryAcquireLock_frame snd_conv)
  let ?f = "\<lambda>t. sql_rotate KeyStatusRotated i dek KeyStatusActive (w_dbnow w1) t"
  obtain r w2 where db: "db_exec ?f w1 = (r, w2)" by (cases "db_exec ?f w1")
  have l: "l = Inr True"
    using assms(2) lock by (auto simp: rotateKeyInTx_def split: sum.splits if_splits)
  then show "GetLockID (e_uuid E) i \<notin> set (w_locks w)"
    using lock TryAcquireLock_result [of "GetLockID (e_uuid E) i" w True] by simp
  obtain new where new: "r = Inr (Some new)" "ScanKeyRowWithID (e_uuid E) new = Inr k" "w' = w2"
    using assms(2) lock l db
    by (auto simp: rotateKeyInTx_def Let_def split: sum.splits option.splits if_splits)
  then have "sql_rotate KeyStatusRotated i dek KeyStatusActive (w_dbnow w) (w_keys w) =
      Inr (w_keys w', Some new)"
    using db_exec_ok [of ?f w1 "Some new"] db w1 by simp
  then show "\<exists>new. rotate_effect (w_dbnow w) i dek (w_keys w) = Some (w_keys w', new) \<and> row_key new = Some k"
    using new(2) assms(1) by (auto simp: rotate_effect_def ScanKeyRowWithID_row_key)
qed

lemma psql_RotateKey_laws:
  assumes "psql_inv E w" and "psql_RotateKey E i dek w = (res, w')"
  shows "psql_inv E w' \<and> bare_keeps w w' \<and> (w_keys w' = w_keys w \<or>
      (\<exists>new. rotate_effect (w_dbnow w) i dek (w_keys w) = Some (w_keys w', new)))"
    and "res = Inr k \<Longrightarrow>
      \<exists>new. rotate_effect (w_dbnow w) i dek (w_keys w) = Some (w_keys w', new) \<and> row_key new = Some k"
    and "res = Inl e \<Longrightarrow> w_keys w' = w_keys w"
    and "res = Inr k \<Longrightarrow> GetLockID (e_uuid E) i \<notin> set (w_locks w)"
proof -
  let ?fn = "rotateKeyInTx E i dek"
  have L: "uuid_lib_ok (e_uuid E)" and tok: "table_ok (w_keys w)" and cl: "net_clean w"
    using assms(1) by (auto simp: psql_inv_def)
  have fr: "tx_frame (bare_keeps w)" by (auto simp: tx_frame_def bare_keeps_def keeps_def)
  have clean: "net_clean (snd (?fn v))" if "net_clean v" for v
    using rotateKeyInTx_frame [of E i dek v] that by blast
  have keep: "bare_keeps w (snd (?fn v))" if "bare_keeps w v" for v
  proof -
    obtain n t where "snd (?fn v) = v\<lparr>w_net := n, w_keys := t\<rparr>"
      using rotateKeyInTx_frame [of E i dek v] by blast
    then show ?thesis using tx_frameD(3) [OF fr that] by simp
  qed
  have "tx_outcome (bare_keeps w) ?fn (w_keys w) (ExecuteInTransaction E ?fn w)"
    unfolding ExecuteInTransaction_def by (rule tx_loop_atomic [OF clean fr keep cl bare_keeps_refl])
  then have "tx_outcome (bare_keeps w) ?fn (w_keys w) (res, w') \<or> (w' = w \<and> (\<exists>e. res = Inl e))"
    using assms(2) by (auto simp: psql_RotateKey_def split: if_splits)
  then consider "w' = w" "\<exists>e. res = Inl e"
    | e where "res = Inl e" "net_clean w'" "bare_keeps w w'" "w_keys w' = w_keys w"
    | k' v v' where "res = Inr k'" "net_clean w'" "bare_keeps w w'" "bare_keeps w v" "w_keys v = w_keys w"
        "rotateKeyInTx E i dek v = (Inr k', v')" "w_keys w' = w_keys v'"
    by (cases res) (auto simp: tx_outcome_def)
  then have "psql_inv E w' \<and> bare_keeps w w' \<and> (case res of Inl _ \<Rightarrow> w_keys w' = w_keys w
    | Inr k \<Rightarrow> GetLockID (e_uuid E) i \<notin> set (w_locks w) \<and>
       (\<exists>new. rotate_effect (w_dbnow w) i dek (w_keys w) = Some (w_keys w', new) \<and> row_key new = Some k))"
  proof cases
    case 3
    then have "\<exists>new. rotate_effect (w_dbnow w) i dek (w_keys w) = Some (w_keys w', new) \<and> row_key new = Some k'"
      and "GetLockID (e_uuid E) i \<notin> set (w_locks w)"
      using rotateKeyInTx_ok [OF L 3(6)] by (simp_all add: bare_keeps_def keeps_def)
    moreover have "table_ok (w_keys w')"
      using calculation(1) rotated_table_ok [OF tok]
      by (auto simp: rotate_effect_def split: sum.splits prod.splits option.splits)
    ultimately show ?thesis using 3 L by (simp add: psql_inv_def)
  qed (use assms(1) L tok in \<open>auto simp: psql_inv_def\<close>)
  then show "psql_inv E w' \<and> bare_keeps w w' \<and> (w_keys w' = w_keys w \<or>
      (\<exists>new. rotate_effect (w_dbnow w) i dek (w_keys w) = Some (w_keys w', new)))"
    and "res = Inr k \<Longrightarrow>
      \<exists>new. rotate_effect (w_dbnow w) i dek (w_keys w) = Some (w_keys w', new) \<and> row_key new = Some k"
    and "res = Inl e \<Longrightarrow> w_keys w' = w_keys w"
    and "res = Inr k \<Longrightarrow> GetLockID (e_uuid E) i \<notin> set (w_locks w)"
    by (auto split: sum.splits)
qed

lemma NewPSQLAdapter_sel [simp]:
  "repo_GetKey (NewPSQLAdapter E) = psql_GetKey E"
  "repo_GetKeyByVersion (NewPSQLAdapter E) = psql_GetKeyByVersion E"
  "repo_GetKeyMetadata (NewPSQLAdapter E) = psql_GetKeyMetadata E"
  "repo_GetKeyMetadataByVersion (NewPSQLAdapter E) = psql_GetKeyMetadataByVersion E"
  "repo_CreateKey (NewPSQLAdapter E) = psql_CreateKey E"
  "repo_CreateBatchKeys (NewPSQLAdapter E) = psql_CreateBatchKeys E"
  "repo_ListKeys (NewPSQLAdapter E) = psql_ListKeys E"
  "repo_UpdateKeyMetadata (NewPSQLAdapter E) = psql_UpdateKeyMetadata E"
  "repo_RotateKey (NewPSQLAdapter E) = psql_RotateKey E"
  "repo_RevokeKey (NewPSQLAdapter E) = psql_RevokeKey E"
  "repo_GetKeyVersions (NewPSQLAdapter E) = psql_GetKeyVersions E"
  "repo_Exists (NewPSQLAdapter E) = psql_Exists E"
  "repo_GetBatchKeys (NewPSQLAdapter E) = psql_GetBatchKeys E"
  "repo_GetBatchKeyMetadata (NewPSQLAdapter E) = psql_GetBatchKeyMetadata E"
  "repo_RevokeBatchKeys (NewPSQLAdapter E) = psql_RevokeBatchKeys E"
  "repo_UpdateBatchKeyMetadata (NewPSQLAdapter E) = psql_UpdateBatchKeyMetadata E"
  by (simp_all add: NewPSQLAdapter_def)

interpretation psql: key_repository "NewPSQLAdapter E" "psql_inv E" for E
proof (unfold_locales, unfold NewPSQLAdapter_sel, goal_cases)
  case 1
  then show ?case by (simp add: psql_inv_def)
next
  case 2
  show ?case using psql_GetKey_laws(1) [OF 2(1) 2(2)] bare_keepsD by blast
next
  case 3
  then show ?case by (rule psql_GetKey_laws(2) [OF _ _ refl])
next
  case 4
  show ?case using psql_GetKeyByVersion_laws(1) [OF 4(1) 4(2)] bare_keepsD by blast
next
  case 5
  then show ?case by (intro psql_GetKeyByVersion_laws(2) [OF _ _ refl])
next
  case 6
  show ?case using psql_GetKeyMetadata_laws(1) [OF 6(1) 6(2)] bare_keepsD by blast
next
  case 7
  then show ?case by (rule psql_GetKeyMetadata_laws(2) [OF _ _ refl])
next
  case 8
  show ?case using psql_ListKeys_laws(1) [OF 8(1) 8(2)] bare_keepsD by blast
next
  case 9
  then show ?case by (rule psql_ListKeys_laws(2) [OF _ _ refl])
next
  case 10
  show ?case using psql_CreateKey_laws(1) [OF 10(1) 10(2) 10(3)] bare_keepsD by blast
next
  case 11
  then show ?case by (intro psql_CreateKey_laws(2) [OF _ _ _ refl])
next
  case 12
  show ?case using psql_UpdateKeyMetadata_laws(1) [OF 12(1) 12(2) 12(3)] bare_keepsD by blast
next
  case 13
  then show ?case by (intro psql_UpdateKeyMetadata_laws(2) [OF _ _ _ refl])
next
  case 14
  show ?case using psql_RotateKey_laws(1) [OF 14(1) 14(2)] bare_keepsD by blast
next
  case 15
  then show ?case by (rule psql_RotateKey_laws(2) [OF _ _ refl])
next
  case 16
  show ?case using psql_RevokeKey_laws(1) [OF 16(1) 16(2)] bare_keepsD by blast
next
  case 17
  then show ?case by (rule psql_RevokeKey_laws(2) [OF _ _ refl])
qed

end
