(* ===== verification/CachedRepository.thy ===== *)
theory CachedRepository
  imports Repository
begin

text \<open>
  The caching decorator (\<^verbatim>\<open>internal/infra/persistence/cached_repository.go\<close>) around any
  repository that leaves the cache alone.  The cache maps strings to pointers into the heap of
  keys; the index maps a key id to the cache keys under which its versions are stored.  Reads
  through the cache are shown to meet the same contract as reads of the wrapped repository.
\<close>

section \<open>Cache keys and the index\<close>

definition defaultCacheTTL :: time where "defaultCacheTTL = 2 * minute"
definition cacheCleanupInterval :: time where "cacheCleanupInterval = 5 * minute"

text \<open>The cache that \<^verbatim>\<open>NewCachedRepository\<close> creates.\<close>

definition new_key_cache :: "(string, nat) cache" where
  "new_key_cache = cache_New [WithDefaultTTL defaultCacheTTL, WithCleanupInterval cacheCleanupInterval]"

definition getCacheKey :: "env \<Rightarrow> key_id \<Rightarrow> int \<Rightarrow> string" where
  "getCacheKey E i version =
     KeyID_String (e_uuid E) i @ (if version = 0 then '':latest'' else '':v'' @ itoa version)"

definition onCacheEvict :: "env \<Rightarrow> string \<Rightarrow> nat \<Rightarrow> world \<Rightarrow> world" where
  "onCacheEvict E cacheKey p w =
     (let keyIDStr = KeyID_String (e_uuid E) (k_ID (deref w p))
      in case w_index w keyIDStr of
           None \<Rightarrow> w
         | Some ks \<Rightarrow>
             (let ks' = removeAll cacheKey ks
              in if ks' = [] then w\<lparr>w_index := (w_index w)(keyIDStr := None)\<rparr>
                 else w\<lparr>w_index := (w_index w)(keyIDStr \<mapsto> ks')\<rparr>))"

definition storeInCache :: "env \<Rightarrow> string \<Rightarrow> nat \<Rightarrow> world \<Rightarrow> world" where
  "storeInCache E cacheKey p w =
     (let w1 = w\<lparr>w_cache := cache_Set (w_now w) cacheKey p 0 (w_cache w)\<rparr>;
          keyIDStr = KeyID_String (e_uuid E) (k_ID (deref w1 p));
          ks = (case w_index w1 keyIDStr of None \<Rightarrow> [] | Some ks \<Rightarrow> ks)
      in w1\<lparr>w_index := (w_index w1)(keyIDStr \<mapsto> List.insert cacheKey ks)\<rparr>)"

text \<open>\<^verbatim>\<open>cache.Delete\<close> with the eviction callback of the repository.\<close>

definition evict :: "env \<Rightarrow> string \<Rightarrow> world \<Rightarrow> world" where
  "evict E cacheKey w =
     (let (c, w1) = cache_Delete (Some (onCacheEvict E)) cacheKey (w_cache w, w)
      in w1\<lparr>w_cache := c\<rparr>)"

definition invalidateCache :: "env \<Rightarrow> key_id \<Rightarrow> world \<Rightarrow> world" where
  "invalidateCache E i w =
     (let keysToDel = (case w_index w (KeyID_String (e_uuid E) i) of None \<Rightarrow> [] | Some ks \<Rightarrow> ks)
      in foldl (\<lambda>w k. evict E k w) w keysToDel)"

definition cache_lookup :: "env \<Rightarrow> key_id \<Rightarrow> int \<Rightarrow> world \<Rightarrow> nat option" where
  "cache_lookup E i version w = cache_Get (w_now w) (getCacheKey E i version) (w_cache w)"

section \<open>The decorator\<close>

definition cached_GetKey :: "env \<Rightarrow> key_repo \<Rightarrow> key_id \<Rightarrow> world \<Rightarrow> nat result" where
  "cached_GetKey E repo i w =
     (case cache_lookup E i 0 w of
        Some p \<Rightarrow> (Inr p, w)
      | None \<Rightarrow>
          (case repo_GetKey repo i w of
             (Inl err, w1) \<Rightarrow> (Inl err, w1)
           | (Inr p, w1) \<Rightarrow> (Inr p, storeInCache E (getCacheKey E i 0) p w1)))"

definition cached_GetKeyByVersion :: "env \<Rightarrow> key_repo \<Rightarrow> key_id \<Rightarrow> int \<Rightarrow> world \<Rightarrow> nat result" where
  "cached_GetKeyByVersion E repo i version w =
     (case cache_lookup E i version w of
        Some p \<Rightarrow> (Inr p, w)
      | None \<Rightarrow>
          (case repo_GetKeyByVersion repo i version w of
             (Inl err, w1) \<Rightarrow> (Inl err, w1)
           | (Inr p, w1) \<Rightarrow> (Inr p, storeInCache E (getCacheKey E i version) p w1)))"

definition cached_GetKeyMetadata ::
  "env \<Rightarrow> key_repo \<Rightarrow> key_id \<Rightarrow> world \<Rightarrow> key_metadata option result" where
  "cached_GetKeyMetadata E repo i w =
     (case cache_lookup E i 0 w of
        Some p \<Rightarrow> (Inr (k_Metadata (deref w p)), w)
      | None \<Rightarrow> repo_GetKeyMetadata repo i w)"

definition cached_GetKeyMetadataByVersion ::
  "env \<Rightarrow> key_repo \<Rightarrow> key_id \<Rightarrow> int \<Rightarrow> world \<Rightarrow> key_metadata option result" where
  "cached_GetKeyMetadataByVersion E repo i version w =
     (case cache_lookup E i version w of
        Some p \<Rightarrow> (Inr (k_Metadata (deref w p)), w)
      | None \<Rightarrow> repo_GetKeyMetadataByVersion repo i version w)"

text \<open>\<open>if err == nil { invalidate }\<close>, shared by the writes.\<close>

definition invalidate_on_success :: "env \<Rightarrow> key_id list \<Rightarrow> 'a result \<Rightarrow> 'a result" where
  "invalidate_on_success E ids r =
     (case r of
        (Inr x, w1) \<Rightarrow> (Inr x, foldl (\<lambda>w i. invalidateCache E i w) w1 ids)
      | (Inl err, w1) \<Rightarrow> (Inl err, w1))"

definition cached_CreateKey :: "env \<Rightarrow> key_repo \<Rightarrow> key option \<Rightarrow> world \<Rightarrow> unit result" where
  "cached_CreateKey E repo ko w =
     invalidate_on_success E (case ko of Some k \<Rightarrow> [k_ID k] | None \<Rightarrow> []) (repo_CreateKey repo ko w)"

definition cached_CreateBatchKeys :: "env \<Rightarrow> key_repo \<Rightarrow> key list \<Rightarrow> world \<Rightarrow> unit result" where
  "cached_CreateBatchKeys E repo ks w =
     invalidate_on_success E (map k_ID ks) (repo_CreateBatchKeys repo ks w)"

definition cached_ListKeys ::
  "env \<Rightarrow> key_repo \<Rightarrow> time option \<Rightarrow> int \<Rightarrow> world \<Rightarrow> key list result" where
  "cached_ListKeys E repo lastCreatedAt limit w = repo_ListKeys repo lastCreatedAt limit w"

definition cached_UpdateKeyMetadata ::
  "env \<Rightarrow> key_repo \<Rightarrow> key_id \<Rightarrow> key_metadata option \<Rightarrow> world \<Rightarrow> unit result" where
  "cached_UpdateKeyMetadata E repo i md w =
     invalidate_on_success E [i] (repo_UpdateKeyMetadata repo i md w)"

definition cached_RotateKey :: "env \<Rightarrow> key_repo \<Rightarrow> key_id \<Rightarrow> bytes \<Rightarrow> world \<Rightarrow> key result" where
  "cached_RotateKey E repo i dek w = invalidate_on_success E [i] (repo_RotateKey repo i dek w)"

definition cached_RevokeKey :: "env \<Rightarrow> key_repo \<Rightarrow> key_id \<Rightarrow> world \<Rightarrow> unit result" where
  "cached_RevokeKey E repo i w = invalidate_on_success E [i] (repo_RevokeKey repo i w)"

definition cached_GetKeyVersions :: "env \<Rightarrow> key_repo \<Rightarrow> key_id \<Rightarrow> world \<Rightarrow> key list result" where
  "cached_GetKeyVersions E repo i w = repo_GetKeyVersions repo i w"

definition cached_Exists :: "env \<Rightarrow> key_repo \<Rightarrow> key_id \<Rightarrow> world \<Rightarrow> bool result" where
  "cached_Exists E repo i w =
     (case cache_lookup E i 0 w of Some _ \<Rightarrow> (Inr True, w) | None \<Rightarrow> repo_Exists repo i w)"

definition cached_GetBatchKeys :: "env \<Rightarrow> key_repo \<Rightarrow> key_id list \<Rightarrow> world \<Rightarrow> key list result" where
  "cached_GetBatchKeys E repo ids w = repo_GetBatchKeys repo ids w"

definition cached_GetBatchKeyMetadata ::
  "env \<Rightarrow> key_repo \<Rightarrow> key_id list \<Rightarrow> world \<Rightarrow> key_metadata list result" where
  "cached_GetBatchKeyMetadata E repo ids w = repo_GetBatchKeyMetadata repo ids w"

definition cached_RevokeBatchKeys :: "env \<Rightarrow> key_repo \<Rightarrow> key_id list \<Rightarrow> world \<Rightarrow> unit result" where
  "cached_RevokeBatchKeys E repo ids w = repo_RevokeBatchKeys repo ids w"

definition cached_UpdateBatchKeyMetadata :: "env \<Rightarrow> key_repo \<Rightarrow> nat list \<Rightarrow> world \<Rightarrow> unit result" where
  "cached_UpdateBatchKeyMetadata E repo ps w = repo_UpdateBatchKeyMetadata repo ps w"

definition NewCachedRepository :: "env \<Rightarrow> key_repo \<Rightarrow> key_repo" where
  "NewCachedRepository E repo =
     \<lparr>repo_GetKey = cached_GetKey E repo, repo_GetKeyByVersion = cached_GetKeyByVersion E repo,
      repo_GetKeyMetadata = cached_GetKeyMetadata E repo,
      repo_GetKeyMetadataByVersion = cached_GetKeyMetadataByVersion E repo,
      repo_CreateKey = cached_CreateKey E repo, repo_CreateBatchKeys = cached_CreateBatchKeys E repo,
      repo_ListKeys = cached_ListKeys E repo,
      repo_UpdateKeyMetadata = cached_UpdateKeyMetadata E repo,
      repo_RotateKey = cached_RotateKey E repo, repo_RevokeKey = cached_RevokeKey E repo,
      repo_GetKeyVersions = cached_GetKeyVersions E repo, repo_Exists = cached_Exists E repo,
      repo_GetBatchKeys = cached_GetBatchKeys E repo,
      repo_GetBatchKeyMetadata = cached_GetBatchKeyMetadata E repo,
      repo_RevokeBatchKeys = cached_RevokeBatchKeys E repo,
      repo_UpdateBatchKeyMetadata = cached_UpdateBatchKeyMetadata E repo\<rparr>"

lemma NewCachedRepository_sel [simp]:
  "repo_GetKey (NewCachedRepository E R) = cached_GetKey E R"
  "repo_GetKeyByVersion (NewCachedRepository E R) = cached_GetKeyByVersion E R"
  "repo_GetKeyMetadata (NewCachedRepository E R) = cached_GetKeyMetadata E R"
  "repo_GetKeyMetadataByVersion (NewCachedRepository E R) = cached_GetKeyMetadataByVersion E R"
  "repo_CreateKey (NewCachedRepository E R) = cached_CreateKey E R"
  "repo_CreateBatchKeys (NewCachedRepository E R) = cached_CreateBatchKeys E R"
  "repo_ListKeys (NewCachedRepository E R) = cached_ListKeys E R"
  "repo_UpdateKeyMetadata (NewCachedRepository E R) = cached_UpdateKeyMetadata E R"
  "repo_RotateKey (NewCachedRepository E R) = cached_RotateKey E R"
  "repo_RevokeKey (NewCachedRepository E R) = cached_RevokeKey E R"
  "repo_GetKeyVersions (NewCachedRepository E R) = cached_GetKeyVersions E R"
  "repo_Exists (NewCachedRepository E R) = cached_Exists E R"
  "repo_GetBatchKeys (NewCachedRepository E R) = cached_GetBatchKeys E R"
  "repo_GetBatchKeyMetadata (NewCachedRepository E R) = cached_GetBatchKeyMetadata E R"
  "repo_RevokeBatchKeys (NewCachedRepository E R) = cached_RevokeBatchKeys E R"
  "repo_UpdateBatchKeyMetadata (NewCachedRepository E R) = cached_UpdateBatchKeyMetadata E R"
  by (simp_all add: NewCachedRepository_def)

section \<open>Cache keys are unambiguous\<close>

lemma getCacheKey_inj:
  assumes "uuid_lib_ok (e_uuid E)"
  shows "getCacheKey E i v = getCacheKey E j u \<longleftrightarrow> i = j \<and> v = u"
proof
  assume eq: "getCacheKey E i v = getCacheKey E j u"
  have "length (KeyID_String (e_uuid E) i) = length (KeyID_String (e_uuid E) j)"
    using assms by (simp add: length_KeyID_String)
  with eq have "KeyID_String (e_uuid E) i = KeyID_String (e_uuid E) j"
    and tails: "(if v = 0 then '':latest'' else '':v'' @ itoa v) =
      (if u = 0 then '':latest'' else '':v'' @ itoa u)"
    unfolding getCacheKey_def by auto
  then have "i = j" using assms by (simp add: KeyID_String_inj)
  moreover have "v = u"
    using tails itoa_inj by (auto split: if_splits dest: injD)
  ultimately show "i = j \<and> v = u" by simp
qed simp

section \<open>Coherence\<close>

text \<open>
  Every cached pointer, expired or not, points to the key that its cache key names in the table,
  and the index lists the cache key under the key's id.
\<close>

definition stored_row :: "key_table \<Rightarrow> key_id \<Rightarrow> int \<Rightarrow> key_row option" where
  "stored_row t i v = (if v = 0 then sql_latest i t else sql_by_version i v t)"

definition entry_coherent :: "world \<Rightarrow> key_id \<Rightarrow> int \<Rightarrow> nat \<Rightarrow> bool" where
  "entry_coherent w i v p \<longleftrightarrow> p < length (w_heap w) \<and>
     (\<exists>r. stored_row (w_keys w) i v = Some r \<and> row_key r = Some (deref w p))"

definition indexed :: "env \<Rightarrow> world \<Rightarrow> key_id \<Rightarrow> string \<Rightarrow> bool" where
  "indexed E w i ck \<longleftrightarrow> (\<exists>ks. w_index w (KeyID_String (e_uuid E) i) = Some ks \<and> ck \<in> set ks)"

definition cache_coherent :: "env \<Rightarrow> world \<Rightarrow> bool" where
  "cache_coherent E w \<longleftrightarrow>
     (\<forall>ck it. map_of (c_items (w_cache w)) ck = Some it \<longrightarrow>
        (\<exists>i v. ck = getCacheKey E i v \<and> entry_coherent w i v (it_value it) \<and> indexed E w i ck))"

lemma cache_coherentD:
  assumes "cache_coherent E w" and "map_of (c_items (w_cache w)) ck = Some it"
  obtains i v where "ck = getCacheKey E i v" "entry_coherent w i v (it_value it)" "indexed E w i ck"
  using assms unfolding cache_coherent_def by blast

lemma stored_row_id: "stored_row t i v = Some r \<Longrightarrow> r_id r = i"
  using sql_latest_mem sql_by_version_mem by (auto simp: stored_row_def split: if_splits)

lemma entry_coherent_id: "entry_coherent w i v p \<Longrightarrow> k_ID (deref w p) = i"
  unfolding entry_coherent_def using row_key_fields stored_row_id by metis

lemma entry_coherent_mono:
  assumes "entry_coherent w i v p" and "keeps w w'"
    and "stored_row (w_keys w') i v = stored_row (w_keys w) i v"
  shows "entry_coherent w' i v p"
  using assms keeps_deref [of w w' p] by (auto simp: entry_coherent_def)

lemma cache_coherent_frame:
  assumes "cache_coherent E w" and "bare_keeps w w'" and "w_keys w' = w_keys w"
  shows "cache_coherent E w'"
  using assms entry_coherent_mono [of w _ _ _ w']
  by (fastforce simp: cache_coherent_def bare_keeps_def indexed_def)

text \<open>A hit returns the right key.\<close>

lemma cache_lookup_coherent:
  assumes "cache_coherent E w" and "uuid_lib_ok (e_uuid E)" and "cache_lookup E i v w = Some p"
  shows "entry_coherent w i v p"
proof -
  obtain it where it: "map_of (c_items (w_cache w)) (getCacheKey E i v) = Some it" "it_value it = p"
    using assms(3) by (auto simp: cache_lookup_def cache_Get_def split: option.splits if_splits)
  obtain j u where "getCacheKey E i v = getCacheKey E j u" "entry_coherent w j u p"
    using cache_coherentD [OF assms(1) it(1)] it(2) by metis
  then show ?thesis using getCacheKey_inj [OF assms(2)] by metis
qed

lemma storeInCache_frame [simp]:
  "w_keys (storeInCache E ck p w) = w_keys w" "w_heap (storeInCache E ck p w) = w_heap w"
  "w_net (storeInCache E ck p w) = w_net w" "w_now (storeInCache E ck p w) = w_now w"
  by (simp_all add: storeInCache_def Let_def)

lemma storeInCache_keeps: "keeps w (storeInCache E ck p w)"
  by (simp add: keeps_def storeInCache_def Let_def)

lemma storeInCache_coherent:
  assumes "cache_coherent E w" and "entry_coherent w i v p"
  shows "cache_coherent E (storeInCache E (getCacheKey E i v) p w)"
proof -
  let ?w = "storeInCache E (getCacheKey E i v) p w"
  have kid: "k_ID (deref w p) = i" using assms(2) by (rule entry_coherent_id)
  have items: "map_of (c_items (w_cache ?w)) ck =
      (if ck = getCacheKey E i v
       then Some \<lparr>it_value = p, it_expiresAt = w_now w + c_defaultTTL (w_cache w), it_permanent = False\<rparr>
       else map_of (c_items (w_cache w)) ck)" for ck
    by (simp add: storeInCache_def Let_def cache_Set_def update_conv')
  have ent: "entry_coherent ?w j u q = entry_coherent w j u q" for j u q
    by (simp add: entry_coherent_def deref_def)
  have ix: "indexed E w j ck \<Longrightarrow> indexed E ?w j ck" "indexed E ?w i (getCacheKey E i v)" for j ck
    using kid by (auto simp: indexed_def storeInCache_def Let_def deref_def split: option.splits)
  show ?thesis
    unfolding cache_coherent_def items
    using assms ent ix by (fastforce split: if_splits elim: cache_coherentD)
qed

section \<open>Eviction\<close>

lemma evict_frame:
  "evict E ck w = w\<lparr>w_cache := w_cache (evict E ck w), w_index := w_index (evict E ck w)\<rparr>"
  by (auto simp: evict_def cache_Delete_def cache_delete_def onCacheEvict_def Let_def
      split: option.splits)

lemma evict_items:
  "map_of (c_items (w_cache (evict E ck w))) = (map_of (c_items (w_cache w)))(ck := None)"
  using map_of_cache_delete [of "Some (onCacheEvict E)" ck "(w_cache w, w)"]
  by (auto simp: evict_def cache_Delete_def split: prod.splits)

lemma removeAll_eq_Nil: "removeAll x xs = [] \<longleftrightarrow> set xs \<subseteq> {x}"
  by (induction xs) auto

lemma evict_indexed:
  "indexed E w i ck' \<Longrightarrow> ck' \<noteq> ck \<Longrightarrow> indexed E (evict E ck w) i ck'"
  by (auto simp: evict_def cache_Delete_def cache_delete_def onCacheEvict_def indexed_def Let_def
      removeAll_eq_Nil split: option.splits)

lemma foldl_evict:
  "map_of (c_items (w_cache (foldl (\<lambda>w k. evict E k w) w ks))) ck =
     (if ck \<in> set ks then None else map_of (c_items (w_cache w)) ck)"
  by (induction ks arbitrary: w) (auto simp: evict_items)

lemma foldl_evict_indexed:
  "indexed E w i ck \<Longrightarrow> ck \<notin> set ks \<Longrightarrow> indexed E (foldl (\<lambda>w k. evict E k w) w ks) i ck"
  by (induction ks arbitrary: w) (auto simp: evict_indexed)

lemma invalidateCache_frame:
  "\<exists>c x. invalidateCache E i w = w\<lparr>w_cache := c, w_index := x\<rparr>"
proof -
  have "\<exists>c x. foldl (\<lambda>w k. evict E k w) w ks = w\<lparr>w_cache := c, w_index := x\<rparr>" for ks
  proof (induction ks rule: rev_induct)
    case Nil
    show ?case by (rule exI [of _ "w_cache w"], rule exI [of _ "w_index w"]) simp
  next
    case (snoc k ks)
    then obtain c x where "foldl (\<lambda>w k. evict E k w) w ks = w\<lparr>w_cache := c, w_index := x\<rparr>" by blast
    then show ?case using evict_frame [of E k "w\<lparr>w_cache := c, w_index := x\<rparr>"] by (simp) metis
  qed
  then show ?thesis by (simp add: invalidateCache_def)
qed

lemma invalidateCache_keeps:
  "keeps w (invalidateCache E i w)" "w_keys (invalidateCache E i w) = w_keys w"
  "w_heap (invalidateCache E i w) = w_heap w" "w_net (invalidateCache E i w) = w_net w"
  using invalidateCache_frame [of E i w] by (auto simp: keeps_def)

text \<open>
  Invalidation re-establishes coherence after a write to the rows of \<open>i\<close>: what it leaves in the
  cache belongs to other keys, whose rows the write did not touch.
\<close>

definition only_changes :: "key_id \<Rightarrow> key_table \<Rightarrow> key_table \<Rightarrow> bool" where
  "only_changes i t t' \<longleftrightarrow> (\<forall>j v. j \<noteq> i \<longrightarrow> stored_row t' j v = stored_row t j v)"

lemma invalidateCache_coherent:
  assumes "cache_coherent E w" and "bare_keeps w w1" and "only_changes i (w_keys w) (w_keys w1)"
  shows "cache_coherent E (invalidateCache E i w1)"
    and "cache_lookup E i v (invalidateCache E i w1) = None \<or> \<not> uuid_lib_ok (e_uuid E)"
proof -
  define ks where "ks = (case w_index w1 (KeyID_String (e_uuid E) i) of None \<Rightarrow> [] | Some ks \<Rightarrow> ks)"
  let ?w = "invalidateCache E i w1"
  have w: "?w = foldl (\<lambda>w k. evict E k w) w1 ks" by (simp add: invalidateCache_def ks_def)
  have same: "w_cache w1 = w_cache w" "w_index w1 = w_index w" "keeps w w1"
    using assms(2) by (auto simp: bare_keeps_def)
  have mine: "ck \<in> set ks" if "indexed E w i ck" for ck
    using that same by (auto simp: indexed_def ks_def)
  have left: "\<exists>j v. j \<noteq> i \<and> ck = getCacheKey E j v \<and> entry_coherent w1 j v (it_value it) \<and> indexed E ?w j ck"
    if it: "map_of (c_items (w_cache ?w)) ck = Some it" for ck it
  proof -
    have it': "ck \<notin> set ks" "map_of (c_items (w_cache w)) ck = Some it"
      using it same by (auto simp: w foldl_evict split: if_splits)
    obtain j v where j: "ck = getCacheKey E j v" "entry_coherent w j v (it_value it)" "indexed E w j ck"
      using cache_coherentD [OF assms(1) it'(2)] by blast
    have "j \<noteq> i" using mine j(3) it'(1) by blast
    moreover have "indexed E ?w j ck"
      using foldl_evict_indexed [OF _ it'(1), of E w1 j] j(3) same by (simp add: w indexed_def)
    ultimately show ?thesis
      using j entry_coherent_mono [OF j(2) same(3)] assms(3) by (auto simp: only_changes_def)
  qed
  have ent: "entry_coherent ?w j v p = entry_coherent w1 j v p" for j v p
    by (simp add: entry_coherent_def deref_def invalidateCache_keeps)
  show "cache_coherent E ?w" unfolding cache_coherent_def using left ent by blast
  show "cache_lookup E i v ?w = None \<or> \<not> uuid_lib_ok (e_uuid E)"
  proof (rule ccontr)
    assume "\<not> ?thesis"
    then obtain it where "map_of (c_items (w_cache ?w)) (getCacheKey E i v) = Some it" "uuid_lib_ok (e_uuid E)"
      by (auto simp: cache_lookup_def cache_Get_def split: option.splits)
    with left show False using getCacheKey_inj by metis
  qed
qed

section \<open>The contract through the cache\<close>

text \<open>A repository that leaves the decorators' state alone.\<close>

locale plain_repository = key_repository R inv for R :: key_repo and inv :: "world \<Rightarrow> bool" +
  assumes inv_deco: "inv (w\<lparr>w_cache := c, w_index := x\<rparr>) = inv w"
    and bare_get: "inv w \<Longrightarrow> repo_GetKey R i w = (res, w') \<Longrightarrow> bare_keeps w w'"
    and bare_version: "inv w \<Longrightarrow> repo_GetKeyByVersion R i v w = (res, w') \<Longrightarrow> bare_keeps w w'"
    and version_zero: "repo_GetKeyByVersion R i 0 w \<noteq> (Inr p, w')"
    and bare_metadata: "inv w \<Longrightarrow> repo_GetKeyMetadata R i w = (resm, w') \<Longrightarrow> bare_keeps w w'"
    and bare_list: "inv w \<Longrightarrow> repo_ListKeys R c0 n w = (resl, w') \<Longrightarrow> bare_keeps w w'"
    and bare_create: "inv w \<Longrightarrow> repo_CreateKey R (Some k) w = (resu, w') \<Longrightarrow> row_ok (key_to_row k) \<Longrightarrow>
      bare_keeps w w' \<and> (\<forall>e. resu = Inl e \<longrightarrow> w_keys w' = w_keys w)"
    and bare_update: "inv w \<Longrightarrow> repo_UpdateKeyMetadata R i (Some m) w = (resu, w') \<Longrightarrow>
      for_latest i m (w_keys w) \<Longrightarrow>
      bare_keeps w w' \<and> (\<forall>e. resu = Inl e \<longrightarrow> w_keys w' = w_keys w)"
    and bare_rotate: "inv w \<Longrightarrow> repo_RotateKey R i dek w = (resk, w') \<Longrightarrow>
      bare_keeps w w' \<and> (\<forall>e. resk = Inl e \<longrightarrow> w_keys w' = w_keys w)"
    and bare_revoke: "inv w \<Longrightarrow> repo_RevokeKey R i w = (resu, w') \<Longrightarrow>
      bare_keeps w w' \<and> (\<forall>e. resu = Inl e \<longrightarrow> w_keys w' = w_keys w)"

definition cached_inv :: "env \<Rightarrow> (world \<Rightarrow> bool) \<Rightarrow> world \<Rightarrow> bool" where
  "cached_inv E I w \<longleftrightarrow> I w \<and> uuid_lib_ok (e_uuid E) \<and> cache_coherent E w"

text \<open>The four writes change the rows of one key only.\<close>

lemma only_changes_refl [simp]: "only_changes i t t"
  by (simp add: only_changes_def)

lemma only_changes_revoke: "only_changes i t (revoke_effect now i t)"
  by (auto simp: only_changes_def stored_row_def revoke_effect_def sql_revoke_latest sql_revoke_by_version)

lemma only_changes_update: "only_changes i t (update_effect now i m t)"
  by (auto simp: only_changes_def stored_row_def update_effect_def sql_update_metadata_other)

lemma only_changes_rotate:
  "table_ok t \<Longrightarrow> rotate_effect dbnow i dek t = Some (t', new) \<Longrightarrow> only_changes i t t'"
  by (auto simp: only_changes_def stored_row_def rotate_effect_def sql_rotate_latest(2,3)
      split: sum.splits prod.splits option.splits)

lemma only_changes_create: "only_changes (k_ID k) t (create_effect [k] t)"
proof -
  have "rows_of j (t @ [key_to_row k]) = rows_of j t" if "j \<noteq> k_ID k" for j
    using that by (simp add: rows_of_def key_to_row_def)
  moreover have "sql_by_version j v (t @ [key_to_row k]) = sql_by_version j v t" if "j \<noteq> k_ID k" for j v
    using that by (induction t) (auto simp: sql_by_version_def key_to_row_def)
  ultimately show ?thesis
    by (auto simp: only_changes_def stored_row_def create_effect_def sql_latest_def)
qed

lemma invalidate_on_success_inv:
  assumes inv1: "I w1" and deco: "\<And>v c x. I (v\<lparr>w_cache := c, w_index := x\<rparr>) = I v"
    and "cached_inv E I w" and "bare_keeps w w1" and "only_changes i (w_keys w) (w_keys w1)"
    and "\<And>e. r = Inl e \<Longrightarrow> w_keys w1 = w_keys w"
    and "invalidate_on_success E [i] (r, w1) = (r', w')"
  shows "r' = r" "cached_inv E I w'" "keeps w w'" "w_keys w' = w_keys w1"
proof -
  have coh: "cache_coherent E w" "uuid_lib_ok (e_uuid E)" using assms(3) by (auto simp: cached_inv_def)
  have "r' = r \<and> cached_inv E I w' \<and> keeps w w' \<and> w_keys w' = w_keys w1"
  proof (cases r)
    case (Inl e)
    then have "w' = w1" "r' = r" using assms(7) by (auto simp: invalidate_on_success_def)
    then show ?thesis
      using inv1 coh assms(4,6) Inl cache_coherent_frame [OF coh(1) assms(4)]
      by (auto simp: cached_inv_def dest: bare_keepsD)
  next
    case (Inr x)
    then have w': "w' = invalidateCache E i w1" "r' = r"
      using assms(7) by (auto simp: invalidate_on_success_def)
    obtain c ix where "w' = w1\<lparr>w_cache := c, w_index := ix\<rparr>"
      using invalidateCache_frame [of E i w1] w' by blast
    then have "I w'" using inv1 deco by simp
    moreover have "cache_coherent E w'"
      using invalidateCache_coherent(1) [OF coh(1) assms(4,5)] w' by simp
    moreover have "keeps w w'"
      using keeps_trans [OF bare_keepsD [OF assms(4)] invalidateCache_keeps(1)] w' by simp
    ultimately show ?thesis using coh w' invalidateCache_keeps(2) by (auto simp: cached_inv_def)
  qed
  then show "r' = r" "cached_inv E I w'" "keeps w w'" "w_keys w' = w_keys w1" by auto
qed

context plain_repository
begin

lemma cached_read:
  assumes "cached_inv E inv w" and "inv w1" and "bare_keeps w w1" and "w_keys w1 = w_keys w"
  shows "cached_inv E inv w1 \<and> keeps w w1 \<and> w_keys w1 = w_keys w"
  using assms cache_coherent_frame [of E w w1] by (auto simp: cached_inv_def dest: bare_keepsD)

lemma cached_store:
  assumes "cached_inv E inv w" and "inv w1" and "bare_keeps w w1" and "w_keys w1 = w_keys w"
    and "entry_coherent w1 i v p"
  shows "cached_inv E inv (storeInCache E (getCacheKey E i v) p w1) \<and>
    keeps w (storeInCache E (getCacheKey E i v) p w1) \<and>
    entry_coherent (storeInCache E (getCacheKey E i v) p w1) i v p"
proof -
  let ?w = "storeInCache E (getCacheKey E i v) p w1"
  have r: "cached_inv E inv w1" "keeps w w1" using cached_read [OF assms(1-4)] by auto
  have "inv ?w" using inv_deco assms(2) by (simp add: storeInCache_def Let_def)
  moreover have "cache_coherent E ?w"
    using storeInCache_coherent [OF _ assms(5)] r(1) by (simp add: cached_inv_def)
  ultimately show ?thesis
    using r keeps_trans [OF r(2) storeInCache_keeps] assms(5)
    by (simp add: cached_inv_def entry_coherent_def deref_def)
qed

lemma cached_GetKey_laws:
  assumes "cached_inv E inv w" and "cached_GetKey E R i w = (res, w')"
  shows "cached_inv E inv w' \<and> keeps w w' \<and> w_keys w' = w_keys w \<and>
    (\<forall>p. res = Inr p \<longrightarrow> entry_coherent w' i 0 p)"
proof (cases "cache_lookup E i 0 w")
  case (Some p)
  then show ?thesis
    using assms cache_lookup_coherent [of E w i 0 p] by (auto simp: cached_GetKey_def cached_inv_def)
next
  case None
  obtain r w1 where g: "repo_GetKey R i w = (r, w1)" by (cases "repo_GetKey R i w")
  have iw: "inv w" using assms(1) by (simp add: cached_inv_def)
  note fr = get_frame [OF iw g] bare_get [OF iw g]
  show ?thesis
  proof (cases r)
    case (Inl e)
    with assms None g show ?thesis
      using cached_read [OF assms(1)] fr by (auto simp: cached_GetKey_def)
  next
    case (Inr p)
    have "entry_coherent w1 i 0 p"
      using get_reads [OF iw] g Inr fr by (auto simp: entry_coherent_def stored_row_def)
    with assms None g Inr fr show ?thesis
      using cached_store [OF assms(1), of w1 i 0 p] by (auto simp: cached_GetKey_def)
  qed
qed

lemma cached_GetKeyByVersion_laws:
  assumes "cached_inv E inv w" and "cached_GetKeyByVersion E R i v w = (res, w')"
  shows "cached_inv E inv w' \<and> keeps w w' \<and> w_keys w' = w_keys w \<and>
    (\<forall>p. res = Inr p \<longrightarrow> entry_coherent w' i v p)"
proof (cases "cache_lookup E i v w")
  case (Some p)
  then show ?thesis
    using assms cache_lookup_coherent [of E w i v p]
    by (auto simp: cached_GetKeyByVersion_def cached_inv_def)
next
  case None
  obtain r w1 where g: "repo_GetKeyByVersion R i v w = (r, w1)" by (cases "repo_GetKeyByVersion R i v w")
  have iw: "inv w" using assms(1) by (simp add: cached_inv_def)
  note fr = version_frame [OF iw g] bare_version [OF iw g]
  show ?thesis
  proof (cases r)
    case (Inl e)
    with assms None g show ?thesis
      using cached_read [OF assms(1)] fr by (auto simp: cached_GetKeyByVersion_def)
  next
    case (Inr p)
    have "v \<noteq> 0" using version_zero [of i w p w1] g Inr by auto
    then have "entry_coherent w1 i v p"
      using version_reads [OF iw] g Inr fr by (auto simp: entry_coherent_def stored_row_def)
    with assms None g Inr fr show ?thesis
      using cached_store [OF assms(1), of w1 i v p] by (auto simp: cached_GetKeyByVersion_def)
  qed
qed

lemma cached_GetKeyMetadata_laws:
  assumes "cached_inv E inv w" and "cached_GetKeyMetadata E R i w = (res, w')"
  shows "cached_inv E inv w' \<and> keeps w w' \<and> w_keys w' = w_keys w"
    and "res = Inr md \<Longrightarrow>
      \<exists>r m. sql_latest i (w_keys w) = Some r \<and> r_metadata r = JMeta m \<and> md = Some m"
proof -
  have iw: "inv w" "uuid_lib_ok (e_uuid E)" "cache_coherent E w"
    using assms(1) by (auto simp: cached_inv_def)
  have "cached_inv E inv w' \<and> keeps w w' \<and> w_keys w' = w_keys w \<and> (res = Inr md \<longrightarrow>
      (\<exists>r m. sql_latest i (w_keys w) = Some r \<and> r_metadata r = JMeta m \<and> md = Some m))"
  proof (cases "cache_lookup E i 0 w")
    case (Some p)
    then have w': "w' = w" "res = Inr (k_Metadata (deref w p))"
      using assms(2) by (auto simp: cached_GetKeyMetadata_def)
    obtain r where r: "sql_latest i (w_keys w) = Some r" "row_key r = Some (deref w p)"
      using cache_lookup_coherent [OF iw(3,2) Some] by (auto simp: entry_coherent_def stored_row_def)
    have "row_ok r" using table_ok_row [OF inv_table [OF iw(1)]] sql_latest_mem [OF r(1)] by blast
    then obtain m where "r_metadata r = JMeta m" by (rule row_okE)
    moreover have "k_Metadata (deref w p) = Some m"
      using row_key_metadata [OF r(2) calculation] .
    ultimately show ?thesis using w' r assms(1) by auto
  next
    case None
    then have g: "repo_GetKeyMetadata R i w = (res, w')"
      using assms(2) by (simp add: cached_GetKeyMetadata_def)
    show ?thesis
      using metadata_frame [OF iw(1) g] bare_metadata [OF iw(1) g] cached_read [OF assms(1)]
        metadata_reads [OF iw(1)] g by blast
  qed
  then show "cached_inv E inv w' \<and> keeps w w' \<and> w_keys w' = w_keys w"
    and "res = Inr md \<Longrightarrow>
      \<exists>r m. sql_latest i (w_keys w) = Some r \<and> r_metadata r = JMeta m \<and> md = Some m" by blast+
qed

lemma cached_ListKeys_laws:
  assumes "cached_inv E inv w" and "cached_ListKeys E R c n w = (res, w')"
  shows "cached_inv E inv w' \<and> keeps w w' \<and> w_keys w' = w_keys w"
    and "res = Inr ks \<Longrightarrow> \<exists>rows. sql_list c n (w_keys w) = Inr rows \<and> map Some ks = map row_key rows"
proof -
  have iw: "inv w" using assms(1) by (simp add: cached_inv_def)
  have g: "repo_ListKeys R c n w = (res, w')" using assms(2) by (simp add: cached_ListKeys_def)
  show "cached_inv E inv w' \<and> keeps w w' \<and> w_keys w' = w_keys w"
    using cached_read [OF assms(1)] list_frame [OF iw g] bare_list [OF iw g] by blast
  show "res = Inr ks \<Longrightarrow> \<exists>rows. sql_list c n (w_keys w) = Inr rows \<and> map Some ks = map row_key rows"
    using list_reads [OF iw] g by blast
qed

text \<open>A write through the cache: the wrapped write, then invalidation.\<close>

lemma cached_write:
  assumes "cached_inv E inv w" and "invalidate_on_success E [i] (r, w1) = (res, w')"
    and "inv w1" and "bare_keeps w w1" and "\<forall>e. r = Inl e \<longrightarrow> w_keys w1 = w_keys w"
    and "only_changes i (w_keys w) (w_keys w1)"
  shows "res = r \<and> cached_inv E inv w' \<and> keeps w w' \<and> w_keys w' = w_keys w1"
  using invalidate_on_success_inv [where I = inv, OF assms(3) inv_deco assms(1,4,6) _ assms(2)] assms(5) by blast

lemma cached_CreateKey_laws:
  assumes "cached_inv E inv w" and "cached_CreateKey E R (Some k) w = (res, w')"
    and "row_ok (key_to_row k)"
  shows "cached_inv E inv w' \<and> keeps w w' \<and> w_keys w' \<in> {w_keys w, create_effect [k] (w_keys w)}"
    and "res = Inr u \<Longrightarrow> w_keys w' = create_effect [k] (w_keys w)"
proof -
  obtain r w1 where g: "repo_CreateKey R (Some k) w = (r, w1)" by (cases "repo_CreateKey R (Some k) w")
  have iw: "inv w" using assms(1) by (simp add: cached_inv_def)
  note fr = create_keeps [OF iw g assms(3)] bare_create [OF iw g assms(3)]
  have "only_changes (k_ID k) (w_keys w) (w_keys w1)" using fr only_changes_create by auto
  with cached_write [OF assms(1), of "k_ID k" r w1 res w'] assms(2) g fr
  have out: "res = r \<and> cached_inv E inv w' \<and> keeps w w' \<and> w_keys w' = w_keys w1"
    by (simp add: cached_CreateKey_def)
  then show "cached_inv E inv w' \<and> keeps w w' \<and> w_keys w' \<in> {w_keys w, create_effect [k] (w_keys w)}"
    using fr by auto
  show "res = Inr u \<Longrightarrow> w_keys w' = create_effect [k] (w_keys w)"
    using create_done [OF iw _ assms(3)] g out by auto
qed

lemma cached_UpdateKeyMetadata_laws:
  assumes "cached_inv E inv w" and "cached_UpdateKeyMetadata E R i (Some m) w = (res, w')"
    and "for_latest i m (w_keys w)"
  shows "cached_inv E inv w' \<and> keeps w w' \<and>
      w_keys w' \<in> {w_keys w, update_effect (w_now w) i m (w_keys w)}"
    and "res = Inr u \<Longrightarrow>
      w_keys w' = update_effect (w_now w) i m (w_keys w) \<and> sql_latest i (w_keys w) \<noteq> None"
proof -
  obtain r w1 where g: "repo_UpdateKeyMetadata R i (Some m) w = (r, w1)"
    by (cases "repo_UpdateKeyMetadata R i (Some m) w")
  have iw: "inv w" using assms(1) by (simp add: cached_inv_def)
  note fr = update_keeps [OF iw g assms(3)] bare_update [OF iw g assms(3)]
  have "only_changes i (w_keys w) (w_keys w1)" using fr only_changes_update by auto
  with cached_write [OF assms(1), of i r w1 res w'] assms(2) g fr
  have out: "res = r \<and> cached_inv E inv w' \<and> keeps w w' \<and> w_keys w' = w_keys w1"
    by (simp add: cached_UpdateKeyMetadata_def)
  then show "cached_inv E inv w' \<and> keeps w w' \<and>
      w_keys w' \<in> {w_keys w, update_effect (w_now w) i m (w_keys w)}"
    using fr by auto
  show "res = Inr u \<Longrightarrow>
      w_keys w' = update_effect (w_now w) i m (w_keys w) \<and> sql_latest i (w_keys w) \<noteq> None"
    using update_done [OF iw _ assms(3)] g out by auto
qed

lemma cached_RotateKey_laws:
  assumes "cached_inv E inv w" and "cached_RotateKey E R i dek w = (res, w')"
  shows "cached_inv E inv w' \<and> keeps w w' \<and> (w_keys w' = w_keys w \<or>
      (\<exists>new. rotate_effect (w_dbnow w) i dek (w_keys w) = Some (w_keys w', new)))"
    and "res = Inr k \<Longrightarrow>
      \<exists>new. rotate_effect (w_dbnow w) i dek (w_keys w) = Some (w_keys w', new) \<and> row_key new = Some k"
proof -
  obtain r w1 where g: "repo_RotateKey R i dek w = (r, w1)" by (cases "repo_RotateKey R i dek w")
  have iw: "inv w" using assms(1) by (simp add: cached_inv_def)
  note fr = rotate_keeps [OF iw g] bare_rotate [OF iw g]
  have "only_changes i (w_keys w) (w_keys w1)"
    using fr only_changes_rotate [OF inv_table [OF iw]] by auto
  with cached_write [OF assms(1), of i r w1 res w'] assms(2) g fr
  have out: "res = r \<and> cached_inv E inv w' \<and> keeps w w' \<and> w_keys w' = w_keys w1"
    by (simp add: cached_RotateKey_def)
  then show "cached_inv E inv w' \<and> keeps w w' \<and> (w_keys w' = w_keys w \<or>
      (\<exists>new. rotate_effect (w_dbnow w) i dek (w_keys w) = Some (w_keys w', new)))"
    using fr by auto
  show "res = Inr k \<Longrightarrow>
      \<exists>new. rotate_effect (w_dbnow w) i dek (w_keys w) = Some (w_keys w', new) \<and> row_key new = Some k"
    using rotate_done [OF iw] g out by auto
qed

lemma cached_RevokeKey_laws:
  assumes "cached_inv E inv w" and "cached_RevokeKey E R i w = (res, w')"
  shows "cached_inv E inv w' \<and> keeps w w' \<and> w_keys w' \<in> {w_keys w, revoke_effect (w_now w) i (w_keys w)}"
    and "res = Inr u \<Longrightarrow>
      w_keys w' = revoke_effect (w_now w) i (w_keys w) \<and> sql_latest i (w_keys w) \<noteq> None"
proof -
  obtain r w1 where g: "repo_RevokeKey R i w = (r, w1)" by (cases "repo_RevokeKey R i w")
  have iw: "inv w" using assms(1) by (simp add: cached_inv_def)
  note fr = revoke_keeps [OF iw g] bare_revoke [OF iw g]
  have "only_changes i (w_keys w) (w_keys w1)" using fr only_changes_revoke by auto
  with cached_write [OF assms(1), of i r w1 res w'] assms(2) g fr
  have out: "res = r \<and> cached_inv E inv w' \<and> keeps w w' \<and> w_keys w' = w_keys w1"
    by (simp add: cached_RevokeKey_def)
  then show "cached_inv E inv w' \<and> keeps w w' \<and> w_keys w' \<in> {w_keys w, revoke_effect (w_now w) i (w_keys w)}"
    using fr by auto
  show "res = Inr u \<Longrightarrow>
      w_keys w' = revoke_effect (w_now w) i (w_keys w) \<and> sql_latest i (w_keys w) \<noteq> None"
    using revoke_done [OF iw] g out by auto
qed

end

sublocale plain_repository \<subseteq> cached: key_repository "NewCachedRepository E R" "cached_inv E inv" for E
proof (unfold_locales, unfold NewCachedRepository_sel, goal_cases)
  case (1 w)
  then show ?case by (auto simp: cached_inv_def intro: inv_table)
next
  case 2
  then show ?case using cached_GetKey_laws by blast
next
  case 3
  then show ?case using cached_GetKey_laws by (fastforce simp: entry_coherent_def stored_row_def)
next
  case 4
  then show ?case using cached_GetKeyByVersion_laws by blast
next
  case 5
  then show ?case using cached_GetKeyByVersion_laws by (fastforce simp: entry_coherent_def stored_row_def)
next
  case 6
  then show ?case by (rule cached_GetKeyMetadata_laws(1))
next
  case 7
  then show ?case by (rule cached_GetKeyMetadata_laws(2) [OF _ _ refl])
next
  case 8
  then show ?case by (rule cached_ListKeys_laws(1))
next
  case 9
  then show ?case by (rule cached_ListKeys_laws(2) [OF _ _ refl])
next
  case 10
  then show ?case by (rule cached_CreateKey_laws(1))
next
  case 11
  then show ?case by (intro cached_CreateKey_laws(2) [OF _ _ _ refl])
next
  case 12
  then show ?case by (rule cached_UpdateKeyMetadata_laws(1))
next
  case 13
  then show ?case by (intro cached_UpdateKeyMetadata_laws(2) [OF _ _ _ refl])
next
  case 14
  then show ?case by (rule cached_RotateKey_laws(1))
next
  case 15
  then show ?case by (rule cached_RotateKey_laws(2) [OF _ _ refl])
next
  case 16
  then show ?case by (rule cached_RevokeKey_laws(1))
next
  case 17
  then show ?case by (rule cached_RevokeKey_laws(2) [OF _ _ refl])
qed

section \<open>The adapter under the cache\<close>

text \<open>A write of the adapter that fails leaves the table as it was.\<close>

lemma copy_rows_failed:
  assumes "net_clean w" and "copy_rows msg rows w = (Inl e, w')"
  shows "w_keys w' = w_keys w"
proof -
  let ?f = "\<lambda>t. case sql_copy rows t of Inl e \<Rightarrow> Inl e | Inr t' \<Rightarrow> Inr (t', ())"
  obtain q w1 where db: "db_exec ?f w = (q, w1)" by (cases "db_exec ?f w")
  then obtain e' where "q = Inl e'" "w' = w1"
    using assms(2) by (cases q) (auto simp: copy_rows_def split: if_splits)
  then show ?thesis using db_exec_failed [of ?f w e'] db assms(1) by simp
qed

lemma psql_CreateKey_failed:
  assumes "psql_inv E w" and "psql_CreateKey E (Some k) w = (Inl e, w')"
  shows "w_keys w' = w_keys w"
  using assms copy_rows_failed [of w]
  by (auto simp: psql_CreateKey_def psql_inv_def split: if_splits)

lemma psql_RevokeKey_failed:
  assumes "psql_inv E w" and "psql_RevokeKey E i w = (Inl e, w')"
  shows "w_keys w' = w_keys w"
proof -
  let ?f = "\<lambda>t. Inr (sql_revoke KeyStatusRevoked (w_now w) i t) :: go_error + _"
  obtain q w1 where db: "db_exec ?f w = (q, w1)" by (cases "db_exec ?f w")
  then have w': "w' = w1" using assms(2) by (auto simp: psql_RevokeKey_def split: sum.splits if_splits)
  show ?thesis
  proof (cases q)
    case (Inl e')
    then show ?thesis using db_exec_failed [of ?f w e'] db w' assms(1) by (simp add: psql_inv_def)
  next
    case (Inr n)
    then have "n = 0" using assms(2) db by (auto simp: psql_RevokeKey_def split: if_splits)
    moreover have "sql_revoke KeyStatusRevoked (w_now w) i (w_keys w) = (w_keys w1, n)"
      using db_exec_ok [of ?f w n] db Inr by simp
    ultimately show ?thesis
      using sql_revoke_count [of KeyStatusRevoked "w_now w" i "w_keys w"] w'
        sql_revoke_none [of i "w_keys w" KeyStatusRevoked "w_now w"] by simp
  qed
qed

lemma psql_UpdateKeyMetadata_failed:
  assumes "psql_inv E w" and "psql_UpdateKeyMetadata E i (Some m) w = (Inl e, w')"
  shows "w_keys w' = w_keys w"
proof -
  let ?f = "\<lambda>t. Inr (sql_update_metadata (marshal_metadata (Some m)) (w_now w) i t) :: go_error + _"
  obtain q w1 where db: "db_exec ?f w = (q, w1)" by (cases "db_exec ?f w")
  then have w': "w' = w1"
    using assms(2) by (auto simp: psql_UpdateKeyMetadata_def split: sum.splits if_splits)
  show ?thesis
  proof (cases q)
    case (Inl e')
    then show ?thesis using db_exec_failed [of ?f w e'] db w' assms(1) by (simp add: psql_inv_def)
  next
    case (Inr n)
    then have "n = 0" using assms(2) db by (auto simp: psql_UpdateKeyMetadata_def split: if_splits)
    moreover have "sql_update_metadata (JMeta m) (w_now w) i (w_keys w) = (w_keys w1, n)"
      using db_exec_ok [of ?f w n] db Inr by (simp add: marshal_metadata_def)
    ultimately show ?thesis
      using sql_update_metadata_count [of "JMeta m" "w_now w" i "w_keys w"] w'
        sql_update_metadata_none [of i "w_keys w" "JMeta m" "w_now w"] by simp
  qed
qed

interpretation psql: plain_repository "NewPSQLAdapter E" "psql_inv E" for E
proof (unfold_locales, unfold NewPSQLAdapter_sel, goal_cases)
  case 1
  then show ?case by (simp add: psql_inv_def net_clean_def)
next
  case 2
  then show ?case using psql_GetKey_laws(1) by blast
next
  case 3
  then show ?case using psql_GetKeyByVersion_laws(1) by blast
next
  case 4
  then show ?case by (simp add: psql_GetKeyByVersion_def)
next
  case 5
  then show ?case using psql_GetKeyMetadata_laws(1) by blast
next
  case 6
  then show ?case using psql_ListKeys_laws(1) by blast
next
  case 7
  then show ?case using psql_CreateKey_laws(1) psql_CreateKey_failed by blast
next
  case 8
  then show ?case using psql_UpdateKeyMetadata_laws(1) psql_UpdateKeyMetadata_failed by blast
next
  case 9
  then show ?case using psql_RotateKey_laws(1,3) by blast
next
  case 10
  then show ?case using psql_RevokeKey_laws(1) psql_RevokeKey_failed by blast
qed

end
