(* ===== verification/BreakerRepository.thy ===== *)
theory BreakerRepository
  imports CachedRepository
begin

text \<open>
  The circuit breaker decorator (\<^verbatim>\<open>key_repository_circuit_breaker.go\<close>) and the repository the
  container assembles: the adapter, under the cache, under the breaker when it is enabled.  All
  methods share one breaker.  Through the breaker a call may report an error although it took
  effect; otherwise the contract of the wrapped repository carries over.
\<close>

section \<open>The decorator\<close>

definition through_breaker :: "(world \<Rightarrow> 'a result) \<Rightarrow> world \<Rightarrow> 'a result" where
  "through_breaker fn w =
     (let (r, w1) = race_next w;
          ((w2, b), res) = Execute (w_now w1) (w_now w1) r (\<lambda>v. let (x, v') = fn v in (v', x)) (w1, w_brk w1)
      in (res, w2\<lparr>w_brk := b\<rparr>))"

definition cb_GetKey :: "key_repo \<Rightarrow> key_id \<Rightarrow> world \<Rightarrow> nat result" where
  "cb_GetKey repo i = through_breaker (repo_GetKey repo i)"

definition cb_GetKeyByVersion :: "key_repo \<Rightarrow> key_id \<Rightarrow> int \<Rightarrow> world \<Rightarrow> nat result" where
  "cb_GetKeyByVersion repo i version = through_breaker (repo_GetKeyByVersion repo i version)"

definition cb_GetKeyMetadata :: "key_repo \<Rightarrow> key_id \<Rightarrow> world \<Rightarrow> key_metadata option result" where
  "cb_GetKeyMetadata repo i = through_breaker (repo_GetKeyMetadata repo i)"

definition cb_GetKeyMetadataByVersion ::
  "key_repo \<Rightarrow> key_id \<Rightarrow> int \<Rightarrow> world \<Rightarrow> key_metadata option result" where
  "cb_GetKeyMetadataByVersion repo i version =
     through_breaker (repo_GetKeyMetadataByVersion repo i version)"

definition cb_CreateKey :: "key_repo \<Rightarrow> key option \<Rightarrow> world \<Rightarrow> unit result" where
  "cb_CreateKey repo ko = through_breaker (repo_CreateKey repo ko)"

definition cb_CreateBatchKeys :: "key_repo \<Rightarrow> key list \<Rightarrow> world \<Rightarrow> unit result" where
  "cb_CreateBatchKeys repo ks = through_breaker (repo_CreateBatchKeys repo ks)"

definition cb_ListKeys :: "key_repo \<Rightarrow> time option \<Rightarrow> int \<Rightarrow> world \<Rightarrow> key list result" where
  "cb_ListKeys repo lastCreatedAt limit = through_breaker (repo_ListKeys repo lastCreatedAt limit)"

definition cb_UpdateKeyMetadata ::
  "key_repo \<Rightarrow> key_id \<Rightarrow> key_metadata option \<Rightarrow> world \<Rightarrow> unit result" where
  "cb_UpdateKeyMetadata repo i md = through_breaker (repo_UpdateKeyMetadata repo i md)"

definition cb_RotateKey :: "key_repo \<Rightarrow> key_id \<Rightarrow> bytes \<Rightarrow> world \<Rightarrow> key result" where
  "cb_RotateKey repo i dek = through_breaker (repo_RotateKey repo i dek)"

definition cb_RevokeKey :: "key_repo \<Rightarrow> key_id \<Rightarrow> world \<Rightarrow> unit result" where
  "cb_RevokeKey repo i = through_breaker (repo_RevokeKey repo i)"

definition cb_GetKeyVersions :: "key_repo \<Rightarrow> key_id \<Rightarrow> world \<Rightarrow> key list result" where
  "cb_GetKeyVersions repo i = through_breaker (repo_GetKeyVersions repo i)"

definition cb_Exists :: "key_repo \<Rightarrow> key_id \<Rightarrow> world \<Rightarrow> bool result" where
  "cb_Exists repo i = through_breaker (repo_Exists repo i)"

definition cb_GetBatchKeys :: "key_repo \<Rightarrow> key_id list \<Rightarrow> world \<Rightarrow> key list result" where
  "cb_GetBatchKeys repo ids = through_breaker (repo_GetBatchKeys repo ids)"

definition cb_GetBatchKeyMetadata :: "key_repo \<Rightarrow> key_id list \<Rightarrow> world \<Rightarrow> key_metadata list result" where
  "cb_GetBatchKeyMetadata repo ids = through_breaker (repo_GetBatchKeyMetadata repo ids)"

definition cb_RevokeBatchKeys :: "key_repo \<Rightarrow> key_id list \<Rightarrow> world \<Rightarrow> unit result" where
  "cb_RevokeBatchKeys repo ids = through_breaker (repo_RevokeBatchKeys repo ids)"

definition cb_UpdateBatchKeyMetadata :: "key_repo \<Rightarrow> nat list \<Rightarrow> world \<Rightarrow> unit result" where
  "cb_UpdateBatchKeyMetadata repo ps = through_breaker (repo_UpdateBatchKeyMetadata repo ps)"

text \<open>The methods of the wrapped repository and its breaker's initial state.\<close>

definition NewKeyRepositoryCircuitBreaker :: "key_repo \<Rightarrow> key_repo" where
  "NewKeyRepositoryCircuitBreaker repo =
     \<lparr>repo_GetKey = cb_GetKey repo, repo_GetKeyByVersion = cb_GetKeyByVersion repo,
      repo_GetKeyMetadata = cb_GetKeyMetadata repo,
      repo_GetKeyMetadataByVersion = cb_GetKeyMetadataByVersion repo,
      repo_CreateKey = cb_CreateKey repo, repo_CreateBatchKeys = cb_CreateBatchKeys repo,
      repo_ListKeys = cb_ListKeys repo, repo_UpdateKeyMetadata = cb_UpdateKeyMetadata repo,
      repo_RotateKey = cb_RotateKey repo, repo_RevokeKey = cb_RevokeKey repo,
      repo_GetKeyVersions = cb_GetKeyVersions repo, repo_Exists = cb_Exists repo,
      repo_GetBatchKeys = cb_GetBatchKeys repo,
      repo_GetBatchKeyMetadata = cb_GetBatchKeyMetadata repo,
      repo_RevokeBatchKeys = cb_RevokeBatchKeys repo,
      repo_UpdateBatchKeyMetadata = cb_UpdateBatchKeyMetadata repo\<rparr>"

definition new_repo_breaker :: "int \<Rightarrow> time \<Rightarrow> breaker" where
  "new_repo_breaker maxFailures resetTimeout = breaker_New maxFailures [WithResetTimeout resetTimeout]"

lemma NewKeyRepositoryCircuitBreaker_sel [simp]:
  "repo_GetKey (NewKeyRepositoryCircuitBreaker R) = cb_GetKey R"
  "repo_GetKeyByVersion (NewKeyRepositoryCircuitBreaker R) = cb_GetKeyByVersion R"
  "repo_GetKeyMetadata (NewKeyRepositoryCircuitBreaker R) = cb_GetKeyMetadata R"
  "repo_CreateKey (NewKeyRepositoryCircuitBreaker R) = cb_CreateKey R"
  "repo_ListKeys (NewKeyRepositoryCircuitBreaker R) = cb_ListKeys R"
  "repo_UpdateKeyMetadata (NewKeyRepositoryCircuitBreaker R) = cb_UpdateKeyMetadata R"
  "repo_RotateKey (NewKeyRepositoryCircuitBreaker R) = cb_RotateKey R"
  "repo_RevokeKey (NewKeyRepositoryCircuitBreaker R) = cb_RevokeKey R"
  by (simp_all add: NewKeyRepositoryCircuitBreaker_def)

text \<open>\<^verbatim>\<open>Container.initKeyRepository\<close>.\<close>

definition initKeyRepository :: "env \<Rightarrow> bool \<Rightarrow> key_repo" where
  "initKeyRepository E breaker_enabled =
     (let baseRepo = NewPSQLAdapter E;
          cachedRepo = NewCachedRepository E baseRepo
      in if breaker_enabled then NewKeyRepositoryCircuitBreaker cachedRepo else cachedRepo)"

section \<open>A call through the breaker\<close>

definition popped :: "world \<Rightarrow> world" where
  "popped w = w\<lparr>w_races := tl (w_races w)\<rparr>"

definition race_head :: "world \<Rightarrow> race" where
  "race_head w = (case w_races w of [] \<Rightarrow> FnFirst | r # rs \<Rightarrow> r)"

lemma through_breaker_eq:
  assumes "fn (popped w) = (x, v')" and "canExecute (w_now w) (w_brk w) = (ok, b1)"
  shows "through_breaker fn w =
    (if \<not> ok then (Inl (Sentinel CbErrOpen), (popped w)\<lparr>w_brk := b1\<rparr>)
     else case race_head w of
       FnFirst \<Rightarrow> (x, v'\<lparr>w_brk := recordResult (w_now w) (case x of Inl e \<Rightarrow> Some e | Inr _ \<Rightarrow> None) b1\<rparr>)
     | DeadlineFirst applied \<Rightarrow> (Inl (Sentinel CbErrTimeout), (if applied then v' else popped w)
         \<lparr>w_brk := recordResult (w_now w) (Some (Sentinel CbErrTimeout)) b1\<rparr>)
     | CancelFirst applied \<Rightarrow> (Inl (Sentinel CtxCanceled), (if applied then v' else popped w)
         \<lparr>w_brk := recordResult (w_now w) (Some (Sentinel CtxCanceled)) b1\<rparr>))"
proof -
  have rn: "race_next w = (race_head w, popped w)"
    by (simp add: race_next_def popped_def race_head_def)
  have pop: "w_now (popped w) = w_now w" "w_brk (popped w) = w_brk w" by (simp_all add: popped_def)
  show ?thesis
    using assms
    by (cases x; cases "race_head w") (simp_all add: through_breaker_def rn pop Execute_def)
qed

lemma through_breaker_cases:
  assumes "through_breaker fn w = (res, w')"
  obtains (refused) b e where "w' = (popped w)\<lparr>w_brk := b\<rparr>" "res = Inl e"
  | (hidden) b x v' e where "fn (popped w) = (x, v')" "w' = v'\<lparr>w_brk := b\<rparr>" "res = Inl e"
  | (seen) b v' where "fn (popped w) = (res, v')" "w' = v'\<lparr>w_brk := b\<rparr>"
proof -
  obtain x v' where f: "fn (popped w) = (x, v')" by (cases "fn (popped w)")
  obtain ok b1 where c: "canExecute (w_now w) (w_brk w) = (ok, b1)"
    by (cases "canExecute (w_now w) (w_brk w)")
  note eq = assms [unfolded through_breaker_eq [where fn = fn and w = w, OF f c]]
  consider "\<not> ok" | "ok" "race_head w = FnFirst"
    | "ok" "race_head w \<in> {DeadlineFirst True, CancelFirst True}"
    | "ok" "race_head w \<in> {DeadlineFirst False, CancelFirst False}"
    by (cases "race_head w") auto
  then show thesis
  proof cases
    case 1
    with eq show thesis by (intro refused) auto
  next
    case 2
    with eq f show thesis by (intro seen) auto
  next
    case 3
    with eq f show thesis by (elim insertE emptyE) (auto intro: hidden)
  next
    case 4
    with eq show thesis by (elim insertE emptyE) (auto intro: refused)
  qed
qed

lemma through_breaker_inv:
  "breaker_inv (w_brk w) \<Longrightarrow> through_breaker fn w = (res, w') \<Longrightarrow> breaker_inv (w_brk w')"
  using Execute_inv [of "w_brk w" "w_now w" "w_now w" "fst (race_next w)" "\<lambda>v. let (x, v') = fn v in (v', x)" "popped w"]
  by (auto simp: through_breaker_def race_next_def popped_def Let_def split: prod.splits)

text \<open>While the breaker is closed and the call wins its race, the breaker is transparent.\<close>

lemma through_breaker_transparent:
  assumes "b_state (w_brk w) = StateClosed" and "w_races w = []" and "fn w = (res, v)"
  shows "\<exists>b. through_breaker fn w = (res, v\<lparr>w_brk := b\<rparr>)"
proof -
  have "w\<lparr>w_races := w_races w\<rparr> = w" by simp
  then have "race_next w = (FnFirst, w)" using assms(2) by (simp add: race_next_def)
  then show ?thesis
    using assms(1,3)
    by (auto simp: through_breaker_def Execute_def canExecute_def split: sum.splits)
qed

text \<open>An open breaker answers without touching the wrapped repository.\<close>

lemma through_breaker_open:
  assumes "opened_at t (w_brk w)" and "fits_int64 (t + b_resetTimeout (w_brk w))"
    and "w_now w \<le> t + b_resetTimeout (w_brk w)"
  shows "through_breaker fn w = (Inl (Sentinel CbErrOpen), popped w)"
  by (simp add: through_breaker_def race_next_def popped_def Execute_open [OF assms(1,2,3)])

section \<open>The contract through the breaker\<close>

locale breakable_repository = key_repository R inv for R :: key_repo and inv :: "world \<Rightarrow> bool" +
  assumes inv_brk: "inv (w\<lparr>w_brk := b, w_races := rs\<rparr>) = inv w"
begin

lemma inv_brk_only: "inv (w\<lparr>w_brk := b\<rparr>) = inv w"
  using inv_brk [where b = b and rs = "w_races w" and w = w] by simp

lemma inv_popped: "inv (popped w) = inv w"
  using inv_brk [where b = "w_brk w" and rs = "tl (w_races w)" and w = w] by (simp add: popped_def)

end

definition cb_inv :: "(world \<Rightarrow> bool) \<Rightarrow> world \<Rightarrow> bool" where
  "cb_inv I w \<longleftrightarrow> I w \<and> breaker_inv (w_brk w)"

lemma popped_sel [simp]:
  "w_keys (popped w) = w_keys w" "w_now (popped w) = w_now w" "w_dbnow (popped w) = w_dbnow w"
  "w_heap (popped w) = w_heap w" "w_net (popped w) = w_net w" "w_brk (popped w) = w_brk w"
  by (simp_all add: popped_def)

lemma keeps_popped: "keeps (popped w) w' \<Longrightarrow> keeps w (w'\<lparr>w_brk := b\<rparr>)"
  by (simp add: keeps_def popped_def)

lemma deref_brk [simp]: "deref (w\<lparr>w_brk := b\<rparr>) p = deref w p"
  by (simp add: deref_def)

text \<open>What a call does to the state and what it returns, from a law of the wrapped call.\<close>

lemma through_breaker_law:
  assumes brk: "\<And>v b. I (v\<lparr>w_brk := b\<rparr>) = I v" and pop: "I (popped w) = I w"
    and inv: "cb_inv I w" and call: "through_breaker fn w = (res, w')"
    and law: "\<And>x v'. fn (popped w) = (x, v') \<Longrightarrow> I v' \<and> keeps (popped w) v' \<and> T (w_keys v')"
    and same: "T (w_keys w)"
  shows "cb_inv I w' \<and> keeps w w' \<and> T (w_keys w')"
proof -
  have b: "breaker_inv (w_brk w')" using through_breaker_inv call inv by (auto simp: cb_inv_def)
  have i: "I (popped w)" using pop inv by (simp add: cb_inv_def)
  show ?thesis
    using call
  proof (cases rule: through_breaker_cases)
    case (refused c e)
    then show ?thesis using b i brk same keeps_popped [of w "popped w" c] by (simp add: cb_inv_def)
  next
    case (hidden c x v' e)
    then show ?thesis using b brk law [OF hidden(1)] keeps_popped [of w v' c] by (simp add: cb_inv_def)
  next
    case (seen c v')
    then show ?thesis using b brk law [OF seen(1)] keeps_popped [of w v' c] by (simp add: cb_inv_def)
  qed
qed

lemma through_breaker_ok:
  assumes "through_breaker fn w = (Inr x, w')"
  obtains b v' where "fn (popped w) = (Inr x, v')" "w' = v'\<lparr>w_brk := b\<rparr>"
  using assms by (cases rule: through_breaker_cases) auto

context breakable_repository
begin

lemma breaker_call:
  assumes "cb_inv inv w" and "through_breaker fn w = (res, w')"
    and "\<And>x v'. fn (popped w) = (x, v') \<Longrightarrow> inv v' \<and> keeps (popped w) v' \<and> T (w_keys v')"
    and "T (w_keys w)"
  shows "cb_inv inv w' \<and> keeps w w' \<and> T (w_keys w')"
  using through_breaker_law [where I = inv and T = T, OF inv_brk_only inv_popped assms(1,2)] assms(3,4)
  by blast

lemma cb_popped: "cb_inv inv w \<Longrightarrow> inv (popped w)"
  by (simp add: cb_inv_def inv_popped)

lemma cb_read:
  assumes "cb_inv inv w" and "through_breaker fn w = (res, w')"
    and "\<And>x v'. fn (popped w) = (x, v') \<Longrightarrow> inv v' \<and> keeps (popped w) v' \<and> w_keys v' = w_keys w"
  shows "cb_inv inv w' \<and> keeps w w' \<and> w_keys w' = w_keys w"
  using breaker_call [OF assms(1,2), of "\<lambda>t. t = w_keys w"] assms(3) by blast

end

sublocale breakable_repository \<subseteq> breaker: key_repository "NewKeyRepositoryCircuitBreaker R" "cb_inv inv"
proof (unfold_locales, unfold NewKeyRepositoryCircuitBreaker_sel, goal_cases)
  case (1 w)
  then show ?case by (auto simp: cb_inv_def intro: inv_table)
next
  case (2 w i res w')
  from get_frame [OF cb_popped [OF 2(1)]] show ?case
    by (intro cb_read [OF 2(1) 2(2) [unfolded cb_GetKey_def]]) simp
next
  case (3 w i p w')
  from 3(2) obtain b v' where v: "repo_GetKey R i (popped w) = (Inr p, v')" "w' = v'\<lparr>w_brk := b\<rparr>"
    unfolding cb_GetKey_def by (rule through_breaker_ok)
  from get_reads [OF cb_popped [OF 3(1)] v(1)] v(2) show ?case by simp
next
  case (4 w i v res w')
  from version_frame [OF cb_popped [OF 4(1)]] show ?case
    by (intro cb_read [OF 4(1) 4(2) [unfolded cb_GetKeyByVersion_def]]) simp
next
  case (5 w i v p w')
  from 5(2) obtain b v' where v': "repo_GetKeyByVersion R i v (popped w) = (Inr p, v')" "w' = v'\<lparr>w_brk := b\<rparr>"
    unfolding cb_GetKeyByVersion_def by (rule through_breaker_ok)
  from version_reads [OF cb_popped [OF 5(1)] v'(1) 5(3)] v'(2) show ?case by simp
next
  case (6 w i res w')
  from metadata_frame [OF cb_popped [OF 6(1)]] show ?case
    by (intro cb_read [OF 6(1) 6(2) [unfolded cb_GetKeyMetadata_def]]) simp
next
  case (7 w i md w')
  from 7(2) obtain b v' where v: "repo_GetKeyMetadata R i (popped w) = (Inr md, v')"
    unfolding cb_GetKeyMetadata_def by (rule through_breaker_ok)
  from metadata_reads [OF cb_popped [OF 7(1)] v] show ?case by simp
next
  case (8 w c n res w')
  from list_frame [OF cb_popped [OF 8(1)]] show ?case
    by (intro cb_read [OF 8(1) 8(2) [unfolded cb_ListKeys_def]]) simp
next
  case (9 w c n ks w')
  from 9(2) obtain b v' where v: "repo_ListKeys R c n (popped w) = (Inr ks, v')"
    unfolding cb_ListKeys_def by (rule through_breaker_ok)
  from list_reads [OF cb_popped [OF 9(1)] v] show ?case by simp
next
  case (10 w k res w')
  from create_keeps [OF cb_popped [OF 10(1)] _ 10(3)] show ?case
    by (intro breaker_call [OF 10(1) 10(2) [unfolded cb_CreateKey_def]]) simp_all
next
  case (11 w k u w')
  from 11(2) obtain b v' where v: "repo_CreateKey R (Some k) (popped w) = (Inr u, v')" "w' = v'\<lparr>w_brk := b\<rparr>"
    unfolding cb_CreateKey_def by (rule through_breaker_ok)
  from create_done [OF cb_popped [OF 11(1)] v(1) 11(3)] v(2) show ?case by simp
next
  case (12 w i m res w')
  from update_keeps [OF cb_popped [OF 12(1)]] 12(3) show ?case
    by (intro breaker_call [OF 12(1) 12(2) [unfolded cb_UpdateKeyMetadata_def]]) simp_all
next
  case (13 w i m u w')
  from 13(2) obtain b v' where v: "repo_UpdateKeyMetadata R i (Some m) (popped w) = (Inr u, v')" "w' = v'\<lparr>w_brk := b\<rparr>"
    unfolding cb_UpdateKeyMetadata_def by (rule through_breaker_ok)
  from update_done [OF cb_popped [OF 13(1)] v(1)] 13(3) v(2) show ?case by simp
next
  case (14 w i dek res w')
  from rotate_keeps [OF cb_popped [OF 14(1)]] show ?case
    by (intro breaker_call [OF 14(1) 14(2) [unfolded cb_RotateKey_def]]) simp_all
next
  case (15 w i dek k w')
  from 15(2) obtain b v' where v: "repo_RotateKey R i dek (popped w) = (Inr k, v')" "w' = v'\<lparr>w_brk := b\<rparr>"
    unfolding cb_RotateKey_def by (rule through_breaker_ok)
  from rotate_done [OF cb_popped [OF 15(1)] v(1)] v(2) show ?case by simp
next
  case (16 w i res w')
  from revoke_keeps [OF cb_popped [OF 16(1)]] show ?case
    by (intro breaker_call [OF 16(1) 16(2) [unfolded cb_RevokeKey_def]]) simp_all
next
  case (17 w i u w')
  from 17(2) obtain b v' where v: "repo_RevokeKey R i (popped w) = (Inr u, v')" "w' = v'\<lparr>w_brk := b\<rparr>"
    unfolding cb_RevokeKey_def by (rule through_breaker_ok)
  from revoke_done [OF cb_popped [OF 17(1)] v(1)] v(2) show ?case by simp
qed

section \<open>The assembled repository\<close>

text \<open>The invariant of what \<^verbatim>\<open>initKeyRepository\<close> builds.\<close>

definition repo_inv :: "env \<Rightarrow> world \<Rightarrow> bool" where
  "repo_inv E = cb_inv (cached_inv E (psql_inv E))"

lemma cached_inv_brk:
  "cached_inv E (psql_inv E) (w\<lparr>w_brk := b, w_races := rs\<rparr>) = cached_inv E (psql_inv E) w"
  by (simp add: cached_inv_def psql_inv_def net_clean_def cache_coherent_def entry_coherent_def
      indexed_def deref_def)

interpretation prod: breakable_repository "NewCachedRepository E (NewPSQLAdapter E)" "cached_inv E (psql_inv E)" for E
  by unfold_locales (rule cached_inv_brk)

text \<open>The invariant holds at start: no key cached, a well-formed table, a fresh breaker.\<close>

lemma new_repo_breaker_inv: "0 < n \<Longrightarrow> breaker_inv (new_repo_breaker n d)"
  by (simp add: new_repo_breaker_def breaker_New_def WithResetTimeout_def breaker_inv_def)

lemma new_key_cache_items: "c_items new_key_cache = []"
  by (simp add: new_key_cache_def cache_New_def WithDefaultTTL_def WithCleanupInterval_def)

lemma initial_inv:
  assumes "uuid_lib_ok (e_uuid E)" and "table_ok (w_keys w)" and "net_clean w"
    and "w_cache w = new_key_cache" and "w_brk w = new_repo_breaker n d" and "0 < n"
  shows "repo_inv E w"
  using assms new_repo_breaker_inv
  by (simp add: repo_inv_def cb_inv_def cached_inv_def psql_inv_def cache_coherent_def new_key_cache_items)

end
