(* ===== verification/KMS.thy ===== *)
theory KMS
  imports Repository
begin

text \<open>
  The key management providers of \<^verbatim>\<open>internal/kms\<close>: the local one (AES-GCM under a key derived
  from the master key, with a cache of derived keys) and the AWS one (calls of the AWS client
  under retry).  The cipher, the key derivation and the AWS client are parameters; what the code
  relies on is that opening inverts sealing and that decrypting inverts encrypting.  The locale
  \<open>kms\<close> is the interface \<^verbatim>\<open>KMSProvider\<close> as the key service uses it.
\<close>

section \<open>Parameters\<close>

record crypto_lib =
  gcm_Seal :: "bytes \<Rightarrow> bytes \<Rightarrow> bytes \<Rightarrow> bytes"  \<comment> \<open>key, nonce, plaintext\<close>
  gcm_Open :: "bytes \<Rightarrow> bytes \<Rightarrow> bytes \<Rightarrow> go_error + bytes"
  hkdf_Read :: "bytes \<Rightarrow> bytes \<Rightarrow> bytes \<Rightarrow> nat \<Rightarrow> go_error + bytes"  \<comment> \<open>secret, salt, info, length\<close>
  sha256_Sum :: "bytes \<Rightarrow> bytes"

definition gcm_NonceSize :: nat where "gcm_NonceSize = 12"

definition aes_key_size :: "nat \<Rightarrow> bool" where
  "aes_key_size n \<longleftrightarrow> n = 16 \<or> n = 24 \<or> n = 32"

text \<open>Documented behaviour of AES-GCM and of HKDF.\<close>

definition crypto_ok :: "crypto_lib \<Rightarrow> bool" where
  "crypto_ok C \<longleftrightarrow>
     (\<forall>k n p. aes_key_size (length k) \<longrightarrow> length n = gcm_NonceSize \<longrightarrow>
        gcm_Open C k n (gcm_Seal C k n p) = Inr p) \<and>
     (\<forall>s salt info n d. hkdf_Read C s salt info n = Inr d \<longrightarrow> length d = n)"

text \<open>\<^verbatim>\<open>crypto/rand\<close> fills the buffer or fails.\<close>

definition env_ok :: "env \<Rightarrow> bool" where
  "env_ok E \<longleftrightarrow> uuid_lib_ok (e_uuid E) \<and> (\<forall>d n b. e_rand E d n = Some b \<longrightarrow> length b = n)"

definition rand_Read :: "env \<Rightarrow> nat \<Rightarrow> world \<Rightarrow> bytes result" where
  "rand_Read E n w =
     (let (d, w1) = next_draw w
      in case e_rand E d n of
           None \<Rightarrow> (Inl (Plain ''entropy source failed''), w1)
         | Some b \<Rightarrow> (Inr b, w1))"

section \<open>base64\<close>

text \<open>
  \<^verbatim>\<open>base64.StdEncoding.DecodeString\<close>: line breaks are skipped, padding is required, the unused
  bits of the last quantum are not checked.  The offset in the error text is left out.
\<close>

definition b64_value :: "char \<Rightarrow> nat option" where
  "b64_value c =
     (let n = of_char c in
      if 65 \<le> n \<and> n \<le> 90 then Some (n - 65)
      else if 97 \<le> n \<and> n \<le> 122 then Some (n - 71)
      else if 48 \<le> n \<and> n \<le> 57 then Some (n + 4)
      else if n = 43 then Some 62
      else if n = 47 then Some 63 else None)"

definition b64_bytes :: "nat \<Rightarrow> nat \<Rightarrow> nat \<Rightarrow> nat \<Rightarrow> bytes" where
  "b64_bytes a b c d =
     (let v = 262144 * a + 4096 * b + 64 * c + d
      in [of_nat (v div 65536), of_nat (v div 256 mod 256), of_nat (v mod 256)])"

fun b64_quanta :: "string \<Rightarrow> bytes option" where
  "b64_quanta [] = Some []"
| "b64_quanta (a # b # c # d # rest) =
     (case (b64_value a, b64_value b) of
        (Some va, Some vb) \<Rightarrow>
          if c = CHR ''='' then
            (if d = CHR ''='' \<and> rest = [] then Some (take 1 (b64_bytes va vb 0 0)) else None)
          else (case b64_value c of
            None \<Rightarrow> None
          | Some vc \<Rightarrow>
              if d = CHR ''='' then
                (if rest = [] then Some (take 2 (b64_bytes va vb vc 0)) else None)
              else (case (b64_value d, b64_quanta rest) of
                (Some vd, Some r) \<Rightarrow> Some (b64_bytes va vb vc vd @ r)
              | _ \<Rightarrow> None))
      | _ \<Rightarrow> None)"
| "b64_quanta _ = None"

definition base64_DecodeString :: "string \<Rightarrow> go_error + bytes" where
  "base64_DecodeString s =
     (case b64_quanta (filter (\<lambda>c. c \<noteq> CHR 0x0A \<and> c \<noteq> CHR 0x0D) s) of
        None \<Rightarrow> Inl (Plain ''illegal base64 data'')
      | Some b \<Rightarrow> Inr b)"

section \<open>The local provider\<close>

definition string_bytes :: "string \<Rightarrow> bytes" where
  "string_bytes s = map (\<lambda>c. of_nat (of_char c)) s"

definition DeriveKey :: "crypto_lib \<Rightarrow> bytes \<Rightarrow> bytes \<Rightarrow> bytes \<Rightarrow> nat \<Rightarrow> go_error + bytes" where
  "DeriveKey C masterKey salt info keyLength =
     (if masterKey = [] then Inl (Plain ''master key cannot be empty'')
      else if salt = [] then Inl (Plain ''salt cannot be empty'')
      else case hkdf_Read C masterKey salt info keyLength of
             Inl err \<Rightarrow> Inl (wrapf ''failed to derive key using HKDF'' err)
           | Inr k \<Rightarrow> Inr k)"

definition localKmsTimeout :: time where "localKmsTimeout = 1 * second"
definition derivedKeyCacheTTL :: time where "derivedKeyCacheTTL = 1 * hour"
definition derivedKeyCacheClean :: time where "derivedKeyCacheClean = 5 * minute"

text \<open>The master key and the derived-key cache of a new provider.\<close>

definition NewLocalKMSProvider :: "string \<Rightarrow> go_error + bytes \<times> (string, bytes) cache" where
  "NewLocalKMSProvider masterKey =
     (case base64_DecodeString masterKey of
        Inl err \<Rightarrow> Inl (wrapf ''failed to decode master key'' err)
      | Inr k \<Rightarrow> Inr (k, cache_New [WithDefaultTTL derivedKeyCacheTTL,
                                    WithCleanupInterval derivedKeyCacheClean]))"

definition derive_for :: "env \<Rightarrow> crypto_lib \<Rightarrow> bytes \<Rightarrow> key_id \<Rightarrow> go_error + bytes" where
  "derive_for E C masterKey i =
     (let s = KeyID_String (e_uuid E) i
      in DeriveKey C masterKey (string_bytes (''polykey-salt:'' @ s)) (string_bytes s) 32)"

definition getDerivedKey :: "env \<Rightarrow> crypto_lib \<Rightarrow> bytes \<Rightarrow> key \<Rightarrow> world \<Rightarrow> bytes result" where
  "getDerivedKey E C masterKey k w =
     (let cacheKey = KeyID_String (e_uuid E) (k_ID k)
      in case cache_Get (w_now w) cacheKey (w_dkc w) of
           Some d \<Rightarrow> (Inr d, w)
         | None \<Rightarrow>
             (case derive_for E C masterKey (k_ID k) of
                Inl err \<Rightarrow> (Inl (wrapf ''failed to derive key'' err), w)
              | Inr d \<Rightarrow> (Inr d, w\<lparr>w_dkc := cache_Set (w_now w) cacheKey d 0 (w_dkc w)\<rparr>)))"

definition cipher_error :: "bytes \<Rightarrow> go_error option" where
  "cipher_error k =
     (if aes_key_size (length k) then None
      else Some (wrapf ''failed to create cipher''
                   (Plain (''crypto/aes: invalid key size '' @ itoa (int (length k))))))"

definition encryptWithKey :: "env \<Rightarrow> crypto_lib \<Rightarrow> bytes \<Rightarrow> bytes \<Rightarrow> world \<Rightarrow> bytes result" where
  "encryptWithKey E C k plaintext w =
     (case cipher_error k of
        Some err \<Rightarrow> (Inl err, w)
      | None \<Rightarrow>
          (case rand_Read E gcm_NonceSize w of
             (Inl err, w1) \<Rightarrow> (Inl (wrapf ''failed to generate nonce'' err), w1)
           | (Inr nonce, w1) \<Rightarrow> (Inr (nonce @ gcm_Seal C k nonce plaintext), w1)))"

definition decryptWithKey :: "crypto_lib \<Rightarrow> bytes \<Rightarrow> bytes \<Rightarrow> go_error + bytes" where
  "decryptWithKey C k ciphertext =
     (if ciphertext = [] then Inl (Plain ''no encrypted DEK found in key'')
      else case cipher_error k of
        Some err \<Rightarrow> Inl err
      | None \<Rightarrow>
          if length ciphertext < gcm_NonceSize then Inl (Plain ''encrypted DEK too short'')
          else gcm_Open C k (take gcm_NonceSize ciphertext) (drop gcm_NonceSize ciphertext))"

definition local_EncryptDEK ::
  "env \<Rightarrow> crypto_lib \<Rightarrow> bytes \<Rightarrow> bytes \<Rightarrow> key \<Rightarrow> world \<Rightarrow> bytes result" where
  "local_EncryptDEK E C masterKey plaintextDEK k =
     WithTimeout localKmsTimeout (\<lambda>w.
       case getDerivedKey E C masterKey k w of
         (Inl err, w1) \<Rightarrow> (Inl err, w1)
       | (Inr d, w1) \<Rightarrow> encryptWithKey E C d plaintextDEK w1)"

definition local_DecryptDEK :: "env \<Rightarrow> crypto_lib \<Rightarrow> bytes \<Rightarrow> key \<Rightarrow> world \<Rightarrow> bytes result" where
  "local_DecryptDEK E C masterKey k =
     WithTimeout localKmsTimeout (\<lambda>w.
       case getDerivedKey E C masterKey k w of
         (Inl err, w1) \<Rightarrow> (Inl err, w1)
       | (Inr d, w1) \<Rightarrow>
           (case decryptWithKey C d (k_EncryptedDEK k) of
              Inr p \<Rightarrow> (Inr p, w1)
            | Inl _ \<Rightarrow> (decryptWithKey C masterKey (k_EncryptedDEK k), w1)))"

text \<open>The interface \<^verbatim>\<open>KMSProvider\<close>.\<close>

record kms_provider =
  kms_EncryptDEK :: "bytes \<Rightarrow> key \<Rightarrow> world \<Rightarrow> bytes result"
  kms_DecryptDEK :: "key \<Rightarrow> world \<Rightarrow> bytes result"
  kms_HealthCheck :: "world \<Rightarrow> unit result"

definition local_HealthCheck :: "world \<Rightarrow> unit result" where
  "local_HealthCheck w = (Inr (), w)"

definition LocalKMSProvider :: "env \<Rightarrow> crypto_lib \<Rightarrow> bytes \<Rightarrow> kms_provider" where
  "LocalKMSProvider E C masterKey =
     \<lparr>kms_EncryptDEK = local_EncryptDEK E C masterKey, kms_DecryptDEK = local_DecryptDEK E C masterKey,
      kms_HealthCheck = local_HealthCheck\<rparr>"

section \<open>The AWS provider\<close>

text \<open>The AWS client: the result of a call is indexed by the number of the call.\<close>

record aws_lib =
  aws_Encrypt :: "nat \<Rightarrow> string \<Rightarrow> bytes \<Rightarrow> go_error + bytes"
  aws_Decrypt :: "nat \<Rightarrow> string \<Rightarrow> bytes \<Rightarrow> go_error + bytes"
  aws_ListKeys :: "nat \<Rightarrow> go_error + unit"

definition aws_ok :: "aws_lib \<Rightarrow> bool" where
  "aws_ok A \<longleftrightarrow> (\<forall>n m arn p c q.
     aws_Encrypt A n arn p = Inr c \<longrightarrow> aws_Decrypt A m arn c = Inr q \<longrightarrow> q = p)"

definition awsKmsTimeout :: time where "awsKmsTimeout = 5 * second"
definition aws_maxRetries :: nat where "aws_maxRetries = 3"
definition initialBackoff :: time where "initialBackoff = 100 * millisecond"
definition maxBackoff :: time where "maxBackoff = 1 * second"

definition aws_call :: "(nat \<Rightarrow> go_error + 'a) \<Rightarrow> world \<Rightarrow> 'a result" where
  "aws_call f w = (let (d, w1) = next_draw w in (f d, w1))"

definition aws_EncryptDEK :: "env \<Rightarrow> aws_lib \<Rightarrow> string \<Rightarrow> bytes \<Rightarrow> key \<Rightarrow> world \<Rightarrow> bytes result" where
  "aws_EncryptDEK E A arn plaintextDEK k =
     WithRetry E aws_maxRetries initialBackoff maxBackoff []
       (WithTimeout awsKmsTimeout (aws_call (\<lambda>n. aws_Encrypt A n arn plaintextDEK)))"

definition aws_DecryptDEK :: "env \<Rightarrow> aws_lib \<Rightarrow> string \<Rightarrow> key \<Rightarrow> world \<Rightarrow> bytes result" where
  "aws_DecryptDEK E A arn k =
     WithRetry E aws_maxRetries initialBackoff maxBackoff []
       (WithTimeout awsKmsTimeout (aws_call (\<lambda>n. aws_Decrypt A n arn (k_EncryptedDEK k))))"

definition aws_HealthCheck :: "env \<Rightarrow> aws_lib \<Rightarrow> world \<Rightarrow> unit result" where
  "aws_HealthCheck E A =
     WithRetry E aws_maxRetries initialBackoff maxBackoff ()
       (WithTimeout awsKmsTimeout (aws_call (aws_ListKeys A)))"

definition NewAWSKMSProvider :: "env \<Rightarrow> aws_lib \<Rightarrow> string \<Rightarrow> kms_provider" where
  "NewAWSKMSProvider E A arn =
     \<lparr>kms_EncryptDEK = aws_EncryptDEK E A arn, kms_DecryptDEK = aws_DecryptDEK E A arn,
      kms_HealthCheck = aws_HealthCheck E A\<rparr>"

section \<open>The interface\<close>

text \<open>A provider touches the derived-key cache, the random source and the sleep log only.\<close>

definition kms_keeps :: "world \<Rightarrow> world \<Rightarrow> bool" where
  "kms_keeps w w' \<longleftrightarrow>
     w' = w\<lparr>w_dkc := w_dkc w', w_draws := w_draws w', w_slept := w_slept w'\<rparr>"

locale kms =
  fixes K :: kms_provider and inv :: "world \<Rightarrow> bool"
  assumes enc_frame: "inv w \<Longrightarrow> kms_EncryptDEK K p k w = (res, w') \<Longrightarrow> inv w' \<and> kms_keeps w w'"
    and dec_frame: "inv w \<Longrightarrow> kms_DecryptDEK K k w = (res, w') \<Longrightarrow> inv w' \<and> kms_keeps w w'"
    and dec_enc: "inv w \<Longrightarrow> kms_EncryptDEK K p k w = (Inr c, w') \<Longrightarrow> inv v \<Longrightarrow> k_ID k' = k_ID k \<Longrightarrow>
      k_EncryptedDEK k' = c \<Longrightarrow> kms_DecryptDEK K k' v = (Inr q, v') \<Longrightarrow> q = p"
begin

text \<open>What was encrypted for a key is what decrypting the stored key returns.\<close>

lemma stored_dek_recovered:
  assumes "inv w" "kms_EncryptDEK K p k w = (Inr c, w1)"
    and "kms_DecryptDEK K (k\<lparr>k_EncryptedDEK := c\<rparr>) w1 = (Inr q, w2)"
  shows "q = p"
  using dec_enc [OF assms(1,2), of w1 "k\<lparr>k_EncryptedDEK := c\<rparr>"] enc_frame [OF assms(1,2)] assms(3)
  by simp

end

section \<open>Both providers implement the interface\<close>

lemma kms_keeps_refl [simp]: "kms_keeps w w"
  by (simp add: kms_keeps_def)

lemma kms_keepsI:
  "w' = w\<lparr>w_dkc := a, w_draws := b, w_slept := c\<rparr> \<Longrightarrow> kms_keeps w w'"
  by (simp add: kms_keeps_def)

lemma kms_keeps_trans:
  assumes "kms_keeps w w1" and "kms_keeps w1 w2" shows "kms_keeps w w2"
proof -
  have "w2 = (w\<lparr>w_dkc := w_dkc w1, w_draws := w_draws w1, w_slept := w_slept w1\<rparr>)
      \<lparr>w_dkc := w_dkc w2, w_draws := w_draws w2, w_slept := w_slept w2\<rparr>"
    using assms unfolding kms_keeps_def by simp
  then show ?thesis by (intro kms_keepsI) simp
qed

lemma rand_Read_keeps: "rand_Read E n w = (r, w') \<Longrightarrow> w' = w\<lparr>w_draws := Suc (w_draws w)\<rparr>"
  by (auto simp: rand_Read_def next_draw_def split: option.splits)

lemma rand_Read_length: "env_ok E \<Longrightarrow> rand_Read E n w = (Inr b, w') \<Longrightarrow> length b = n"
  by (auto simp: rand_Read_def next_draw_def env_ok_def split: option.splits)

subsection \<open>Local\<close>

text \<open>Every derived key in the cache is the one derived for its identifier.\<close>

definition dkc_ok :: "env \<Rightarrow> crypto_lib \<Rightarrow> bytes \<Rightarrow> world \<Rightarrow> bool" where
  "dkc_ok E C masterKey w \<longleftrightarrow>
     (\<forall>i it. map_of (c_items (w_dkc w)) (KeyID_String (e_uuid E) i) = Some it \<longrightarrow>
        derive_for E C masterKey i = Inr (it_value it))"

definition derived :: "env \<Rightarrow> crypto_lib \<Rightarrow> bytes \<Rightarrow> key_id \<Rightarrow> go_error + bytes" where
  "derived E C masterKey i =
     (case derive_for E C masterKey i of
        Inl err \<Rightarrow> Inl (wrapf ''failed to derive key'' err) | Inr d \<Rightarrow> Inr d)"

lemma dkc_ok_keys: "w_dkc w' = w_dkc w \<Longrightarrow> dkc_ok E C mk w' = dkc_ok E C mk w"
  by (simp add: dkc_ok_def)

lemma dkc_ok_Set:
  assumes "env_ok E" "dkc_ok E C mk w" "derive_for E C mk i = Inr d"
  shows "dkc_ok E C mk (w\<lparr>w_dkc := cache_Set t (KeyID_String (e_uuid E) i) d ttl (w_dkc w)\<rparr>)"
  using assms KeyID_String_inj [of "e_uuid E"]
  by (auto simp: dkc_ok_def cache_Set_def Let_def env_ok_def update_conv')

text \<open>The cache does not show: the result is the derived key, whether cached or not.\<close>

lemma getDerivedKey_ok:
  assumes "env_ok E" and w: "dkc_ok E C mk w"
  shows "fst (getDerivedKey E C mk k w) = derived E C mk (k_ID k)"
    and "kms_keeps w (snd (getDerivedKey E C mk k w))"
    and "dkc_ok E C mk (snd (getDerivedKey E C mk k w))"
proof -
  show "fst (getDerivedKey E C mk k w) = derived E C mk (k_ID k)"
    using w by (auto simp: getDerivedKey_def derived_def cache_Get_def dkc_ok_def Let_def
        split: option.splits sum.splits if_splits)
  show "kms_keeps w (snd (getDerivedKey E C mk k w))"
    by (auto simp: getDerivedKey_def Let_def kms_keeps_def split: option.splits sum.splits)
  show "dkc_ok E C mk (snd (getDerivedKey E C mk k w))"
    using w dkc_ok_Set [OF assms] by (auto simp: getDerivedKey_def Let_def split: option.splits sum.splits)
qed

lemma derived_length: "crypto_ok C \<Longrightarrow> derived E C mk i = Inr d \<Longrightarrow> length d = 32"
  unfolding derived_def derive_for_def DeriveKey_def Let_def crypto_ok_def
  by (auto split: sum.splits if_splits)

lemma encryptWithKey_keeps:
  "encryptWithKey E C d p w = (r, w') \<Longrightarrow> kms_keeps w w' \<and> w_dkc w' = w_dkc w"
  by (auto simp: encryptWithKey_def kms_keeps_def
      dest!: rand_Read_keeps split: option.splits prod.splits sum.splits)

text \<open>Nonce and ciphertext are stored together; reading them back opens the box.\<close>

lemma decrypt_encryptWithKey:
  assumes "crypto_ok C" "env_ok E" "encryptWithKey E C d p w = (Inr c, w')"
  shows "decryptWithKey C d c = Inr p"
proof -
  from assms(3) obtain n where n: "rand_Read E gcm_NonceSize w = (Inr n, w')"
    and c: "c = n @ gcm_Seal C d n p" and d: "cipher_error d = None"
    by (auto simp: encryptWithKey_def split: option.splits prod.splits sum.splits)
  have len: "length n = gcm_NonceSize" using rand_Read_length [OF assms(2) n] .
  moreover have "aes_key_size (length d)" using d by (simp add: cipher_error_def split: if_splits)
  ultimately have "gcm_Open C d n (gcm_Seal C d n p) = Inr p"
    using assms(1) by (simp add: crypto_ok_def)
  then show ?thesis using len c d by (auto simp: decryptWithKey_def gcm_NonceSize_def)
qed

definition local_inv :: "env \<Rightarrow> crypto_lib \<Rightarrow> bytes \<Rightarrow> world \<Rightarrow> bool" where
  "local_inv E C masterKey w \<longleftrightarrow> env_ok E \<and> crypto_ok C \<and> dkc_ok E C masterKey w"

lemma local_Encrypt_frame:
  assumes "local_inv E C mk w" "local_EncryptDEK E C mk p k w = (r, w')"
  shows "local_inv E C mk w' \<and> kms_keeps w w'"
proof -
  obtain x w1 where g: "getDerivedKey E C mk k w = (x, w1)" by (cases "getDerivedKey E C mk k w")
  have g1: "kms_keeps w w1" "dkc_ok E C mk w1"
    using getDerivedKey_ok [of E C mk w k] assms(1) g by (simp_all add: local_inv_def)
  show ?thesis
  proof (cases x)
    case (Inl e)
    then show ?thesis using assms g g1 by (simp add: local_EncryptDEK_def WithTimeout_def local_inv_def)
  next
    case (Inr d)
    then have e: "encryptWithKey E C d p w1 = (r, w')"
      using assms(2) g by (simp add: local_EncryptDEK_def WithTimeout_def)
    show ?thesis
      using encryptWithKey_keeps [OF e] g1 assms(1) kms_keeps_trans [of w w1 w']
        dkc_ok_keys [of w' w1 E C mk]
      by (simp add: local_inv_def)
  qed
qed

lemma local_Decrypt_frame:
  assumes "local_inv E C mk w" "local_DecryptDEK E C mk k w = (r, w')"
  shows "local_inv E C mk w' \<and> kms_keeps w w'"
  using getDerivedKey_ok [of E C mk w k] assms
  by (cases "getDerivedKey E C mk k w")
    (auto simp: local_inv_def local_DecryptDEK_def WithTimeout_def split: sum.splits)

text \<open>Decryption of what was encrypted for the same identifier always succeeds.\<close>

lemma local_roundtrip:
  assumes w: "local_inv E C mk w" and e: "local_EncryptDEK E C mk p k w = (Inr c, w')"
    and v: "local_inv E C mk v" and k: "k_ID k' = k_ID k" "k_EncryptedDEK k' = c"
  shows "fst (local_DecryptDEK E C mk k' v) = Inr p"
proof -
  obtain x w1 where g: "getDerivedKey E C mk k w = (x, w1)" by (cases "getDerivedKey E C mk k w")
  obtain y v1 where h: "getDerivedKey E C mk k' v = (y, v1)" by (cases "getDerivedKey E C mk k' v")
  have xy: "x = derived E C mk (k_ID k)" "y = derived E C mk (k_ID k)"
    using getDerivedKey_ok(1) [of E C mk w k] getDerivedKey_ok(1) [of E C mk v k'] w v g h k
    by (simp_all add: local_inv_def)
  from e g obtain d where d: "x = Inr d" and ec: "encryptWithKey E C d p w1 = (Inr c, w')"
    by (cases x) (simp_all add: local_EncryptDEK_def WithTimeout_def)
  have "decryptWithKey C d c = Inr p"
    using decrypt_encryptWithKey [OF _ _ ec] w by (simp add: local_inv_def)
  then show ?thesis using d xy h k by (simp add: local_DecryptDEK_def WithTimeout_def)
qed

text \<open>What both providers rely on, and keep for each other.\<close>

definition kms_inv :: "env \<Rightarrow> crypto_lib \<Rightarrow> bytes \<Rightarrow> aws_lib \<Rightarrow> world \<Rightarrow> bool" where
  "kms_inv E C masterKey A w \<longleftrightarrow> local_inv E C masterKey w \<and> aws_ok A"

interpretation local_kms: kms "LocalKMSProvider E C mk" "kms_inv E C mk A" for E C mk A
proof (unfold_locales, unfold LocalKMSProvider_def kms_provider.select_convs, goal_cases)
  case (1 w p k r w')
  then show ?case using local_Encrypt_frame [of E C mk w p k r w'] by (simp add: kms_inv_def)
next
  case (2 w k r w')
  then show ?case using local_Decrypt_frame [of E C mk w k r w'] by (simp add: kms_inv_def)
next
  case (3 w p k c w' v k' q v')
  then show ?case using local_roundtrip [of E C mk w p k c w' v k'] by (simp add: kms_inv_def)
qed

subsection \<open>AWS\<close>

lemma aws_call_frame: "snd (aws_call f w) = w\<lparr>w_draws := Suc (w_draws w)\<rparr>"
  by (simp add: aws_call_def next_draw_def)

lemma retry_aws_frame:
  "kms_keeps w (snd (retry_loop E i n b m (WithTimeout t (aws_call f)) r w)) \<and>
   w_dkc (snd (retry_loop E i n b m (WithTimeout t (aws_call f)) r w)) = w_dkc w"
proof (induction n arbitrary: i r w)
  case 0
  then show ?case by simp
next
  case (Suc n)
  obtain x w1 where c: "aws_call f w = (x, w1)" by (cases "aws_call f w")
  have w1: "w1 = w\<lparr>w_draws := Suc (w_draws w)\<rparr>" using aws_call_frame [of f w] c by simp
  show ?case
  proof (cases x)
    case (Inr a)
    then show ?thesis using c w1 by (simp add: WithTimeout_def kms_keeps_def)
  next
    case (Inl e)
    define w3 where "w3 = sleep (retry_backoff b m i + int (fst (rand_Intn E 100 w1)) * millisecond)
      (snd (rand_Intn E 100 w1))"
    have "kms_keeps w w3" "w_dkc w3 = w_dkc w"
      by (simp_all add: w3_def w1 sleep_def rand_Intn_def next_draw_def kms_keeps_def)
    with Suc [of w3 "Suc i" "Inl e"] show ?thesis
      using c Inl kms_keeps_trans [of w w3]
      by (simp add: WithTimeout_def w3_def Let_def case_prod_beta)
  qed
qed

lemma retry_loop_Inr:
  "fst (retry_loop E i n b m fn r w) = Inr x \<Longrightarrow> r = Inr x \<or> (\<exists>v. fst (fn v) = Inr x)"
proof (induction n arbitrary: i r w)
  case (Suc n)
  obtain y w1 where f: "fn w = (y, w1)" by (cases "fn w")
  show ?case
  proof (cases y)
    case (Inl e)
    then show ?thesis using Suc.prems Suc.IH [of "Suc i" "Inl e"] f
      by (auto simp: Let_def split: prod.splits)
  next
    case (Inr a)
    then have "fst (fn w) = Inr x" using Suc.prems f by simp
    then show ?thesis by blast
  qed
qed simp

lemma WithRetry_Inr:
  assumes "0 < n" "WithRetry E n b m z fn w = (Inr x, w')"
  shows "\<exists>v. fst (fn v) = Inr x"
proof -
  obtain n' where n: "n = Suc n'" using assms(1) by (cases n) simp_all
  obtain y w1 where f: "fn w = (y, w1)" by (cases "fn w")
  show ?thesis
  proof (cases y)
    case (Inl e)
    then show ?thesis using assms(2) f n retry_loop_Inr [of E "Suc 0" n' b m fn "Inl e"]
      by (auto simp: WithRetry_def Let_def split: prod.splits) (metis fst_conv)
  next
    case (Inr a)
    then have "fst (fn w) = Inr x" using assms(2) f n by (simp add: WithRetry_def)
    then show ?thesis by blast
  qed
qed

lemma aws_retry:
  fixes f :: "nat \<Rightarrow> go_error + 'a"
  assumes "WithRetry E aws_maxRetries b m z (WithTimeout t (aws_call f)) w = (r, w')"
  shows "kms_keeps w w'" and "w_dkc w' = w_dkc w" and "r = Inr x \<Longrightarrow> \<exists>n. f n = Inr x"
proof -
  show "kms_keeps w w'" "w_dkc w' = w_dkc w"
    using retry_aws_frame [of w E 0 aws_maxRetries b m t f "Inr z"] assms by (simp_all add: WithRetry_def)
  show "\<exists>n. f n = Inr x" if "r = Inr x"
    using WithRetry_Inr [of aws_maxRetries E b m z "WithTimeout t (aws_call f)" w x w'] assms that
    by (auto simp: aws_maxRetries_def WithTimeout_def aws_call_def next_draw_def)
qed

interpretation aws_kms: kms "NewAWSKMSProvider E A arn" "kms_inv E C mk A" for E C mk A arn
proof (unfold_locales, unfold NewAWSKMSProvider_def kms_provider.select_convs aws_EncryptDEK_def
    aws_DecryptDEK_def, goal_cases)
  case (1 w p k r w')
  then show ?case using aws_retry(1,2) [OF 1(2)] dkc_ok_keys [of w' w]
    by (simp add: kms_inv_def local_inv_def)
next
  case (2 w k r w')
  then show ?case using aws_retry(1,2) [OF 2(2)] dkc_ok_keys [of w' w]
    by (simp add: kms_inv_def local_inv_def)
next
  case (3 w p k c w' v k' q v')
  then show ?case using aws_retry(3) [OF 3(2) refl] aws_retry(3) [OF 3(6) refl]
    by (auto simp: kms_inv_def aws_ok_def)
qed

end
