(* ===== verification/Batch.thy ===== *)
theory Batch
  imports World
begin

text \<open>
  The batch processor of \<^verbatim>\<open>pkg/patterns/batch\<close>.  \<open>batch_step\<close> is the concurrent program: one
  goroutine per request, at most \<^verbatim>\<open>MaxConcurrency\<close> of them past the semaphore, the body of a
  goroutine one step on the shared state.  \<open>ProcessBatch\<close> runs the bodies one after the other in
  a given order; every complete run of the program is such a run, with the order in which the
  bodies ran.
\<close>

section \<open>Items\<close>

record 'r batch_item =
  bi_Result :: "'r option"
  bi_Error :: "go_error option"

definition blank_item :: "'r batch_item" where
  "blank_item = \<lparr>bi_Result = None, bi_Error = None\<rparr>"

definition process_item ::
  "('q \<Rightarrow> go_error option) \<Rightarrow> ('q \<Rightarrow> world \<Rightarrow> 'r result) \<Rightarrow> 'q \<Rightarrow> world \<Rightarrow> 'r batch_item \<times> world" where
  "process_item Validate Process req w =
     (case Validate req of
        Some err \<Rightarrow> (\<lparr>bi_Result = None, bi_Error = Some err\<rparr>, w)
      | None \<Rightarrow>
          (case Process req w of
             (Inl err, w1) \<Rightarrow> (\<lparr>bi_Result = None, bi_Error = Some err\<rparr>, w1)
           | (Inr r, w1) \<Rightarrow> (\<lparr>bi_Result = Some r, bi_Error = None\<rparr>, w1)))"

section \<open>Sequential runs\<close>

type_synonym 'r batch_state = "'r batch_item list \<times> world"

definition run_item ::
  "('q \<Rightarrow> world \<Rightarrow> 'r batch_item \<times> world) \<Rightarrow> 'q list \<Rightarrow> 'r batch_state \<Rightarrow> nat \<Rightarrow> 'r batch_state" where
  "run_item body reqs s i =
     (let (it, w1) = body (reqs ! i) (snd s) in ((fst s)[i := it], w1))"

definition run_batch ::
  "('q \<Rightarrow> world \<Rightarrow> 'r batch_item \<times> world) \<Rightarrow> 'q list \<Rightarrow> nat list \<Rightarrow> 'r batch_state \<Rightarrow> 'r batch_state" where
  "run_batch body reqs order s = foldl (run_item body reqs) s order"

definition ProcessBatch ::
  "('q \<Rightarrow> go_error option) \<Rightarrow> ('q \<Rightarrow> world \<Rightarrow> 'r result) \<Rightarrow> nat list \<Rightarrow> 'q list \<Rightarrow> world \<Rightarrow>
   'r batch_item list \<times> world" where
  "ProcessBatch Validate Process order reqs w =
     run_batch (process_item Validate Process) reqs order (replicate (length reqs) blank_item, w)"

definition valid_order :: "nat list \<Rightarrow> nat \<Rightarrow> bool" where
  "valid_order order n \<longleftrightarrow> distinct order \<and> set order = {0..<n}"

section \<open>The concurrent program\<close>

datatype phase = Waiting | Running | Finished

record 'r batch_run =
  b_phases :: "phase list"
  b_items :: "'r batch_item list"
  b_world :: world

definition running :: "'r batch_run \<Rightarrow> nat" where
  "running s = length (filter (\<lambda>p. p = Running) (b_phases s))"

definition all_finished :: "'r batch_run \<Rightarrow> bool" where
  "all_finished s \<longleftrightarrow> list_all (\<lambda>p. p = Finished) (b_phases s)"

inductive batch_step ::
  "nat \<Rightarrow> ('q \<Rightarrow> world \<Rightarrow> 'r batch_item \<times> world) \<Rightarrow> 'q list \<Rightarrow> 'r batch_run \<Rightarrow> 'r batch_run \<Rightarrow> bool"
  for maxConcurrency body reqs where
  acquire: "i < length (b_phases s) \<Longrightarrow> b_phases s ! i = Waiting \<Longrightarrow> running s < maxConcurrency \<Longrightarrow>
    batch_step maxConcurrency body reqs s (s\<lparr>b_phases := (b_phases s)[i := Running]\<rparr>)"
| work: "i < length (b_phases s) \<Longrightarrow> b_phases s ! i = Running \<Longrightarrow>
    body (reqs ! i) (b_world s) = (it, w1) \<Longrightarrow>
    batch_step maxConcurrency body reqs s
      \<lparr>b_phases = (b_phases s)[i := Finished], b_items = (b_items s)[i := it], b_world = w1\<rparr>"

definition batch_start :: "nat \<Rightarrow> world \<Rightarrow> 'r batch_run" where
  "batch_start n w =
     \<lparr>b_phases = replicate n Waiting, b_items = replicate n blank_item, b_world = w\<rparr>"

inductive_cases batch_step_cases: "batch_step n body reqs s s'"

section \<open>Runs of the program are sequential runs\<close>

lemma run_batch_snoc:
  "run_batch body reqs (order @ [i]) s = run_item body reqs (run_batch body reqs order s) i"
  by (simp add: run_batch_def)

lemma length_run_item [simp]: "length (fst (run_item body reqs s i)) = length (fst s)"
  by (simp add: run_item_def split: prod.splits)

lemma length_run_batch [simp]: "length (fst (run_batch body reqs order s)) = length (fst s)"
  by (induction order rule: rev_induct) (simp_all add: run_batch_snoc, simp add: run_batch_def)

text \<open>The bodies that have run, in their order, explain the results and the state.\<close>

definition explained ::
  "('q \<Rightarrow> world \<Rightarrow> 'r batch_item \<times> world) \<Rightarrow> 'q list \<Rightarrow> world \<Rightarrow> 'r batch_run \<Rightarrow> bool" where
  "explained body reqs w s \<longleftrightarrow>
     length (b_phases s) = length reqs \<and>
     (\<exists>order. distinct order \<and> set order = {i. i < length reqs \<and> b_phases s ! i = Finished} \<and>
        run_batch body reqs order (replicate (length reqs) blank_item, w) = (b_items s, b_world s))"

lemma batch_start_explained: "explained body reqs w (batch_start (length reqs) w)"
  unfolding explained_def batch_start_def
  by (auto intro!: exI [of _ "[]"] simp: run_batch_def)

lemma explained_acquire:
  assumes "explained body reqs w s" "i < length (b_phases s)" "b_phases s ! i = Waiting"
  shows "explained body reqs w (s\<lparr>b_phases := (b_phases s)[i := Running]\<rparr>)"
proof -
  have "{j. j < length reqs \<and> (b_phases s)[i := Running] ! j = Finished} =
        {j. j < length reqs \<and> b_phases s ! j = Finished}"
    using assms(2,3) by (auto simp: nth_list_update split: if_splits)
  then show ?thesis using assms(1) by (simp add: explained_def)
qed

lemma explained_work:
  assumes "explained body reqs w s" "i < length (b_phases s)" "b_phases s ! i = Running"
    and b: "body (reqs ! i) (b_world s) = (it, w1)"
  shows "explained body reqs w
    \<lparr>b_phases = (b_phases s)[i := Finished], b_items = (b_items s)[i := it], b_world = w1\<rparr>"
proof -
  from assms(1) obtain order where d: "distinct order"
    and fin: "set order = {j. j < length reqs \<and> b_phases s ! j = Finished}"
    and rb: "run_batch body reqs order (replicate (length reqs) blank_item, w) = (b_items s, b_world s)"
    and len: "length (b_phases s) = length reqs"
    by (auto simp: explained_def)
  have "i \<notin> set order" using fin assms(3) by simp
  then have d': "distinct (order @ [i])" using d by simp
  have "j \<in> set (order @ [i]) \<longleftrightarrow> j < length reqs \<and> (b_phases s)[i := Finished] ! j = Finished" for j
    using len assms(2) by (cases "j = i") (simp_all add: fin)
  then have fin': "set (order @ [i]) = {j. j < length reqs \<and> (b_phases s)[i := Finished] ! j = Finished}"
    by blast
  have rb': "run_batch body reqs (order @ [i]) (replicate (length reqs) blank_item, w) =
      ((b_items s)[i := it], w1)"
    using rb b by (simp add: run_batch_snoc run_item_def)
  show ?thesis unfolding explained_def using d' fin' rb' len
    by (intro conjI exI [of _ "order @ [i]"]) simp_all
qed

lemma batch_steps_explained:
  assumes "(batch_step n body reqs)\<^sup>*\<^sup>* (batch_start (length reqs) w) s"
  shows "explained body reqs w s"
  using assms
proof (induction rule: rtranclp_induct)
  case base
  then show ?case by (rule batch_start_explained)
next
  case (step s s')
  from step(2) show ?case
    by (cases rule: batch_step.cases)
      (use step(3) explained_acquire explained_work in blast)+
qed

lemma batch_run_sequential:
  assumes "(batch_step n body reqs)\<^sup>*\<^sup>* (batch_start (length reqs) w) s" and "all_finished s"
  shows "\<exists>order. valid_order order (length reqs) \<and>
    run_batch body reqs order (replicate (length reqs) blank_item, w) = (b_items s, b_world s)"
proof -
  have e: "explained body reqs w s" using batch_steps_explained [OF assms(1)] .
  then have "{i. i < length reqs \<and> b_phases s ! i = Finished} = {0..<length reqs}"
    using assms(2) by (auto simp: explained_def all_finished_def list_all_length)
  with e show ?thesis by (auto simp: explained_def valid_order_def)
qed

section \<open>The semaphore, progress and termination\<close>

lemma running_update:
  assumes "i < length ps"
  shows "length (filter (\<lambda>p. p = Running) (ps[i := x])) + (if ps ! i = Running then 1 else 0) =
    length (filter (\<lambda>p. p = Running) ps) + (if x = Running then 1 else 0)"
proof -
  have "ps = take i ps @ ps ! i # drop (Suc i) ps" using assms by (rule id_take_nth_drop)
  then have "filter (\<lambda>p. p = Running) ps =
      filter (\<lambda>p. p = Running) (take i ps) @ filter (\<lambda>p. p = Running) (ps ! i # drop (Suc i) ps)"
    by (metis filter_append)
  moreover have "ps[i := x] = take i ps @ x # drop (Suc i) ps"
    using assms by (simp add: upd_conv_take_nth_drop)
  ultimately show ?thesis by simp
qed

lemma batch_steps_semaphore:
  assumes "(batch_step n body reqs)\<^sup>*\<^sup>* (batch_start m w) s" shows "running s \<le> n"
  using assms
proof (induction rule: rtranclp_induct)
  case base
  then show ?case by (simp add: running_def batch_start_def)
next
  case (step s s')
  from step(2,3) show ?case
  proof (cases rule: batch_step.cases)
    case (acquire i)
    then show ?thesis using running_update [of i "b_phases s" Running] by (simp add: running_def)
  next
    case (work i it w1)
    then show ?thesis using step(3) running_update [of i "b_phases s" Finished] by (simp add: running_def)
  qed
qed

lemma batch_progress:
  assumes "\<not> all_finished s" and "0 < n"
  shows "\<exists>s'. batch_step n body reqs s s'"
proof (cases "\<exists>i < length (b_phases s). b_phases s ! i = Running")
  case True
  then obtain i where i: "i < length (b_phases s)" "b_phases s ! i = Running" by blast
  then show ?thesis
    using batch_step.work [OF i, of body reqs "fst (body (reqs ! i) (b_world s))" "snd (body (reqs ! i) (b_world s))"]
    by auto
next
  case False
  then have "running s = 0" by (auto simp: running_def filter_empty_conv in_set_conv_nth)
  moreover obtain i where "i < length (b_phases s)" "b_phases s ! i = Waiting"
    using assms(1) False by (auto simp: all_finished_def list_all_length) (metis phase.exhaust)
  ultimately show ?thesis using batch_step.acquire [of i s n body reqs] assms(2) by auto
qed

fun phase_work :: "phase \<Rightarrow> nat" where
  "phase_work Waiting = 2" | "phase_work Running = 1" | "phase_work Finished = 0"

definition work_left :: "'r batch_run \<Rightarrow> nat" where
  "work_left s = sum_list (map phase_work (b_phases s))"

lemma batch_step_decreases: "batch_step n body reqs s s' \<Longrightarrow> work_left s = Suc (work_left s')"
proof (induction rule: batch_step.induct)
  case (acquire i s)
  then show ?case using sum_list_update [of i "map phase_work (b_phases s)" 1]
    elem_le_sum_list [of i "map phase_work (b_phases s)"]
    by (simp add: work_left_def map_update)
next
  case (work i s it w1)
  then show ?case using sum_list_update [of i "map phase_work (b_phases s)" 0]
    elem_le_sum_list [of i "map phase_work (b_phases s)"]
    by (simp add: work_left_def map_update)
qed

text \<open>From every state the program reaches one in which all goroutines are done.\<close>

lemma batch_completes:
  assumes "0 < n" shows "\<exists>s'. (batch_step n body reqs)\<^sup>*\<^sup>* s s' \<and> all_finished s'"
proof (induction "work_left s" arbitrary: s rule: less_induct)
  case less
  show ?case
  proof (cases "all_finished s")
    case False
    with batch_progress [OF _ assms] obtain s1 where s1: "batch_step n body reqs s s1" by blast
    then have "work_left s1 < work_left s" using batch_step_decreases by fastforce
    with less obtain s' where "(batch_step n body reqs)\<^sup>*\<^sup>* s1 s'" "all_finished s'" by blast
    with s1 show ?thesis by (meson converse_rtranclp_into_rtranclp)
  qed blast
qed

section \<open>Results and requests\<close>

lemma run_batch_other:
  "i \<notin> set order \<Longrightarrow> fst (run_batch body reqs order s) ! i = fst s ! i"
  by (induction order rule: rev_induct)
    (simp_all add: run_batch_snoc, simp_all add: run_batch_def run_item_def split: prod.splits)

text \<open>The item at a position is the outcome of the request at that position.\<close>

lemma run_batch_aligned:
  assumes "distinct order" "i \<in> set order" "\<forall>j \<in> set order. j < length (fst s)"
  shows "\<exists>v v'. body (reqs ! i) v = (fst (run_batch body reqs order s) ! i, v')"
  using assms
proof (induction order rule: rev_induct)
  case (snoc k order)
  let ?s = "run_batch body reqs order s"
  show ?case
  proof (cases "i = k")
    case True
    then show ?thesis using snoc.prems
      by (auto simp: run_batch_snoc run_item_def split: prod.splits)
  next
    case False
    then have "\<exists>v v'. body (reqs ! i) v = (fst ?s ! i, v')" using snoc by simp
    then show ?thesis using False by (simp add: run_batch_snoc run_item_def split: prod.splits)
  qed
qed simp

lemma ProcessBatch_aligned:
  assumes "valid_order order (length reqs)" and "ProcessBatch V P order reqs w = (items, w')"
  shows "length items = length reqs"
    and "i < length reqs \<Longrightarrow> \<exists>v v'. process_item V P (reqs ! i) v = (items ! i, v')"
proof -
  show "length items = length reqs"
    using assms(2) length_run_batch [of "process_item V P" reqs order "(replicate (length reqs) blank_item, w)"]
    by (simp add: ProcessBatch_def)
  show "\<exists>v v'. process_item V P (reqs ! i) v = (items ! i, v')" if "i < length reqs"
    using run_batch_aligned [of order i "(replicate (length reqs) blank_item, w)" "process_item V P" reqs]
      assms that by (simp add: ProcessBatch_def valid_order_def)
qed

text \<open>A state property that every body keeps holds afterwards.\<close>

lemma run_batch_invariant:
  assumes "P (snd s)" and "\<And>q v. P v \<Longrightarrow> P (snd (body q v))"
  shows "P (snd (run_batch body reqs order s))"
  using assms(1)
  by (induction order rule: rev_induct)
    (simp_all add: run_batch_snoc, simp_all add: run_batch_def run_item_def assms(2) case_prod_beta)

end
