(* ===== verification/KeyService.thy ===== *)
theory KeyService
  imports BreakerRepository KMS Batch
begin

text \<open>
  The key service of \<^verbatim>\<open>internal/service\<close>: its construction, the helpers of \<^verbatim>\<open>key_service.go\<close>
  and key creation (\<^verbatim>\<open>key_creator.go\<close>).  The locale \<open>key_service\<close> puts the contracts of the
  repository and of the KMS providers together; what creation guarantees is proved in it and
  interpreted on the service the server assembles.
\<close>

section \<open>Messages\<close>

record create_item =
  ci_KeyType :: proto_enum
  ci_Description :: string
  ci_Tags :: "(string \<times> string) list"
  ci_ExpiresAt :: "time option"
  ci_InitialAuthorizedContexts :: "string list"
  ci_AccessPolicies :: "(string \<times> string) list"
  ci_DataClassification :: string

text \<open>\<^verbatim>\<open>pk.CreateKeyRequest\<close> has the fields of an item and the requester.\<close>

record create_request = create_item +
  cq_RequesterContext :: "requester_context option"

record batch_create_request =
  bc_RequesterContext :: "requester_context option"
  bc_Keys :: "create_item list"
  bc_ContinueOnError :: bool

record key_material =
  km_EncryptedKeyData :: bytes
  km_EncryptionAlgorithm :: string
  km_KeyChecksum :: string

record create_response =
  cr_KeyId :: string
  cr_Metadata :: "key_metadata option"
  cr_KeyMaterial :: "key_material option"
  cr_ResponseTimestamp :: "time option"

text \<open>The per-item outcome of a batch call, and its response.\<close>

datatype 'a outcome = Failure string | Success 'a

record 'a item_result =
  ir_KeyId :: string
  ir_Result :: "'a outcome"

record 'a batch_response =
  br_Results :: "'a item_result list"
  br_ResponseTimestamp :: "time option"
  br_SuccessfulCount :: int
  br_FailedCount :: int

section \<open>The service\<close>

text \<open>
  The fields of \<^verbatim>\<open>keyServiceImpl\<close> that do not change, with the libraries.  The DEK pool and the
  audit trail are in the world.
\<close>

record service =
  s_env :: env
  s_crypto :: crypto_lib
  s_typeName :: "proto_enum \<Rightarrow> string"
  s_keyRepo :: key_repo
  s_kmsProviders :: "(string \<times> kms_provider) list"
  s_DefaultKMSProvider :: string

definition dekPools :: "service \<Rightarrow> proto_enum list" where
  "dekPools S =
     (if is_ok (GetCryptoDetails (s_typeName S) KEY_TYPE_AES_256) then [KEY_TYPE_AES_256] else [])"

definition getKMSProvider :: "service \<Rightarrow> proto_enum \<Rightarrow> go_error + kms_provider" where
  "getKMSProvider S profile =
     (let providerName = (if profile = STORAGE_PROFILE_HARDENED then ''aws'' else s_DefaultKMSProvider S)
      in case map_of (s_kmsProviders S) providerName of
           None \<Rightarrow> Inl (Plain (providerName @ '' kms provider not found''))
         | Some p \<Rightarrow> Inr p)"

definition getKeyByRequest :: "service \<Rightarrow> key_id \<Rightarrow> int \<Rightarrow> world \<Rightarrow> nat result" where
  "getKeyByRequest S keyID version w =
     (case (if version > 0 then repo_GetKeyByVersion (s_keyRepo S) keyID version w
            else repo_GetKey (s_keyRepo S) keyID w) of
        (Inl err, w1) \<Rightarrow>
          (Inl (if errors_is err PgErrKeyNotFound then Sentinel ErrKeyNotFound else err), w1)
      | (Inr p, w1) \<Rightarrow> (Inr p, w1))"

section \<open>DEK buffers\<close>

definition dek_Get :: "env \<Rightarrow> world \<Rightarrow> bytes \<times> world" where
  "dek_Get E w =
     (let (d, w1) = next_draw w; (b, p) = SecureDEKPool_Get (e_pick E d) (w_deks w1)
      in (b, w1\<lparr>w_deks := p\<rparr>))"

definition dek_Put :: "bytes \<Rightarrow> world \<Rightarrow> world" where
  "dek_Put b w = w\<lparr>w_deks := SecureDEKPool_Put b (w_deks w)\<rparr>"

text \<open>
  A new DEK from the pool, its encryption and, on every path, its return to the pool: the part
  that creation and both kinds of rotation share, with the error of the random source and of the
  provider marked by the caller.
\<close>

definition with_new_dek ::
  "env \<Rightarrow> (go_error \<Rightarrow> go_error) \<Rightarrow> (bytes \<Rightarrow> world \<Rightarrow> 'a result) \<Rightarrow> world \<Rightarrow> 'a result" where
  "with_new_dek E rand_failed body w =
     (let (dek, w1) = dek_Get E w
      in case rand_Read E (length dek) w1 of
           (Inl err, w2) \<Rightarrow> (Inl (rand_failed err), dek_Put dek w2)
         | (Inr dek', w2) \<Rightarrow>
             (let (res, w3) = body dek' w2 in (res, dek_Put dek' w3)))"

section \<open>Creation\<close>

definition NewKeyID :: "env \<Rightarrow> world \<Rightarrow> key_id \<times> world" where
  "NewKeyID E w = (let (d, w1) = next_draw w in (KeyID (e_newUUID E d), w1))"

definition new_key ::
  "uuid_lib \<Rightarrow> key_id \<Rightarrow> time \<Rightarrow> string \<Rightarrow> description \<Rightarrow> proto_enum \<Rightarrow> create_item \<Rightarrow> key" where
  "new_key L keyID now clientIdentity desc storageProfile item =
     \<lparr>k_ID = keyID, k_Version = 1,
      k_Metadata = Some
        \<lparr>m_KeyId = KeyID_String L keyID, m_KeyType = ci_KeyType item, m_Status = KEY_STATUS_ACTIVE,
         m_Version = 1, m_CreatedAt = Some now, m_UpdatedAt = Some now,
         m_ExpiresAt = ci_ExpiresAt item, m_LastAccessedAt = None,
         m_CreatorIdentity = clientIdentity,
         m_AuthorizedContexts = ci_InitialAuthorizedContexts item,
         m_AccessPolicies = map_of (ci_AccessPolicies item), m_Description = desc_value desc,
         m_Tags = map_of (ci_Tags item), m_DataClassification = ci_DataClassification item,
         m_MetadataChecksum = '''', m_AccessCount = 0, m_StorageType = storageProfile\<rparr>,
      k_EncryptedDEK = [], k_Status = KeyStatusActive, k_Tier = '''', k_CreatedAt = now,
      k_UpdatedAt = now, k_RevokedAt = None\<rparr>"

text \<open>\<^verbatim>\<open>createKeyObject\<close> from the generated DEK on.\<close>

definition encrypt_new_key ::
  "service \<Rightarrow> create_item \<Rightarrow> string \<Rightarrow> proto_enum \<Rightarrow> description \<Rightarrow> bytes \<Rightarrow> world \<Rightarrow> key result" where
  "encrypt_new_key S item clientIdentity storageProfile desc dek w =
     (let (keyID, w1) = NewKeyID (s_env S) w;
          k = new_key (e_uuid (s_env S)) keyID (w_now w1) clientIdentity desc storageProfile item
      in case getKMSProvider S storageProfile of
           Inl err \<Rightarrow> (Inl err, w1)
         | Inr K \<Rightarrow>
             (case kms_EncryptDEK K dek k w1 of
                (Inl err, w2) \<Rightarrow> (Inl (wrapf ''failed to encrypt DEK'' err), w2)
              | (Inr c, w2) \<Rightarrow> (Inr (k\<lparr>k_EncryptedDEK := c\<rparr>), w2)))"

definition createKeyObject ::
  "service \<Rightarrow> create_item \<Rightarrow> string \<Rightarrow> proto_enum \<Rightarrow> world \<Rightarrow> key result" where
  "createKeyObject S item clientIdentity storageProfile w =
     (case NewDescription (ci_Description item) of
        Inl err \<Rightarrow> (Inl (wrap2 (Sentinel ErrInvalidInput) err), w)
      | Inr desc \<Rightarrow>
          if ci_KeyType item \<notin> set (dekPools S)
          then (Inl (wrap_suffix (Sentinel SvcErrInvalidKeyType) ''unsupported key type for pooling''), w)
          else with_new_dek (s_env S) (wrap2 (Sentinel SvcErrKeyGenerationFail))
                 (encrypt_new_key S item clientIdentity storageProfile desc) w)"

definition invalid_requester :: "requester_context option \<Rightarrow> bool" where
  "invalid_requester rc \<longleftrightarrow> rc = None \<or> GetClientIdentity rc = ''''"

definition tier_profile :: "requester_context option \<Rightarrow> proto_enum" where
  "tier_profile rc = GetStorageProfileForTier (FromProtoTier (GetClientTier rc))"

definition create_reply :: "service \<Rightarrow> key \<Rightarrow> string \<Rightarrow> time \<Rightarrow> create_response" where
  "create_reply S k algorithm now =
     \<lparr>cr_KeyId = KeyID_String (e_uuid (s_env S)) (k_ID k), cr_Metadata = k_Metadata k,
      cr_KeyMaterial = Some \<lparr>km_EncryptedKeyData = k_EncryptedDEK k,
        km_EncryptionAlgorithm = algorithm, km_KeyChecksum = ''sha256''\<rparr>,
      cr_ResponseTimestamp = Some now\<rparr>"

text \<open>A nil request is \<open>None\<close>.\<close>

definition CreateKey :: "service \<Rightarrow> create_request option \<Rightarrow> world \<Rightarrow> create_response result" where
  "CreateKey S req w =
     (case req of
        None \<Rightarrow> (Inl (Sentinel ErrInvalidInput), w)
      | Some rq \<Rightarrow>
          if invalid_requester (cq_RequesterContext rq) then (Inl (Sentinel ErrInvalidInput), w)
          else case GetCryptoDetails (s_typeName S) (ci_KeyType rq) of
            Inl err \<Rightarrow> (Inl (wrap2 (Sentinel ErrInvalidInput) err), w)
          | Inr (_, algorithm) \<Rightarrow>
              (case createKeyObject S (create_item.truncate rq) (GetClientIdentity (cq_RequesterContext rq))
                      (tier_profile (cq_RequesterContext rq)) w of
                 (Inl err, w1) \<Rightarrow> (Inl err, w1)
               | (Inr k, w1) \<Rightarrow>
                   (case repo_CreateKey (s_keyRepo S) (Some k) w1 of
                      (Inl err, w2) \<Rightarrow> (Inl (wrapf ''failed to create key'' err), w2)
                    | (Inr _, w2) \<Rightarrow> (Inr (create_reply S k algorithm (w_now w2)), w2))))"

definition create_Validate :: "service \<Rightarrow> create_item \<Rightarrow> go_error option" where
  "create_Validate S item =
     (case GetCryptoDetails (s_typeName S) (ci_KeyType item) of
        Inl err \<Rightarrow> Some (wrap2 (Sentinel ErrInvalidInput) err)
      | Inr _ \<Rightarrow>
          (case NewDescription (ci_Description item) of
             Inl err \<Rightarrow> Some (wrap2 (Sentinel ErrInvalidInput) err)
           | Inr _ \<Rightarrow> None))"

text \<open>\<^verbatim>\<open>BatchCreateKeysResult\<close> carries no key id of its own.\<close>

definition create_outcome :: "service \<Rightarrow> key batch_item \<Rightarrow> create_response outcome" where
  "create_outcome S it =
     (case (bi_Error it, bi_Result it) of
        (Some err, _) \<Rightarrow> Failure (error_string err)
      | (None, Some k) \<Rightarrow> Success \<lparr>cr_KeyId = KeyID_String (e_uuid (s_env S)) (k_ID k),
          cr_Metadata = k_Metadata k, cr_KeyMaterial = None, cr_ResponseTimestamp = None\<rparr>
      | (None, None) \<Rightarrow> Failure '''')"

definition created_keys :: "key batch_item list \<Rightarrow> key list" where
  "created_keys items = concat (map (\<lambda>it.
     case (bi_Error it, bi_Result it) of (None, Some k) \<Rightarrow> [k] | _ \<Rightarrow> []) items)"

definition BatchCreateKeys ::
  "service \<Rightarrow> nat list \<Rightarrow> batch_create_request option \<Rightarrow> world \<Rightarrow> create_response outcome list result" where
  "BatchCreateKeys S order req w =
     (case req of
        None \<Rightarrow> (Inl (Sentinel ErrInvalidInput), w)
      | Some rq \<Rightarrow>
          if invalid_requester (bc_RequesterContext rq) then (Inl (Sentinel ErrInvalidInput), w)
          else
            (let (items, w1) = ProcessBatch (create_Validate S)
                   (\<lambda>item. createKeyObject S item (GetClientIdentity (bc_RequesterContext rq))
                      (tier_profile (bc_RequesterContext rq))) order (bc_Keys rq) w
             in case repo_CreateBatchKeys (s_keyRepo S) (created_keys items) w1 of
                  (Inl err, w2) \<Rightarrow> (Inl (wrapf ''failed to create keys in batch'' err), w2)
                | (Inr _, w2) \<Rightarrow> (Inr (map (create_outcome S) items), w2)))"

section \<open>Frames\<close>

text \<open>What the service changes outside the repository.\<close>

definition svc_local :: "world \<Rightarrow> world \<Rightarrow> bool" where
  "svc_local w w' \<longleftrightarrow>
     w' = w\<lparr>w_dkc := w_dkc w', w_draws := w_draws w', w_slept := w_slept w', w_deks := w_deks w',
            w_audit := w_audit w'\<rparr>"

lemma svc_localI:
  "w' = w\<lparr>w_dkc := a, w_draws := b, w_slept := c, w_deks := d, w_audit := e\<rparr> \<Longrightarrow> svc_local w w'"
  by (simp add: svc_local_def)

lemma svc_local_refl [simp]: "svc_local w w"
  by (simp add: svc_local_def)

lemma svc_local_trans: "svc_local w w1 \<Longrightarrow> svc_local w1 w2 \<Longrightarrow> svc_local w w2"
proof -
  assume "svc_local w w1" "svc_local w1 w2"
  then have "w2 = (w\<lparr>w_dkc := w_dkc w1, w_draws := w_draws w1, w_slept := w_slept w1,
        w_deks := w_deks w1, w_audit := w_audit w1\<rparr>)
      \<lparr>w_dkc := w_dkc w2, w_draws := w_draws w2, w_slept := w_slept w2, w_deks := w_deks w2,
       w_audit := w_audit w2\<rparr>"
    unfolding svc_local_def by simp
  then show ?thesis by (intro svc_localI) simp
qed

lemma kms_keeps_local: "kms_keeps w w' \<Longrightarrow> svc_local w w' \<and> w_deks w' = w_deks w \<and> w_audit w' = w_audit w"
proof -
  assume "kms_keeps w w'"
  then have eq: "w' = w\<lparr>w_dkc := w_dkc w', w_draws := w_draws w', w_slept := w_slept w'\<rparr>"
    by (simp add: kms_keeps_def)
  have "w_deks w' = w_deks w" "w_audit w' = w_audit w" by (subst eq, simp)+
  moreover have "svc_local w w'" by (rule svc_localI [where d = "w_deks w" and e = "w_audit w"], subst eq, simp)
  ultimately show ?thesis by simp
qed

lemma svc_local_keys:
  assumes "svc_local w w'"
  shows "w_keys w' = w_keys w" "w_now w' = w_now w" "w_heap w' = w_heap w" "w_dbnow w' = w_dbnow w"
  by (subst assms [unfolded svc_local_def], simp)+

definition dek_pool_ok :: "world \<Rightarrow> bool" where
  "dek_pool_ok w \<longleftrightarrow> pool_ok (w_deks w) \<and> bp_size (w_deks w) = 32"

lemma dek_Get_ok:
  assumes "dek_pool_ok w" "dek_Get E w = (b, w')"
  shows "length b = 32" "dek_pool_ok w'" "svc_local w w'" "w_dkc w' = w_dkc w" "w_audit w' = w_audit w"
proof -
  obtain c p where g: "SecureDEKPool_Get (e_pick E (w_draws w)) (w_deks w) = (c, p)" by fastforce
  then have w': "w' = w\<lparr>w_draws := Suc (w_draws w), w_deks := p\<rparr>" "b = c"
    using assms(2) by (auto simp: dek_Get_def next_draw_def Let_def)
  have "c = replicate (bp_size (w_deks w)) 0 \<and> pool_ok p \<and> bp_size p = bp_size (w_deks w)"
    using SecureDEKPool_Get_ok [OF _ g] assms(1) by (simp add: dek_pool_ok_def)
  then show "length b = 32" "dek_pool_ok w'" "svc_local w w'" "w_dkc w' = w_dkc w" "w_audit w' = w_audit w"
    using assms(1) w' by (simp_all add: dek_pool_ok_def svc_local_def)
qed

lemma dek_Put_ok:
  assumes "dek_pool_ok w" "length b = 32"
  shows "dek_pool_ok (dek_Put b w)" "svc_local w (dek_Put b w)" "w_dkc (dek_Put b w) = w_dkc w"
    "w_audit (dek_Put b w) = w_audit w"
  using assms SecureDEKPool_Put_ok [of "w_deks w" b]
  by (simp_all add: dek_Put_def dek_pool_ok_def svc_local_def)

text \<open>
  The buffer goes back to the pool, zeroed, whatever happens to the DEK in between.
\<close>

lemma with_new_dek_cases:
  assumes pool: "dek_pool_ok w" and E: "env_ok E" and r: "with_new_dek E f body w = (res, w')"
  obtains (no_entropy) err where "res = Inl (f err)" "svc_local w w'" "dek_pool_ok w'" "w_dkc w' = w_dkc w"
      "w_audit w' = w_audit w"
  | (body) dek w2 w3 where "length dek = 32" "svc_local w w2" "dek_pool_ok w2" "w_dkc w2 = w_dkc w"
      "w_audit w2 = w_audit w" "body dek w2 = (res, w3)" "w' = dek_Put dek w3"
proof -
  obtain b w1 where g: "dek_Get E w = (b, w1)" by fastforce
  obtain x w2 where rd: "rand_Read E (length b) w1 = (x, w2)" by fastforce
  note b = dek_Get_ok [OF pool g]
  have w2: "w2 = w1\<lparr>w_draws := Suc (w_draws w1)\<rparr>" using rand_Read_keeps [OF rd] .
  have l2: "svc_local w w2" using b(3) w2 svc_local_trans [of w w1 w2] by (simp add: svc_local_def)
  have p2: "dek_pool_ok w2" "w_dkc w2 = w_dkc w" "w_audit w2 = w_audit w" using b w2 by (simp_all add: dek_pool_ok_def)
  show thesis
  proof (cases x)
    case (Inl err)
    then have "res = Inl (f err)" "w' = dek_Put b w2"
      using r g rd by (simp_all add: with_new_dek_def)
    then show thesis using no_entropy [of err] dek_Put_ok [OF p2(1) b(1)] l2 p2 svc_local_trans [of w w2 w'] by simp
  next
    case (Inr dek)
    then have "length dek = 32" using rand_Read_length [OF E] rd b(1) by simp
    moreover obtain res' w3 where bd: "body dek w2 = (res', w3)" by fastforce
    moreover have "res = res'" "w' = dek_Put dek w3"
      using r g rd Inr bd by (simp_all add: with_new_dek_def)
    ultimately show thesis using that(2) l2 p2 by blast
  qed
qed

section \<open>The service on a repository and its providers\<close>

locale key_service = key_repository "s_keyRepo S" inv for S :: service and inv :: "world \<Rightarrow> bool" +
  fixes kinv :: "world \<Rightarrow> bool"
  assumes env: "kinv w \<Longrightarrow> env_ok (s_env S)"
    and provider: "(n, K) \<in> set (s_kmsProviders S) \<Longrightarrow> kms K kinv"
    and inv_local: "inv w \<Longrightarrow> svc_local w w' \<Longrightarrow> inv w'"
    and kinv_local: "kinv w \<Longrightarrow> w_dkc w' = w_dkc w \<Longrightarrow> kinv w'"

definition service_inv :: "(world \<Rightarrow> bool) \<Rightarrow> (world \<Rightarrow> bool) \<Rightarrow> world \<Rightarrow> bool" where
  "service_inv I K w \<longleftrightarrow> I w \<and> K w \<and> dek_pool_ok w"

text \<open>A stored key gives back the DEK \<open>dek\<close> whenever its provider decrypts it.\<close>

definition recovers :: "service \<Rightarrow> (world \<Rightarrow> bool) \<Rightarrow> key \<Rightarrow> bytes \<Rightarrow> bool" where
  "recovers S kinv k dek \<longleftrightarrow>
     (\<forall>K k' v q v'. getKMSProvider S (GetStorageType (k_Metadata k)) = Inr K \<longrightarrow> kinv v \<longrightarrow>
        k_ID k' = k_ID k \<longrightarrow> k_EncryptedDEK k' = k_EncryptedDEK k \<longrightarrow>
        kms_DecryptDEK K k' v = (Inr q, v') \<longrightarrow> q = dek)"

lemma getKMSProvider_mem: "getKMSProvider S prof = Inr K \<Longrightarrow> \<exists>n. (n, K) \<in> set (s_kmsProviders S)"
  by (auto simp: getKMSProvider_def Let_def split: option.splits dest!: map_of_SomeD)

lemma row_ok_new_key: "row_ok (key_to_row ((new_key L i t c d prof item)\<lparr>k_EncryptedDEK := e\<rparr>))"
  by (simp add: row_ok_def key_to_row_def new_key_def marshal_metadata_def int4_max_def)

text \<open>What the created key is, apart from its identifier and its ciphertext.\<close>

definition fresh_key :: "service \<Rightarrow> create_item \<Rightarrow> string \<Rightarrow> proto_enum \<Rightarrow> time \<Rightarrow> key \<Rightarrow> bool" where
  "fresh_key S item client prof now k \<longleftrightarrow>
     (\<exists>desc i c. NewDescription (ci_Description item) = Inr desc \<and>
        k = (new_key (e_uuid (s_env S)) i now client desc prof item)\<lparr>k_EncryptedDEK := c\<rparr>)"

text \<open>What a successful call of \<^verbatim>\<open>CreateKey\<close> did to the table and answered.\<close>

definition creates_key ::
  "service \<Rightarrow> (world \<Rightarrow> bool) \<Rightarrow> create_request \<Rightarrow> time \<Rightarrow> key_table \<Rightarrow> key_table \<Rightarrow> create_response \<Rightarrow> bool" where
  "creates_key S kinv rq now t t' resp \<longleftrightarrow> (\<exists>k.
     fresh_key S (create_item.truncate rq) (GetClientIdentity (cq_RequesterContext rq))
       (tier_profile (cq_RequesterContext rq)) now k \<and>
     t' = t @ [key_to_row k] \<and>
     (\<exists>dek. length dek = 32 \<and> recovers S kinv k dek) \<and>
     cr_KeyId resp = KeyID_String (e_uuid (s_env S)) (k_ID k) \<and> cr_Metadata resp = k_Metadata k \<and>
     map_option km_EncryptedKeyData (cr_KeyMaterial resp) = Some (k_EncryptedDEK k))"

context key_service
begin

lemma dek_returned:
  assumes "inv w" "svc_local w u" "dek_pool_ok u" "kinv u" "length dek = 32"
  shows "service_inv inv kinv (dek_Put dek u) \<and> svc_local w (dek_Put dek u) \<and>
    w_audit (dek_Put dek u) = w_audit u"
  using assms dek_Put_ok [OF assms(3,5)] svc_local_trans [OF assms(2)] inv_local kinv_local
  by (auto simp: service_inv_def)

lemma encrypted_recovers:
  assumes "getKMSProvider S (GetStorageType (k_Metadata k)) = Inr K"
    and "kinv v" and "kms_EncryptDEK K dek k v = (Inr c, u)"
  shows "recovers S kinv (k\<lparr>k_EncryptedDEK := c\<rparr>) dek"
proof -
  have "kms K kinv" using provider getKMSProvider_mem [OF assms(1)] by blast
  then show ?thesis
    using kms.dec_enc [of K kinv v dek k c u] assms by (auto simp: recovers_def)
qed

lemma encrypt_new_key_ok:
  assumes w: "kinv w" and len: "length dek = 32" and desc: "NewDescription (ci_Description item) = Inr desc"
    and r: "encrypt_new_key S item client prof desc dek w = (res, w')"
  shows "kinv w' \<and> kms_keeps w w'"
    and "res = Inr k \<Longrightarrow> fresh_key S item client prof (w_now w) k \<and> row_ok (key_to_row k) \<and>
      (\<exists>dek. length dek = 32 \<and> recovers S kinv k dek)"
proof -
  obtain i v where nid: "NewKeyID (s_env S) w = (i, v)" by fastforce
  then have v: "v = w\<lparr>w_draws := Suc (w_draws w)\<rparr>" by (auto simp: NewKeyID_def next_draw_def)
  then have lv: "kinv v" "kms_keeps w v" "w_now v = w_now w"
    using kinv_local [OF w, of v] by (simp_all add: kms_keeps_def)
  let ?k = "new_key (e_uuid (s_env S)) i (w_now w) client desc prof item"
  let ?post = "kinv w' \<and> kms_keeps w w' \<and> (\<forall>k. res = Inr k \<longrightarrow>
    fresh_key S item client prof (w_now w) k \<and> row_ok (key_to_row k) \<and>
      (\<exists>dek. length dek = 32 \<and> recovers S kinv k dek))"
  have ?post
  proof (cases "getKMSProvider S prof")
    case (Inl err)
    then show ?thesis using r nid lv by (auto simp: encrypt_new_key_def)
  next
    case (Inr K)
    obtain x u where e: "kms_EncryptDEK K dek ?k v = (x, u)" by fastforce
    have K: "kms K kinv" using provider getKMSProvider_mem [OF Inr] by blast
    have u: "kinv u" "kms_keeps w u"
      using kms.enc_frame [OF K lv(1) e] kms_keeps_trans [OF lv(2)] by blast+
    show ?thesis
    proof (cases x)
      case (Inl err)
      then show ?thesis using r nid Inr e lv u by (auto simp: encrypt_new_key_def)
    next
      case c: (Inr c)
      have eq: "res = Inr (?k\<lparr>k_EncryptedDEK := c\<rparr>)" "w' = u"
        using r nid Inr e lv c by (simp_all add: encrypt_new_key_def)
      have "recovers S kinv (?k\<lparr>k_EncryptedDEK := c\<rparr>) dek"
        using encrypted_recovers [OF _ lv(1) e [unfolded c]] Inr by (simp add: new_key_def)
      then show ?thesis using eq u desc len row_ok_new_key
        by (auto simp: fresh_key_def new_key_def)
    qed
  qed
  then show "kinv w' \<and> kms_keeps w w'"
    and "res = Inr k \<Longrightarrow> fresh_key S item client prof (w_now w) k \<and> row_ok (key_to_row k) \<and>
      (\<exists>dek. length dek = 32 \<and> recovers S kinv k dek)"
    by blast+
qed

lemma createKeyObject_ok:
  assumes w: "service_inv inv kinv w" and r: "createKeyObject S item client prof w = (res, w')"
  shows "service_inv inv kinv w' \<and> svc_local w w' \<and> w_audit w' = w_audit w"
    and "res = Inr k \<Longrightarrow> fresh_key S item client prof (w_now w) k \<and> row_ok (key_to_row k) \<and>
      (\<exists>dek. length dek = 32 \<and> recovers S kinv k dek)"
proof -
  have w0: "inv w" "kinv w" "dek_pool_ok w" using w by (simp_all add: service_inv_def)
  consider (refused) e where "res = Inl e" "w' = w"
    | (made) desc where "NewDescription (ci_Description item) = Inr desc"
        "with_new_dek (s_env S) (wrap2 (Sentinel SvcErrKeyGenerationFail))
           (encrypt_new_key S item client prof desc) w = (res, w')"
    using r by (auto simp: createKeyObject_def split: sum.splits if_splits)
  then have "service_inv inv kinv w' \<and> svc_local w w' \<and> w_audit w' = w_audit w \<and>
    (\<forall>k. res = Inr k \<longrightarrow> fresh_key S item client prof (w_now w) k \<and> row_ok (key_to_row k) \<and>
      (\<exists>dek. length dek = 32 \<and> recovers S kinv k dek))"
  proof cases
    case (made desc)
    from made(2) show ?thesis
    proof (cases rule: with_new_dek_cases [OF w0(3) env [OF w0(2)], consumes 1, case_names no_entropy body])
      case (no_entropy err)
      then show ?thesis using w0 inv_local kinv_local by (auto simp: service_inv_def)
    next
      case (body dek w2 w3)
      note ok = encrypt_new_key_ok [OF kinv_local [OF w0(2) body(4)] body(1) made(1) body(6)]
      have u: "svc_local w w3" "dek_pool_ok w3" "w_audit w3 = w_audit w"
        using kms_keeps_local [of w2 w3] ok(1) body svc_local_trans [of w w2 w3]
        by (simp_all add: dek_pool_ok_def)
      show ?thesis
        using dek_returned [OF w0(1) u(1,2) _ body(1)] ok u(3) body(7) svc_local_keys(2) [OF body(2)] by simp
    qed
  qed (use w in simp)
  then show "service_inv inv kinv w' \<and> svc_local w w' \<and> w_audit w' = w_audit w"
    and "res = Inr k \<Longrightarrow> fresh_key S item client prof (w_now w) k \<and> row_ok (key_to_row k) \<and>
      (\<exists>dek. length dek = 32 \<and> recovers S kinv k dek)"
    by blast+
qed

lemma service_inv_repo:
  "service_inv inv kinv w \<Longrightarrow> inv w' \<Longrightarrow> keeps w w' \<Longrightarrow> service_inv inv kinv w'"
  using kinv_local by (auto simp: service_inv_def keeps_def dek_pool_ok_def)

lemma service_inv_local:
  "service_inv inv kinv w \<Longrightarrow> svc_local w w' \<Longrightarrow> kinv w' \<Longrightarrow> w_deks w' = w_deks w \<Longrightarrow> service_inv inv kinv w'"
  using inv_local by (auto simp: service_inv_def dek_pool_ok_def)

text \<open>
  A created key is one new row: version 1, active, with a DEK of 32 bytes that its provider gives
  back.  The response describes that row.
\<close>

lemma CreateKey_ok:
  assumes w: "service_inv inv kinv w" and r: "CreateKey S (Some rq) w = (res, w')"
  shows "service_inv inv kinv w'"
    and "res = Inr resp \<Longrightarrow> creates_key S kinv rq (w_now w) (w_keys w) (w_keys w') resp"
proof -
  have "service_inv inv kinv w' \<and>
    (\<forall>resp. res = Inr resp \<longrightarrow> creates_key S kinv rq (w_now w) (w_keys w) (w_keys w') resp)"
  proof (cases "invalid_requester (cq_RequesterContext rq) \<or>
      \<not> is_ok (GetCryptoDetails (s_typeName S) (ci_KeyType rq))")
    case True
    then show ?thesis using r w by (auto simp: CreateKey_def is_ok_def split: sum.splits if_splits)
  next
    case False
    then obtain alg where alg: "\<exists>n. GetCryptoDetails (s_typeName S) (ci_KeyType rq) = Inr (n, alg)"
      by (auto simp: is_ok_def split: sum.splits)
    obtain x w1 where o: "createKeyObject S (create_item.truncate rq)
        (GetClientIdentity (cq_RequesterContext rq)) (tier_profile (cq_RequesterContext rq)) w = (x, w1)"
      by fastforce
    note ok = createKeyObject_ok [OF w o]
    show ?thesis
    proof (cases x)
      case (Inl err)
      then show ?thesis using r False alg o ok(1) by (auto simp: CreateKey_def)
    next
      case x: (Inr k)
      obtain y w2 where c: "repo_CreateKey (s_keyRepo S) (Some k) w1 = (y, w2)" by fastforce
      have i1: "inv w1" "row_ok (key_to_row k)" using ok(1) ok(2) [OF x] by (simp_all add: service_inv_def)
      have w2: "service_inv inv kinv w2"
        using service_inv_repo [of w1 w2] ok(1) create_keeps [OF i1(1) c i1(2)] by blast
      have "creates_key S kinv rq (w_now w) (w_keys w) (w_keys w2)
          (create_reply S k alg (w_now w2))" if "y = Inr u" for u
        unfolding creates_key_def create_reply_def
        using create_done [OF i1(1) c [unfolded that] i1(2)] svc_local_keys(1) [of w w1] ok(1) ok(2) [OF x]
        by (intro exI [of _ k]) (simp add: create_effect_def)
      then show ?thesis using r False alg o x c w2
        by (cases y) (auto simp: CreateKey_def create_reply_def)
    qed
  qed
  then show "service_inv inv kinv w'"
    and "res = Inr resp \<Longrightarrow> creates_key S kinv rq (w_now w) (w_keys w) (w_keys w') resp"
    by blast+
qed

end

section \<open>The assembled service\<close>

text \<open>
  The providers that are configured, by name, for AWS settings that load: what the container's
  initializer (theory \<open>Wiring\<close>) comes to.  The master key is decoded by \<^verbatim>\<open>NewLocalKMSProvider\<close>.
\<close>

definition initKMSProviders ::
  "env \<Rightarrow> crypto_lib \<Rightarrow> aws_lib \<Rightarrow> string \<Rightarrow> bool \<Rightarrow> string \<Rightarrow> go_error + (string \<times> kms_provider) list" where
  "initKMSProviders E C A masterKey awsEnabled arn =
     (case (if masterKey = '''' then Inr []
            else case NewLocalKMSProvider masterKey of
                   Inl err \<Rightarrow> Inl (wrapf ''failed to create local KMS provider'' err)
                 | Inr (mk, _) \<Rightarrow> Inr [(''local'', LocalKMSProvider E C mk)]) of
        Inl err \<Rightarrow> Inl err
      | Inr local \<Rightarrow>
          (let providers = local @ (if awsEnabled \<and> arn \<noteq> '''' then [(''aws'', NewAWSKMSProvider E A arn)] else [])
           in if providers = [] then Inl (Plain ''no KMS provider configured'') else Inr providers))"

definition NewKeyService ::
  "env \<Rightarrow> crypto_lib \<Rightarrow> (proto_enum \<Rightarrow> string) \<Rightarrow> key_repo \<Rightarrow> (string \<times> kms_provider) list \<Rightarrow> string \<Rightarrow> service" where
  "NewKeyService E C names keyRepo kmsProviders defaultKMSProvider =
     \<lparr>s_env = E, s_crypto = C, s_typeName = names, s_keyRepo = keyRepo,
      s_kmsProviders = kmsProviders, s_DefaultKMSProvider = defaultKMSProvider\<rparr>"

text \<open>The providers for a decoded master key.\<close>

definition provider_map ::
  "env \<Rightarrow> crypto_lib \<Rightarrow> aws_lib \<Rightarrow> bytes \<Rightarrow> bool \<Rightarrow> bool \<Rightarrow> string \<Rightarrow> (string \<times> kms_provider) list" where
  "provider_map E C A mk use_local use_aws arn =
     (if use_local then [(''local'', LocalKMSProvider E C mk)] else []) @
     (if use_aws then [(''aws'', NewAWSKMSProvider E A arn)] else [])"

lemma initKMSProviders_map:
  assumes "initKMSProviders E C A masterKey awsEnabled arn = Inr ps"
    and "base64_DecodeString masterKey = Inr mk"
  shows "ps = provider_map E C A mk (masterKey \<noteq> '''') (awsEnabled \<and> arn \<noteq> '''') arn"
  using assms
  by (auto simp: initKMSProviders_def NewLocalKMSProvider_def provider_map_def Let_def split: if_splits)

definition polykey_service ::
  "env \<Rightarrow> crypto_lib \<Rightarrow> aws_lib \<Rightarrow> (proto_enum \<Rightarrow> string) \<Rightarrow> bytes \<Rightarrow> bool \<Rightarrow> bool \<Rightarrow> string \<Rightarrow> string \<Rightarrow> service" where
  "polykey_service E C A names mk use_local use_aws arn defaultProvider =
     NewKeyService E C names (initKeyRepository E True) (provider_map E C A mk use_local use_aws arn)
       defaultProvider"

lemma repo_inv_local:
  assumes "repo_inv E w" "svc_local w w'" shows "repo_inv E w'"
  by (subst assms(2) [unfolded svc_local_def])
    (use assms(1) in \<open>simp add: repo_inv_def cb_inv_def cached_inv_def psql_inv_def net_clean_def
      cache_coherent_def entry_coherent_def indexed_def deref_def\<close>)

lemma kms_inv_dkc: "kms_inv E C mk A w \<Longrightarrow> w_dkc w' = w_dkc w \<Longrightarrow> kms_inv E C mk A w'"
  using dkc_ok_keys [of w' w E C mk] by (simp add: kms_inv_def local_inv_def)

interpretation polykey: key_service "polykey_service E C A names mk l a arn d" "repo_inv E" "kms_inv E C mk A"
  for E C A names mk l a arn d
proof -
  have "s_keyRepo (polykey_service E C A names mk l a arn d) =
      NewKeyRepositoryCircuitBreaker (NewCachedRepository E (NewPSQLAdapter E))"
    by (simp add: polykey_service_def NewKeyService_def initKeyRepository_def Let_def)
  moreover have "key_repository (NewKeyRepositoryCircuitBreaker (NewCachedRepository E (NewPSQLAdapter E))) (repo_inv E)"
    unfolding repo_inv_def by (rule prod.breaker.key_repository_axioms)
  ultimately have "key_repository (s_keyRepo (polykey_service E C A names mk l a arn d)) (repo_inv E)" by simp
  moreover have "key_service_axioms (polykey_service E C A names mk l a arn d) (repo_inv E) (kms_inv E C mk A)"
  proof (rule key_service_axioms.intro, goal_cases)
    case (1 w)
    then show ?case by (simp add: kms_inv_def local_inv_def polykey_service_def NewKeyService_def)
  next
    case (2 n K)
    then show ?case
      using local_kms.kms_axioms [of E C mk A] aws_kms.kms_axioms [of E A arn C mk]
      by (auto simp: polykey_service_def NewKeyService_def provider_map_def split: if_splits)
  next
    case (3 w w')
    then show ?case by (rule repo_inv_local)
  next
    case (4 w w')
    then show ?case by (rule kms_inv_dkc)
  qed
  ultimately show "key_service (polykey_service E C A names mk l a arn d) (repo_inv E) (kms_inv E C mk A)"
    by (rule key_service.intro)
qed

end
