(* ===== verification/KeyRetriever.thy ===== *)
theory KeyRetriever
  imports KeyService
begin

text \<open>
  Reading keys: \<^verbatim>\<open>key_retriever.go\<close> and \<^verbatim>\<open>key_lister.go\<close>.
\<close>

section \<open>Messages\<close>

record get_request =
  gq_KeyId :: string
  gq_Version :: int
  gq_SkipMetadata :: bool
  gq_RequesterContext :: "requester_context option"

record get_response =
  gr_KeyMaterial :: key_material
  gr_Metadata :: "key_metadata option"
  gr_ResponseTimestamp :: time

record metadata_request =
  mq_KeyId :: string
  mq_Version :: int
  mq_RequesterContext :: "requester_context option"

record metadata_response =
  mr_Metadata :: "key_metadata option"
  mr_ResponseTimestamp :: time

record key_item =
  ki_KeyId :: string
  ki_Version :: int
  ki_SkipMetadata :: bool

record batch_get_request =
  bg_RequesterContext :: "requester_context option"
  bg_Keys :: "key_item list"
  bg_ContinueOnError :: bool

record list_request =
  lq_PageToken :: string
  lq_PageSize :: int

record list_response =
  lr_Keys :: "key_metadata option list"
  lr_NextPageToken :: string
  lr_ResponseTimestamp :: time

section \<open>GetKey\<close>

definition hex_EncodeToString :: "bytes \<Rightarrow> string" where
  "hex_EncodeToString bs =
     concat (map (\<lambda>b. [hex_digit (unat b div 16), hex_digit (unat b mod 16)]) bs)"

text \<open>
  What \<^verbatim>\<open>GetKey\<close> and the items of \<^verbatim>\<open>BatchGetKeys\<close> do with the key they found: decrypt the DEK,
  checksum it, answer with the encrypted DEK.  The plaintext is zeroed when the call returns.
\<close>

definition key_response ::
  "service \<Rightarrow> string \<Rightarrow> string \<Rightarrow> bool \<Rightarrow> string \<Rightarrow> key \<Rightarrow> world \<Rightarrow> get_response result" where
  "key_response S operation client skipMetadata kid k w =
     (case getKMSProvider S (GetStorageType (k_Metadata k)) of
        Inl err \<Rightarrow> (Inl (wrapf ''failed to get KMS provider'' err), w)
      | Inr K \<Rightarrow>
          (case kms_DecryptDEK K k w of
             (Inl err, w1) \<Rightarrow>
               (Inl (wrap2 (Sentinel ErrKMSFailure) err),
                AuditLog client operation kid '''' False (Some err) w1)
           | (Inr dek, w1) \<Rightarrow>
               (case GetCryptoDetails (s_typeName S) (GetKeyType (k_Metadata k)) of
                  Inl err \<Rightarrow> (Inl err, w1)
                | Inr (_, algorithm) \<Rightarrow>
                    (Inr \<lparr>gr_KeyMaterial = \<lparr>km_EncryptedKeyData = k_EncryptedDEK k,
                            km_EncryptionAlgorithm = algorithm,
                            km_KeyChecksum = hex_EncodeToString (sha256_Sum (s_crypto S) dek)\<rparr>,
                          gr_Metadata = (if skipMetadata then None else k_Metadata k),
                          gr_ResponseTimestamp = w_now w1\<rparr>,
                     AuditLog client operation kid '''' True None w1))))"

definition GetKey :: "service \<Rightarrow> get_request option \<Rightarrow> world \<Rightarrow> get_response result" where
  "GetKey S req w =
     (case req of
        None \<Rightarrow> (Inl (Sentinel ErrInvalidInput), w)
      | Some rq \<Rightarrow>
          (case KeyIDFromString (e_uuid (s_env S)) (gq_KeyId rq) of
             Inl err \<Rightarrow> (Inl (wrap2 (Sentinel ErrInvalidInput) err), w)
           | Inr keyID \<Rightarrow>
               (case getKeyByRequest S keyID (gq_Version rq) w of
                  (Inl err, w1) \<Rightarrow> (Inl err, w1)
                | (Inr p, w1) \<Rightarrow>
                    (let k = deref w1 p in
                     if k_Status k = KeyStatusRevoked then (Inl (Sentinel ErrKeyRevoked), w1)
                     else if k_Metadata k = None then (Inl (Sentinel SvcErrMissingMetadata), w1)
                     else key_response S ''GetKey'' (GetClientIdentity (gq_RequesterContext rq))
                            (gq_SkipMetadata rq) (KeyID_String (e_uuid (s_env S)) keyID) k w1))))"

section \<open>GetKeyMetadata\<close>

text \<open>A nil metadata pointer would make the final log line panic.\<close>

definition GetKeyMetadata :: "service \<Rightarrow> metadata_request option \<Rightarrow> world \<Rightarrow> metadata_response result" where
  "GetKeyMetadata S req w =
     (case req of
        None \<Rightarrow> (Inl (Sentinel ErrInvalidInput), w)
      | Some rq \<Rightarrow>
          (case KeyIDFromString (e_uuid (s_env S)) (mq_KeyId rq) of
             Inl err \<Rightarrow> (Inl (wrap2 (Sentinel ErrInvalidInput) err), w)
           | Inr keyID \<Rightarrow>
               (case (if mq_Version rq > 0
                      then repo_GetKeyMetadataByVersion (s_keyRepo S) keyID (mq_Version rq) w
                      else repo_GetKeyMetadata (s_keyRepo S) keyID w) of
                  (Inl err, w1) \<Rightarrow> (Inl err, w1)
                | (Inr md, w1) \<Rightarrow>
                    (let w2 = AuditLog (GetClientIdentity (mq_RequesterContext rq)) ''GetKeyMetadata''
                                (KeyID_String (e_uuid (s_env S)) keyID) '''' True None w1
                     in case md of
                          None \<Rightarrow> (Inl (Panicked ''nil pointer dereference''), w2)
                        | Some _ \<Rightarrow> (Inr \<lparr>mr_Metadata = md, mr_ResponseTimestamp = w_now w1\<rparr>, w2)))))"

section \<open>Batch reads\<close>

fun parse_ids :: "uuid_lib \<Rightarrow> string list \<Rightarrow> go_error + key_id list" where
  "parse_ids L [] = Inr []"
| "parse_ids L (s # ss) =
     (case KeyIDFromString L s of
        Inl err \<Rightarrow> Inl (wrapf ''invalid key ID in batch request'' err)
      | Inr i \<Rightarrow> (case parse_ids L ss of Inl err \<Rightarrow> Inl err | Inr is \<Rightarrow> Inr (i # is)))"

text \<open>Later entries overwrite earlier ones.\<close>

definition key_map :: "uuid_lib \<Rightarrow> key list \<Rightarrow> (string \<rightharpoonup> key)" where
  "key_map L ks = foldl (\<lambda>m k. m(KeyID_String L (k_ID k) \<mapsto> k)) (\<lambda>_. None) ks"

definition get_Validate :: "(string \<rightharpoonup> key) \<Rightarrow> key_item \<Rightarrow> go_error option" where
  "get_Validate keyMap item =
     (case keyMap (ki_KeyId item) of
        None \<Rightarrow> Some (Plain (''key not found: '' @ ki_KeyId item))
      | Some _ \<Rightarrow> None)"

definition get_Process ::
  "service \<Rightarrow> string \<Rightarrow> (string \<rightharpoonup> key) \<Rightarrow> key_item \<Rightarrow> world \<Rightarrow> get_response result" where
  "get_Process S client keyMap item w =
     (case keyMap (ki_KeyId item) of
        None \<Rightarrow> (Inl (Panicked ''nil pointer dereference''), w)
      | Some k \<Rightarrow> key_response S ''BatchGetKeys'' client (ki_SkipMetadata item)
                   (KeyID_String (e_uuid (s_env S)) (k_ID k)) k w)"

text \<open>The response of a batch: outcomes in request order, with their counts.\<close>

definition item_outcome :: "'a batch_item \<Rightarrow> 'a outcome" where
  "item_outcome it =
     (case (bi_Error it, bi_Result it) of
        (Some err, _) \<Rightarrow> Failure (error_string err)
      | (None, Some r) \<Rightarrow> Success r
      | (None, None) \<Rightarrow> Failure '''')"

fun is_success :: "'a outcome \<Rightarrow> bool" where
  "is_success (Success _) = True"
| "is_success (Failure _) = False"

definition batch_reply :: "string list \<Rightarrow> 'a batch_item list \<Rightarrow> time \<Rightarrow> 'a batch_response" where
  "batch_reply ids items now =
     \<lparr>br_Results = map2 (\<lambda>kid it. \<lparr>ir_KeyId = kid, ir_Result = item_outcome it\<rparr>) ids items,
      br_ResponseTimestamp = Some now,
      br_SuccessfulCount = int (length (filter (\<lambda>it. bi_Error it = None) items)),
      br_FailedCount = int (length (filter (\<lambda>it. bi_Error it \<noteq> None) items))\<rparr>"

definition BatchGetKeys ::
  "service \<Rightarrow> nat list \<Rightarrow> batch_get_request option \<Rightarrow> world \<Rightarrow> get_response batch_response result" where
  "BatchGetKeys S order req w =
     (case req of
        None \<Rightarrow> (Inl (Sentinel ErrInvalidInput), w)
      | Some rq \<Rightarrow>
          if invalid_requester (bg_RequesterContext rq) then (Inl (Sentinel ErrInvalidInput), w)
          else case parse_ids (e_uuid (s_env S)) (map ki_KeyId (bg_Keys rq)) of
            Inl err \<Rightarrow> (Inl err, w)
          | Inr keyIDs \<Rightarrow>
              (case repo_GetBatchKeys (s_keyRepo S) keyIDs w of
                 (Inl err, w1) \<Rightarrow>
                   (Inl (wrapf ''failed to retrieve batch keys from repository'' err), w1)
               | (Inr ks, w1) \<Rightarrow>
                   (let keyMap = key_map (e_uuid (s_env S)) ks;
                        (items, w2) = ProcessBatch (get_Validate keyMap)
                          (get_Process S (GetClientIdentity (bg_RequesterContext rq)) keyMap)
                          order (bg_Keys rq) w1
                    in (Inr (batch_reply (map ki_KeyId (bg_Keys rq)) items (w_now w2)), w2))))"

text \<open>
  The identifiers of \<^verbatim>\<open>BatchGetKeyMetadata\<close>: an unparsable one stays the zero identifier in
  its slot and is answered with an error at once.
\<close>

fun parse_slots :: "uuid_lib \<Rightarrow> bool \<Rightarrow> string list \<Rightarrow> go_error + (key_id list \<times> 'a item_result list)" where
  "parse_slots L continueOnError [] = Inr ([], [])"
| "parse_slots L continueOnError (s # ss) =
     (case KeyIDFromString L s of
        Inl err \<Rightarrow>
          if \<not> continueOnError then Inl (wrapf ''invalid key ID in batch request'' err)
          else (case parse_slots L continueOnError ss of
                  Inl e \<Rightarrow> Inl e
                | Inr (is, rs) \<Rightarrow>
                    Inr (zero_KeyID # is, \<lparr>ir_KeyId = s, ir_Result = Failure (error_string err)\<rparr> # rs))
      | Inr i \<Rightarrow>
          (case parse_slots L continueOnError ss of
             Inl e \<Rightarrow> Inl e
           | Inr (is, rs) \<Rightarrow> Inr (i # is, rs)))"

definition metadata_map :: "key_metadata list \<Rightarrow> (string \<rightharpoonup> key_metadata)" where
  "metadata_map mds = foldl (\<lambda>m md. m(m_KeyId md \<mapsto> md)) (\<lambda>_. None) mds"

definition metadata_result ::
  "(string \<rightharpoonup> key_metadata) \<Rightarrow> time \<Rightarrow> key_item \<Rightarrow> metadata_response item_result" where
  "metadata_result mm now item =
     \<lparr>ir_KeyId = ki_KeyId item,
      ir_Result =
        (case mm (ki_KeyId item) of
           Some md \<Rightarrow> Success \<lparr>mr_Metadata = Some md, mr_ResponseTimestamp = now\<rparr>
         | None \<Rightarrow> Failure ''key metadata not found or could not be processed'')\<rparr>"

definition count_reply :: "'a item_result list \<Rightarrow> time \<Rightarrow> 'a batch_response" where
  "count_reply results now =
     \<lparr>br_Results = results, br_ResponseTimestamp = Some now,
      br_SuccessfulCount = int (length (filter (\<lambda>r. is_success (ir_Result r)) results)),
      br_FailedCount = int (length (filter (\<lambda>r. \<not> is_success (ir_Result r)) results))\<rparr>"

definition BatchGetKeyMetadata ::
  "service \<Rightarrow> batch_get_request option \<Rightarrow> world \<Rightarrow> metadata_response batch_response result" where
  "BatchGetKeyMetadata S req w =
     (case req of
        None \<Rightarrow> (Inl (Sentinel ErrInvalidInput), w)
      | Some rq \<Rightarrow>
          if invalid_requester (bg_RequesterContext rq) then (Inl (Sentinel ErrInvalidInput), w)
          else case parse_slots (e_uuid (s_env S)) (bg_ContinueOnError rq) (map ki_KeyId (bg_Keys rq)) of
            Inl err \<Rightarrow> (Inl err, w)
          | Inr (keyIDs, bad) \<Rightarrow>
              (case repo_GetBatchKeyMetadata (s_keyRepo S) keyIDs w of
                 (Inl err, w1) \<Rightarrow>
                   if \<not> bg_ContinueOnError rq
                   then (Inl (wrapf ''failed to retrieve batch key metadata from repository'' err), w1)
                   else (Inr (count_reply (bad @ map (\<lambda>i.
                           \<lparr>ir_KeyId = KeyID_String (e_uuid (s_env S)) i,
                            ir_Result = Failure (error_string err)\<rparr>) keyIDs) (w_now w1)), w1)
               | (Inr mds, w1) \<Rightarrow>
                   (Inr (count_reply (bad @ map (metadata_result (metadata_map mds) (w_now w1))
                           (bg_Keys rq)) (w_now w1)), w1)))"

section \<open>ListKeys\<close>

text \<open>
  A page token is a time in the layout \<^verbatim>\<open>time.RFC3339Nano\<close>; the code relies on \<^verbatim>\<open>time.Parse\<close>
  reading back what \<^verbatim>\<open>Format\<close> wrote.
\<close>

record time_layout =
  time_Format :: "time \<Rightarrow> string"
  time_Parse :: "string \<Rightarrow> time option"

definition time_layout_ok :: "time_layout \<Rightarrow> bool" where
  "time_layout_ok F \<longleftrightarrow> (\<forall>t. time_Parse F (time_Format F t) = Some t \<and> time_Format F t \<noteq> '''')"

definition default_page_size :: int where "default_page_size = 100"

definition ListKeys :: "service \<Rightarrow> time_layout \<Rightarrow> list_request option \<Rightarrow> world \<Rightarrow> list_response result" where
  "ListKeys S F req w =
     (case req of
        None \<Rightarrow> (Inl (Sentinel ErrInvalidInput), w)
      | Some rq \<Rightarrow>
          (case (if lq_PageToken rq = '''' then Some None
                 else (case time_Parse F (lq_PageToken rq) of None \<Rightarrow> None | Some t \<Rightarrow> Some (Some t))) of
             None \<Rightarrow> (Inl (Sentinel ErrInvalidInput), w)
           | Some cursor \<Rightarrow>
               (let limit = (if lq_PageSize rq = 0 then default_page_size else lq_PageSize rq)
                in case repo_ListKeys (s_keyRepo S) cursor limit w of
                     (Inl err, w1) \<Rightarrow> (Inl err, w1)
                   | (Inr ks, w1) \<Rightarrow>
                       (Inr \<lparr>lr_Keys = map k_Metadata ks,
                          lr_NextPageToken =
                            (if int (length ks) = limit then time_Format F (k_CreatedAt (last ks)) else ''''),
                          lr_ResponseTimestamp = w_now w1\<rparr>, w1))))"

section \<open>What GetKey returns\<close>

text \<open>The row a request asks for.\<close>

definition requested_row :: "key_id \<Rightarrow> int \<Rightarrow> key_table \<Rightarrow> key_row option" where
  "requested_row i v t = (if v > 0 then sql_by_version i v t else sql_latest i t)"

lemma key_response_audit:
  "key_response S op client skip kid k w = (Inr resp, w') \<Longrightarrow> \<exists>v. w' = AuditLog client op kid '''' True None v"
  by (auto simp: key_response_def split: sum.splits prod.splits)

lemma AuditLog_local: "svc_local w (AuditLog c op i d s e w)" "w_dkc (AuditLog c op i d s e w) = w_dkc w"
  "w_deks (AuditLog c op i d s e w) = w_deks w"
  by (simp_all add: AuditLog_def svc_local_def)

text \<open>The answer to a request that succeeded: the row it is about, not revoked, and its DEK.\<close>

definition answers_get ::
  "service \<Rightarrow> (world \<Rightarrow> bool) \<Rightarrow> get_request \<Rightarrow> key_table \<Rightarrow> get_response \<Rightarrow> bool" where
  "answers_get S kinv rq t resp \<longleftrightarrow> (\<exists>i r k.
     KeyIDFromString (e_uuid (s_env S)) (gq_KeyId rq) = Inr i \<and>
     requested_row i (gq_Version rq) t = Some r \<and> row_key r = Some k \<and>
     r_status r \<noteq> KeyStatusRevoked \<and>
     km_EncryptedKeyData (gr_KeyMaterial resp) = r_encrypted_dek r \<and>
     gr_Metadata resp = (if gq_SkipMetadata rq then None else k_Metadata k) \<and>
     (\<forall>dek. recovers S kinv k dek \<longrightarrow>
        km_KeyChecksum (gr_KeyMaterial resp) = hex_EncodeToString (sha256_Sum (s_crypto S) dek)))"

lemma stored_key_fields:
  "row_key r = Some k \<Longrightarrow> k_Status k = r_status r \<and> k_EncryptedDEK k = r_encrypted_dek r \<and> k_ID k = r_id r \<and> k_Version k = r_version r"
  by (auto simp: row_key_def split: sum.splits)

context key_service
begin

lemma key_response_ok:
  assumes w: "service_inv inv kinv w" and r: "key_response S op client skip kid k w = (res, w')"
  shows "service_inv inv kinv w' \<and> w_keys w' = w_keys w"
    and "res = Inr resp \<Longrightarrow> km_EncryptedKeyData (gr_KeyMaterial resp) = k_EncryptedDEK k \<and>
      gr_Metadata resp = (if skip then None else k_Metadata k) \<and>
      (\<forall>dek. recovers S kinv k dek \<longrightarrow>
        km_KeyChecksum (gr_KeyMaterial resp) = hex_EncodeToString (sha256_Sum (s_crypto S) dek))"
proof -
  let ?post = "\<lambda>resp. km_EncryptedKeyData (gr_KeyMaterial resp) = k_EncryptedDEK k \<and>
      gr_Metadata resp = (if skip then None else k_Metadata k) \<and>
      (\<forall>dek. recovers S kinv k dek \<longrightarrow>
        km_KeyChecksum (gr_KeyMaterial resp) = hex_EncodeToString (sha256_Sum (s_crypto S) dek))"
  have "service_inv inv kinv w' \<and> w_keys w' = w_keys w \<and> (\<forall>resp. res = Inr resp \<longrightarrow> ?post resp)"
  proof (cases "getKMSProvider S (GetStorageType (k_Metadata k))")
    case (Inl err)
    then show ?thesis using r w by (auto simp: key_response_def)
  next
    case (Inr K)
    obtain x u where d: "kms_DecryptDEK K k w = (x, u)" by fastforce
    have K: "kms K kinv" using provider getKMSProvider_mem [OF Inr] by blast
    have w0: "kinv w" using w by (simp add: service_inv_def)
    have u: "kinv u" "svc_local w u" "w_deks u = w_deks w"
      using kms.dec_frame [OF K w0 d] kms_keeps_local by blast+
    have iu: "service_inv inv kinv u" "w_keys u = w_keys w"
      using service_inv_local [OF w u(2,1,3)] svc_local_keys(1) [OF u(2)] by simp_all
    have log: "service_inv inv kinv (AuditLog c op' i d' s e u) \<and> w_keys (AuditLog c op' i d' s e u) = w_keys w"
      for c op' i d' s e
      using service_inv_local [OF iu(1) AuditLog_local(1)] kinv_local [OF u(1) AuditLog_local(2)] iu(2)
      by (simp add: AuditLog_def)
    have dek: "\<forall>q p. x = Inr q \<longrightarrow> recovers S kinv k p \<longrightarrow> q = p"
      using d w0 Inr unfolding recovers_def by blast
    show ?thesis
      using r Inr d log iu dek by (cases x) (auto simp: key_response_def split: sum.splits)
  qed
  then show "service_inv inv kinv w' \<and> w_keys w' = w_keys w"
    and "res = Inr resp \<Longrightarrow> ?post resp"
    by blast+
qed

lemma getKeyByRequest_ok:
  assumes w: "service_inv inv kinv w" and r: "getKeyByRequest S i v w = (res, w')"
  shows "service_inv inv kinv w' \<and> w_keys w' = w_keys w"
    and "res = Inr p \<Longrightarrow> \<exists>row. requested_row i v (w_keys w) = Some row \<and> row_key row = Some (deref w' p)"
proof -
  have i: "inv w" using w by (simp add: service_inv_def)
  obtain x u where x: "(if v > 0 then repo_GetKeyByVersion (s_keyRepo S) i v w
      else repo_GetKey (s_keyRepo S) i w) = (x, u)" by fastforce
  have u: "w' = u" "\<And>p. res = Inr p \<Longrightarrow> x = Inr p"
    using r x by (auto simp: getKeyByRequest_def split: sum.splits)
  show "service_inv inv kinv w' \<and> w_keys w' = w_keys w"
    using x u service_inv_repo [OF w] version_frame [OF i, of i v x u] get_frame [OF i, of i x u]
    by (auto split: if_splits)
  show "\<exists>row. requested_row i v (w_keys w) = Some row \<and> row_key row = Some (deref w' p)" if "res = Inr p"
    using x u that version_reads [OF i, of i v p u] get_reads [OF i, of i p u]
    by (auto simp: requested_row_def split: if_splits)
qed

lemma GetKey_ok:
  assumes w: "service_inv inv kinv w" and r: "GetKey S (Some rq) w = (res, w')"
  shows "service_inv inv kinv w' \<and> w_keys w' = w_keys w"
    and "res = Inr resp \<Longrightarrow> answers_get S kinv rq (w_keys w) resp"
proof -
  have "service_inv inv kinv w' \<and> w_keys w' = w_keys w \<and>
    (\<forall>resp. res = Inr resp \<longrightarrow> answers_get S kinv rq (w_keys w) resp)"
  proof (cases "KeyIDFromString (e_uuid (s_env S)) (gq_KeyId rq)")
    case (Inl err)
    then show ?thesis using r w by (auto simp: GetKey_def)
  next
    case (Inr i)
    obtain x u where g: "getKeyByRequest S i (gq_Version rq) w = (x, u)" by fastforce
    note ok = getKeyByRequest_ok [OF w g]
    show ?thesis
    proof (cases x)
      case (Inl err)
      then show ?thesis using r Inr g ok(1) by (auto simp: GetKey_def)
    next
      case x: (Inr p)
      from ok(2) [OF x] obtain row where row: "requested_row i (gq_Version rq) (w_keys w) = Some row"
        "row_key row = Some (deref u p)" by blast
      consider (refused) e where "res = Inl e" "w' = u"
        | (answered) "k_Status (deref u p) \<noteq> KeyStatusRevoked"
            "key_response S ''GetKey'' (GetClientIdentity (gq_RequesterContext rq)) (gq_SkipMetadata rq)
               (KeyID_String (e_uuid (s_env S)) i) (deref u p) u = (res, w')"
        using r Inr g x by (auto simp: GetKey_def Let_def split: if_splits)
      then show ?thesis
      proof cases
        case answered
        have ui: "service_inv inv kinv u" "w_keys u = w_keys w" using ok(1) by simp_all
        note kr = key_response_ok [OF ui(1) answered(2)]
        have "answers_get S kinv rq (w_keys w) resp" if "res = Inr resp" for resp
          using kr(2) [OF that] row stored_key_fields [OF row(2)] answered(1) Inr
          unfolding answers_get_def by (intro exI [of _ i] exI [of _ row] exI [of _ "deref u p"]) simp
        then show ?thesis using kr(1) ui(2) by simp
      qed (use ok(1) in simp)
    qed
  qed
  then show "service_inv inv kinv w' \<and> w_keys w' = w_keys w"
    and "res = Inr resp \<Longrightarrow> answers_get S kinv rq (w_keys w) resp"
    by blast+
qed

text \<open>A revoked row is never answered, whatever the state of the caches.\<close>

lemma GetKey_not_revoked:
  assumes "service_inv inv kinv w" and "GetKey S (Some rq) w = (Inr resp, w')"
    and "KeyIDFromString (e_uuid (s_env S)) (gq_KeyId rq) = Inr i"
  shows "\<exists>r. requested_row i (gq_Version rq) (w_keys w) = Some r \<and> r_status r \<noteq> KeyStatusRevoked"
  using GetKey_ok(2) [OF assms(1,2) refl] assms(3) by (auto simp: answers_get_def)

end

section \<open>Reading back what was created\<close>

lemma sql_append_fresh:
  assumes "sql_latest i t = None" "r_id r = i"
  shows "sql_latest i (t @ [r]) = Some r"
    and "sql_by_version i (r_version r) (t @ [r]) = Some r"
proof -
  have none: "\<forall>r \<in> set t. r_id r \<noteq> i" using assms(1) by (simp add: sql_latest_None)
  then have "rows_of i (t @ [r]) = [r]" using assms(2) by (simp add: rows_of_def)
  then show "sql_latest i (t @ [r]) = Some r" by (simp add: sql_latest_def)
  show "sql_by_version i (r_version r) (t @ [r]) = Some r"
    using none assms(2) unfolding sql_by_version_def by (induction t) auto
qed

lemma row_key_created:
  "row_key (key_to_row k) = Some k' \<Longrightarrow>
    k_Metadata k' = k_Metadata k \<and> k_ID k' = k_ID k \<and> k_EncryptedDEK k' = k_EncryptedDEK k"
  by (auto simp: row_key_def key_to_row_def unmarshal_marshal)

lemma recovers_stored:
  "recovers S kinv k dek \<Longrightarrow> row_key (key_to_row k) = Some k' \<Longrightarrow> recovers S kinv k' dek"
  using row_key_created [of k k'] by (simp add: recovers_def)

context key_service
begin

lemma create_then_get:
  assumes w: "service_inv inv kinv w" and c: "CreateKey S (Some rq) w = (Inr resp, w1)"
    and i: "KeyIDFromString (e_uuid (s_env S)) (cr_KeyId resp) = Inr i" and fresh: "sql_latest i (w_keys w) = None"
    and v: "service_inv inv kinv v" "w_keys v = w_keys w1"
    and g: "GetKey S (Some grq) v = (Inr gresp, v')"
    and q: "gq_KeyId grq = cr_KeyId resp" "gq_Version grq \<le> 1"
  shows "Some (km_EncryptedKeyData (gr_KeyMaterial gresp)) = map_option km_EncryptedKeyData (cr_KeyMaterial resp)"
    and "\<not> gq_SkipMetadata grq \<Longrightarrow> gr_Metadata gresp = cr_Metadata resp"
    and "\<exists>dek. length dek = 32 \<and>
      km_KeyChecksum (gr_KeyMaterial gresp) = hex_EncodeToString (sha256_Sum (s_crypto S) dek)"
proof -
  from CreateKey_ok(2) [OF w c refl] obtain k dek where k:
    "fresh_key S (create_item.truncate rq) (GetClientIdentity (cq_RequesterContext rq))
       (tier_profile (cq_RequesterContext rq)) (w_now w) k"
    "w_keys w1 = w_keys w @ [key_to_row k]" "length dek = 32" "recovers S kinv k dek"
    "cr_KeyId resp = KeyID_String (e_uuid (s_env S)) (k_ID k)" "cr_Metadata resp = k_Metadata k"
    "map_option km_EncryptedKeyData (cr_KeyMaterial resp) = Some (k_EncryptedDEK k)"
    unfolding creates_key_def by blast
  have L: "uuid_lib_ok (e_uuid (s_env S))" using env w by (auto simp: service_inv_def env_ok_def)
  have ki: "k_ID k = i" using i k(5) KeyID_roundtrip [OF L] by simp
  have ver: "k_Version k = 1" using k(1) by (auto simp: fresh_key_def new_key_def)
  have row: "requested_row i (gq_Version grq) (w_keys v) = Some (key_to_row k)"
    using sql_append_fresh [OF fresh, of "key_to_row k"] v(2) k(2) ki ver q(2)
    by (cases "gq_Version grq = 1") (simp_all add: requested_row_def key_to_row_def)
  from GetKey_ok(2) [OF v(1) g refl] obtain k' where k': "row_key (key_to_row k) = Some k'"
    "km_EncryptedKeyData (gr_KeyMaterial gresp) = r_encrypted_dek (key_to_row k)"
    "gr_Metadata gresp = (if gq_SkipMetadata grq then None else k_Metadata k')"
    "\<forall>dek. recovers S kinv k' dek \<longrightarrow>
        km_KeyChecksum (gr_KeyMaterial gresp) = hex_EncodeToString (sha256_Sum (s_crypto S) dek)"
    using row q(1) i unfolding answers_get_def by auto
  show "Some (km_EncryptedKeyData (gr_KeyMaterial gresp)) = map_option km_EncryptedKeyData (cr_KeyMaterial resp)"
    using k'(2) k(7) by (auto simp: key_to_row_def)
  show "gr_Metadata gresp = cr_Metadata resp" if "\<not> gq_SkipMetadata grq"
    using k'(1,3) k(6) that row_key_created [OF k'(1)] by simp
  show "\<exists>dek. length dek = 32 \<and>
      km_KeyChecksum (gr_KeyMaterial gresp) = hex_EncodeToString (sha256_Sum (s_crypto S) dek)"
    using k'(4) recovers_stored [OF k(4) k'(1)] k(3) by blast
qed

end

end
