(* ===== verification/Pipeline.thy ===== *)
theory Pipeline
  imports KeyService Steps
begin

text \<open>
  The key rotation pipeline of \<^verbatim>\<open>internal/pipelines/key_rotation.go\<close>: a bounded channel of
  requests, a fixed number of workers, a bounded channel of results.  The workers and the callers
  run concurrently; \<open>pipeline_step\<close> is their step relation, in which the rotation of one key is
  one step on the shared state.
\<close>

section \<open>Requests and results\<close>

record rotation_request =
  rq_KeyID :: key_id
  rq_KMSProvider :: kms_provider
  rq_GracePeriodSeconds :: int
  rq_KeyType :: proto_enum

record rotation_result =
  rr_KeyID :: key_id
  rr_RotatedKey :: "key option"
  rr_Error :: "go_error option"
  rr_GracePeriodSeconds :: int

text \<open>A new DEK for the key, encrypted, and the new version in the repository.\<close>

definition rotate_dek ::
  "env \<Rightarrow> key_repo \<Rightarrow> kms_provider \<Rightarrow> key_id \<Rightarrow> key \<Rightarrow> world \<Rightarrow> key result" where
  "rotate_dek E R K keyID currentKey =
     with_new_dek E (wrapf ''failed to generate new DEK'') (\<lambda>newDEK w.
       case kms_EncryptDEK K newDEK currentKey w of
         (Inl err, w1) \<Rightarrow> (Inl (wrapf ''failed to encrypt new DEK'' err), w1)
       | (Inr encryptedNewDEK, w1) \<Rightarrow>
           (case repo_RotateKey R keyID encryptedNewDEK w1 of
              (Inl err, w2) \<Rightarrow> (Inl (wrapf ''failed to rotate key'' err), w2)
            | (Inr rotatedKey, w2) \<Rightarrow> (Inr rotatedKey, w2)))"

definition pipeline_processRotation :: "env \<Rightarrow> key_repo \<Rightarrow> rotation_request \<Rightarrow> world \<Rightarrow> key result" where
  "pipeline_processRotation E R req w =
     (case repo_GetKey R (rq_KeyID req) w of
        (Inl err, w1) \<Rightarrow> (Inl (wrapf ''failed to get current key'' err), w1)
      | (Inr p, w1) \<Rightarrow> rotate_dek E R (rq_KMSProvider req) (rq_KeyID req) (deref w1 p) w1)"

definition rotation_result_of :: "rotation_request \<Rightarrow> go_error + key \<Rightarrow> rotation_result" where
  "rotation_result_of req res =
     \<lparr>rr_KeyID = rq_KeyID req,
      rr_RotatedKey = (case res of Inl _ \<Rightarrow> None | Inr k \<Rightarrow> Some k),
      rr_Error = (case res of Inl err \<Rightarrow> Some err | Inr _ \<Rightarrow> None),
      rr_GracePeriodSeconds = rq_GracePeriodSeconds req\<rparr>"

section \<open>The pipeline\<close>

text \<open>\<open>pl_sending\<close> holds the results of workers that have not yet sent them.\<close>

record pipeline =
  pl_requests :: "rotation_request list"
  pl_results :: "rotation_result list"
  pl_sending :: "rotation_result list"
  pl_workerCount :: nat
  pl_queueDepth :: nat

definition NewKeyRotationPipeline :: "nat \<Rightarrow> nat \<Rightarrow> pipeline" where
  "NewKeyRotationPipeline workerCount queueDepth =
     \<lparr>pl_requests = [], pl_results = [], pl_sending = [], pl_workerCount = workerCount,
      pl_queueDepth = queueDepth\<rparr>"

definition Enqueue :: "rotation_request \<Rightarrow> pipeline \<Rightarrow> bool \<times> pipeline" where
  "Enqueue req p =
     (if length (pl_requests p) < pl_queueDepth p
      then (True, p\<lparr>pl_requests := pl_requests p @ [req]\<rparr>) else (False, p))"

datatype event = Accepted rotation_request | Rejected rotation_request | Worked | Sent
  | Received rotation_result

inductive pipeline_step ::
  "env \<Rightarrow> key_repo \<Rightarrow> pipeline \<times> world \<Rightarrow> event \<Rightarrow> pipeline \<times> world \<Rightarrow> bool"
  for E R where
  enqueue: "Enqueue req p = (True, p') \<Longrightarrow> pipeline_step E R (p, w) (Accepted req) (p', w)"
| reject: "Enqueue req p = (False, p') \<Longrightarrow> pipeline_step E R (p, w) (Rejected req) (p', w)"
| worker: "pl_requests p = req # reqs \<Longrightarrow> length (pl_sending p) < pl_workerCount p \<Longrightarrow>
    pipeline_processRotation E R req w = (res, w') \<Longrightarrow>
    pipeline_step E R (p, w) Worked
      (p\<lparr>pl_requests := reqs, pl_sending := pl_sending p @ [rotation_result_of req res]\<rparr>, w')"
| send: "i < length (pl_sending p) \<Longrightarrow> length (pl_results p) < pl_queueDepth p \<Longrightarrow>
    pipeline_step E R (p, w) Sent
      (p\<lparr>pl_results := pl_results p @ [pl_sending p ! i],
         pl_sending := take i (pl_sending p) @ drop (Suc i) (pl_sending p)\<rparr>, w)"
| receive: "pl_results p = x # xs \<Longrightarrow>
    pipeline_step E R (p, w) (Received x) (p\<lparr>pl_results := xs\<rparr>, w)"

abbreviation pipeline_run ::
  "env \<Rightarrow> key_repo \<Rightarrow> pipeline \<times> world \<Rightarrow> event list \<Rightarrow> pipeline \<times> world \<Rightarrow> bool" where
  "pipeline_run E R \<equiv> steps (pipeline_step E R)"

section \<open>Bounds\<close>

definition pipeline_ok :: "pipeline \<Rightarrow> bool" where
  "pipeline_ok p \<longleftrightarrow> length (pl_requests p) \<le> pl_queueDepth p \<and>
     length (pl_results p) \<le> pl_queueDepth p \<and> length (pl_sending p) \<le> pl_workerCount p"

lemma Enqueue_cases:
  assumes "Enqueue req p = (b, p')"
  obtains "b" "length (pl_requests p) < pl_queueDepth p" "p' = p\<lparr>pl_requests := pl_requests p @ [req]\<rparr>"
  | "\<not> b" "pl_queueDepth p \<le> length (pl_requests p)" "p' = p"
  using assms by (auto simp: Enqueue_def split: if_splits)

lemma pipeline_step_ok:
  assumes "pipeline_step E R (p, w) e (p', w')" and "pipeline_ok p"
  shows "pipeline_ok p' \<and> pl_queueDepth p' = pl_queueDepth p \<and> pl_workerCount p' = pl_workerCount p"
  using assms
  by (cases rule: pipeline_step.cases) (auto simp: pipeline_ok_def elim!: Enqueue_cases)

section \<open>Conservation\<close>

text \<open>The key ids of what is inside the pipeline.\<close>

definition in_flight :: "pipeline \<Rightarrow> key_id multiset" where
  "in_flight p = image_mset rq_KeyID (mset (pl_requests p)) +
     image_mset rr_KeyID (mset (pl_sending p)) + image_mset rr_KeyID (mset (pl_results p))"

fun accepted_ids :: "event list \<Rightarrow> key_id multiset" where
  "accepted_ids [] = {#}"
| "accepted_ids (Accepted r # es) = {#rq_KeyID r#} + accepted_ids es"
| "accepted_ids (_ # es) = accepted_ids es"

fun received_ids :: "event list \<Rightarrow> key_id multiset" where
  "received_ids [] = {#}"
| "received_ids (Received r # es) = {#rr_KeyID r#} + received_ids es"
| "received_ids (_ # es) = received_ids es"

lemma mset_remove_nth:
  "i < length xs \<Longrightarrow> mset xs = {#xs ! i#} + mset (take i xs @ drop (Suc i) xs)"
  by (metis add_mset_add_single id_take_nth_drop mset.simps(2) mset_append
      union_commute union_mset_add_mset_right)

lemma pipeline_step_conserves:
  assumes "pipeline_step E R (p, w) e (p', w')"
  shows "in_flight p' + received_ids [e] = in_flight p + accepted_ids [e]"
  using assms
proof (cases rule: pipeline_step.cases)
  case (enqueue req)
  then show ?thesis by (auto simp: in_flight_def elim!: Enqueue_cases)
next
  case (reject req)
  then show ?thesis by (auto simp: in_flight_def elim!: Enqueue_cases)
next
  case (worker req reqs res)
  then show ?thesis by (simp add: in_flight_def rotation_result_of_def)
next
  case (send i)
  then show ?thesis using arg_cong [OF mset_remove_nth [of i "pl_sending p"], of "image_mset rr_KeyID"]
    by (simp add: in_flight_def)
next
  case (receive xs)
  then show ?thesis by (simp add: in_flight_def)
qed

interpretation pipeline_flow: conserving "pipeline_step E R" "\<lambda>s. in_flight (fst s)" "\<lambda>e. accepted_ids [e]" "\<lambda>e. received_ids [e]"
  for E R
  by unfold_locales (auto intro: pipeline_step_conserves)

lemma accepted_ids_sum: "(\<Sum>e\<leftarrow>es. accepted_ids [e]) = accepted_ids es"
  by (induction es rule: accepted_ids.induct) auto

lemma received_ids_sum: "(\<Sum>e\<leftarrow>es. received_ids [e]) = received_ids es"
  by (induction es rule: received_ids.induct) auto

lemma pipeline_run_conserves:
  assumes "pipeline_run E R (p, w) es (p', w')"
  shows "in_flight p' + received_ids es = in_flight p + accepted_ids es"
  using pipeline_flow.steps_balance [OF assms] by (simp add: accepted_ids_sum received_ids_sum)

lemma pipeline_run_ok:
  assumes "pipeline_run E R (p, w) es (p', w')" and "pipeline_ok p"
  shows "pipeline_ok p' \<and> pl_queueDepth p' = pl_queueDepth p \<and> pl_workerCount p' = pl_workerCount p"
  using steps_invariant [OF assms(1), of "\<lambda>(q, v). pipeline_ok q \<and> pl_queueDepth q = pl_queueDepth p \<and>
      pl_workerCount q = pl_workerCount p"] assms(2) pipeline_step_ok by fastforce

section \<open>Progress\<close>

text \<open>
  Only full channels stop the workers: with room in the results channel and a worker, every
  accepted request is processed and its result sent.
\<close>

definition backlog :: "pipeline \<Rightarrow> nat" where
  "backlog p = 2 * length (pl_requests p) + length (pl_sending p)"

definition is_internal :: "event \<Rightarrow> bool" where
  "is_internal e \<longleftrightarrow> e = Worked \<or> e = Sent"

lemma pipeline_progress:
  assumes "pl_requests p \<noteq> [] \<or> pl_sending p \<noteq> []" and "0 < pl_workerCount p"
    and "length (pl_results p) < pl_queueDepth p"
  shows "\<exists>e p' w'. is_internal e \<and> pipeline_step E R (p, w) e (p', w')"
proof (cases "pl_sending p")
  case Nil
  then obtain req reqs where "pl_requests p = req # reqs" using assms(1) by (cases "pl_requests p") auto
  moreover obtain res w' where "pipeline_processRotation E R req w = (res, w')" by fastforce
  ultimately show ?thesis
    using pipeline_step.worker [of p req reqs E R w res w'] Nil assms(2) by (auto simp: is_internal_def)
next
  case (Cons x xs)
  then show ?thesis using pipeline_step.send [of 0 p E R w] assms(3) by (auto simp: is_internal_def)
qed

lemma internal_decreases:
  assumes "pipeline_step E R (p, w) e (p', w')" "is_internal e"
  shows "backlog p' < backlog p"
  using assms by (cases rule: pipeline_step.cases) (auto simp: backlog_def is_internal_def)

end
