(* ===== verification/KeyManager.thy ===== *)
theory KeyManager
  imports KeyRetriever Pipeline
begin

text \<open>
  Changing keys: \<^verbatim>\<open>key_manager.go\<close>.  A single rotation goes through the pipeline: it is the part
  up to the enqueued request (\<open>RotateKey_submit\<close>) and the part that answers from the result the
  caller received (\<open>RotateKey_answer\<close>).
\<close>

section \<open>Messages\<close>

record rotate_request =
  rt_KeyId :: string
  rt_GracePeriodSeconds :: int

record rotate_response =
  rs_KeyId :: string
  rs_NewVersion :: int
  rs_PreviousVersion :: int
  rs_NewKeyMaterial :: key_material
  rs_Metadata :: "key_metadata option"
  rs_RotationTimestamp :: time
  rs_OldVersionExpiresAt :: time

record 'item batch_request =
  bq_RequesterContext :: "requester_context option"
  bq_Keys :: "'item list"
  bq_ContinueOnError :: bool

text \<open>The fields both kinds of metadata update share; the single update ignores the policies.\<close>

record update_item =
  ui_KeyId :: string
  ui_Description :: "string option"
  ui_ExpiresAt :: "time option"
  ui_DataClassification :: "string option"
  ui_TagsToAdd :: "(string \<times> string) list"
  ui_TagsToRemove :: "string list"
  ui_PoliciesToUpdate :: "(string \<times> string) list"

section \<open>Rotation\<close>

definition processRotation :: "service \<Rightarrow> key_id \<Rightarrow> world \<Rightarrow> (key \<times> key) result" where
  "processRotation S keyID w =
     (case repo_GetKey (s_keyRepo S) keyID w of
        (Inl err, w1) \<Rightarrow> (Inl (wrapf ''failed to get current key'' err), w1)
      | (Inr p, w1) \<Rightarrow>
          (let currentKey = deref w1 p in
           case getKMSProvider S (GetStorageType (k_Metadata currentKey)) of
             Inl err \<Rightarrow> (Inl err, w1)
           | Inr K \<Rightarrow>
               if GetKeyType (k_Metadata currentKey) \<notin> set (dekPools S)
               then (Inl (wrap_suffix (Sentinel SvcErrInvalidKeyType) ''unsupported key type for pooling''), w1)
               else (case rotate_dek (s_env S) (s_keyRepo S) K keyID currentKey w1 of
                       (Inl err, w2) \<Rightarrow> (Inl err, w2)
                     | (Inr rotatedKey, w2) \<Rightarrow> (Inr (currentKey, rotatedKey), w2))))"

definition rotation_response :: "string \<Rightarrow> int \<Rightarrow> int \<Rightarrow> key \<Rightarrow> time \<Rightarrow> rotate_response" where
  "rotation_response kid graceSeconds previousVersion rotatedKey now =
     \<lparr>rs_KeyId = kid, rs_NewVersion = k_Version rotatedKey, rs_PreviousVersion = previousVersion,
      rs_NewKeyMaterial = \<lparr>km_EncryptedKeyData = k_EncryptedDEK rotatedKey,
        km_EncryptionAlgorithm = ''AES-256-GCM'', km_KeyChecksum = ''sha256''\<rparr>,
      rs_Metadata = k_Metadata rotatedKey, rs_RotationTimestamp = now,
      rs_OldVersionExpiresAt = now + graceSeconds * second\<rparr>"

definition RotateKey_submit ::
  "service \<Rightarrow> rotate_request option \<Rightarrow> pipeline \<Rightarrow> world \<Rightarrow> key result \<times> pipeline" where
  "RotateKey_submit S req pl w =
     (case req of
        None \<Rightarrow> ((Inl (wrap_suffix (Sentinel SvcErrInvalidRequest) ''request is nil''), w), pl)
      | Some rq \<Rightarrow>
          (case KeyIDFromString (e_uuid (s_env S)) (rt_KeyId rq) of
             Inl err \<Rightarrow> ((Inl err, w), pl)
           | Inr keyID \<Rightarrow>
               (case repo_GetKey (s_keyRepo S) keyID w of
                  (Inl err, w1) \<Rightarrow> ((Inl (wrapf ''failed to get current key for rotation'' err), w1), pl)
                | (Inr p, w1) \<Rightarrow>
                    (let currentKey = deref w1 p in
                     case getKMSProvider S (GetStorageType (k_Metadata currentKey)) of
                       Inl err \<Rightarrow> ((Inl err, w1), pl)
                     | Inr K \<Rightarrow>
                         if GetKeyType (k_Metadata currentKey) \<notin> set (dekPools S)
                         then ((Inl (wrap_suffix (Sentinel SvcErrInvalidKeyType)
                                  ''unsupported key type for pooling''), w1), pl)
                         else (case Enqueue \<lparr>rq_KeyID = keyID, rq_KMSProvider = K,
                                     rq_GracePeriodSeconds = 0, rq_KeyType = 0\<rparr> pl of
                                 (False, pl') \<Rightarrow>
                                   ((Inl (StatusError ResourceExhausted
                                      ''key rotation queue is full, please try again later''), w1), pl')
                               | (True, pl') \<Rightarrow> ((Inr currentKey, w1), pl'))))))"

definition RotateKey_answer ::
  "rotate_request \<Rightarrow> key \<Rightarrow> rotation_result \<Rightarrow> time \<Rightarrow> go_error + rotate_response" where
  "RotateKey_answer rq currentKey result now =
     (case (rr_Error result, rr_RotatedKey result) of
        (Some err, _) \<Rightarrow> Inl err
      | (None, None) \<Rightarrow> Inl (Panicked ''nil pointer dereference'')
      | (None, Some rotatedKey) \<Rightarrow>
          Inr (rotation_response (rt_KeyId rq) (rt_GracePeriodSeconds rq) (k_Version currentKey)
                 rotatedKey now))"

definition rotate_Validate :: "service \<Rightarrow> rotate_request \<Rightarrow> go_error option" where
  "rotate_Validate S item =
     (case KeyIDFromString (e_uuid (s_env S)) (rt_KeyId item) of Inl err \<Rightarrow> Some err | Inr _ \<Rightarrow> None)"

definition rotate_Process :: "service \<Rightarrow> rotate_request \<Rightarrow> world \<Rightarrow> rotate_response result" where
  "rotate_Process S item w =
     (let keyID = (case KeyIDFromString (e_uuid (s_env S)) (rt_KeyId item) of
                     Inl _ \<Rightarrow> zero_KeyID | Inr i \<Rightarrow> i)
      in case processRotation S keyID w of
           (Inl err, w1) \<Rightarrow> (Inl err, w1)
         | (Inr (currentKey, rotatedKey), w1) \<Rightarrow>
             (Inr (rotation_response (rt_KeyId item) (rt_GracePeriodSeconds item) (k_Version currentKey)
                     rotatedKey (w_now w1)), w1))"

definition BatchRotateKeys ::
  "service \<Rightarrow> nat list \<Rightarrow> rotate_request batch_request option \<Rightarrow> world \<Rightarrow>
   rotate_response batch_response result" where
  "BatchRotateKeys S order req w =
     (case req of
        None \<Rightarrow> (Inl (Sentinel SvcErrInvalidRequest), w)
      | Some rq \<Rightarrow>
          if invalid_requester (bq_RequesterContext rq) then (Inl (Sentinel SvcErrInvalidRequest), w)
          else
            (let (items, w1) = ProcessBatch (rotate_Validate S) (rotate_Process S) order (bq_Keys rq) w
             in (Inr (batch_reply (map rt_KeyId (bq_Keys rq)) items (w_now w1)), w1)))"

section \<open>Revocation\<close>

definition RevokeKey :: "service \<Rightarrow> string option \<Rightarrow> world \<Rightarrow> unit result" where
  "RevokeKey S req w =
     (case req of
        None \<Rightarrow> (Inl (wrap_suffix (Sentinel SvcErrInvalidRequest) ''request is nil''), w)
      | Some kid \<Rightarrow>
          (case KeyIDFromString (e_uuid (s_env S)) kid of
             Inl err \<Rightarrow> (Inl err, w)
           | Inr keyID \<Rightarrow>
               (case repo_RevokeKey (s_keyRepo S) keyID w of
                  (Inl err, w1) \<Rightarrow> (Inl (wrapf ''failed to revoke key'' err), w1)
                | (Inr u, w1) \<Rightarrow> (Inr u, w1))))"

text \<open>Repeated request strings are revoked once; two spellings of one identifier are two strings.\<close>

fun revoke_ids ::
  "uuid_lib \<Rightarrow> bool \<Rightarrow> string list \<Rightarrow> string list \<Rightarrow> go_error + (key_id list \<times> bool item_result list)" where
  "revoke_ids L continueOnError seen [] = Inr ([], [])"
| "revoke_ids L continueOnError seen (s # ss) =
     (case KeyIDFromString L s of
        Inl err \<Rightarrow>
          if \<not> continueOnError then Inl (wrapf ''invalid key ID in batch request'' err)
          else (case revoke_ids L continueOnError seen ss of
                  Inl e \<Rightarrow> Inl e
                | Inr (is, rs) \<Rightarrow> Inr (is, \<lparr>ir_KeyId = s, ir_Result = Failure (error_string err)\<rparr> # rs))
      | Inr i \<Rightarrow>
          if s \<in> set seen then revoke_ids L continueOnError seen ss
          else (case revoke_ids L continueOnError (s # seen) ss of
                  Inl e \<Rightarrow> Inl e
                | Inr (is, rs) \<Rightarrow> Inr (i # is, rs)))"

definition BatchRevokeKeys ::
  "service \<Rightarrow> string batch_request option \<Rightarrow> world \<Rightarrow> bool batch_response result" where
  "BatchRevokeKeys S req w =
     (case req of
        None \<Rightarrow> (Inl (Sentinel SvcErrInvalidRequest), w)
      | Some rq \<Rightarrow>
          if invalid_requester (bq_RequesterContext rq) then (Inl (Sentinel SvcErrInvalidRequest), w)
          else case revoke_ids (e_uuid (s_env S)) (bq_ContinueOnError rq) [] (bq_Keys rq) of
            Inl err \<Rightarrow> (Inl err, w)
          | Inr (keyIDs, bad) \<Rightarrow>
              (let reply = (\<lambda>res w1. (Inr (count_reply (bad @ map (\<lambda>i.
                     \<lparr>ir_KeyId = KeyID_String (e_uuid (s_env S)) i, ir_Result = res\<rparr>) keyIDs) (w_now w1)), w1))
               in case repo_RevokeBatchKeys (s_keyRepo S) keyIDs w of
                    (Inl err, w1) \<Rightarrow>
                      if \<not> bq_ContinueOnError rq
                      then (Inl (wrapf ''failed to revoke batch keys from repository'' err), w1)
                      else reply (Failure (error_string err)) w1
                  | (Inr _, w1) \<Rightarrow> reply (Success True) w1))"

section \<open>Metadata updates\<close>

text \<open>The assignments both updates make; a nil map is the empty one.\<close>

definition update_tags :: "update_item \<Rightarrow> (string \<rightharpoonup> string) \<Rightarrow> (string \<rightharpoonup> string)" where
  "update_tags it tags = foldl (\<lambda>m t. m(t := None)) (tags ++ map_of (ui_TagsToAdd it)) (ui_TagsToRemove it)"

definition apply_update :: "update_item \<Rightarrow> description option \<Rightarrow> time \<Rightarrow> key_metadata \<Rightarrow> key_metadata" where
  "apply_update it desc now m =
     m\<lparr>m_Description := (case desc of None \<Rightarrow> m_Description m | Some d \<Rightarrow> desc_value d),
       m_ExpiresAt := (case ui_ExpiresAt it of None \<Rightarrow> m_ExpiresAt m | Some t \<Rightarrow> Some t),
       m_DataClassification :=
         (case ui_DataClassification it of None \<Rightarrow> m_DataClassification m | Some c \<Rightarrow> c),
       m_Tags := update_tags it (m_Tags m),
       m_UpdatedAt := Some now\<rparr>"

definition new_description :: "update_item \<Rightarrow> go_error + description option" where
  "new_description it =
     (case ui_Description it of
        None \<Rightarrow> Inr None
      | Some s \<Rightarrow> (case NewDescription s of Inl err \<Rightarrow> Inl err | Inr d \<Rightarrow> Inr (Some d)))"

text \<open>
  The metadata is changed in place, in the object the repository returned and may also hold in
  its cache, before it is written back.
\<close>

definition UpdateKeyMetadata :: "service \<Rightarrow> update_item option \<Rightarrow> world \<Rightarrow> unit result" where
  "UpdateKeyMetadata S req w =
     (case req of
        None \<Rightarrow> (Inl (wrap_suffix (Sentinel SvcErrInvalidRequest) ''request is nil''), w)
      | Some rq \<Rightarrow>
          (case KeyIDFromString (e_uuid (s_env S)) (ui_KeyId rq) of
             Inl err \<Rightarrow> (Inl err, w)
           | Inr keyID \<Rightarrow>
               (case repo_GetKey (s_keyRepo S) keyID w of
                  (Inl err, w1) \<Rightarrow> (Inl (wrapf ''failed to get key'' err), w1)
                | (Inr p, w1) \<Rightarrow>
                    (case new_description rq of
                       Inl err \<Rightarrow> (Inl err, w1)
                     | Inr desc \<Rightarrow>
                         (case k_Metadata (deref w1 p) of
                            None \<Rightarrow> (Inl (Panicked ''nil pointer dereference''), w1)
                          | Some m \<Rightarrow>
                              (let m' = apply_update rq desc (w_now w1) m;
                                   w2 = heap_write p ((deref w1 p)\<lparr>k_Metadata := Some m'\<rparr>) w1
                               in case repo_UpdateKeyMetadata (s_keyRepo S) keyID (Some m') w2 of
                                    (Inl err, w3) \<Rightarrow> (Inl (wrapf ''failed to update metadata'' err), w3)
                                  | (Inr u, w3) \<Rightarrow> (Inr u, w3)))))))"

definition apply_policies :: "update_item \<Rightarrow> key_metadata \<Rightarrow> key_metadata" where
  "apply_policies it m = m\<lparr>m_AccessPolicies := m_AccessPolicies m ++ map_of (ui_PoliciesToUpdate it)\<rparr>"

text \<open>One iteration of the loop: the failure of the item, or the object to update.\<close>

definition batch_update_item ::
  "service \<Rightarrow> update_item \<Rightarrow> world \<Rightarrow> ((string \<times> go_error) + nat) \<times> world" where
  "batch_update_item S it w =
     (case KeyIDFromString (e_uuid (s_env S)) (ui_KeyId it) of
        Inl err \<Rightarrow> (Inl (error_string err, wrapf ''invalid key ID in batch request'' err), w)
      | Inr keyID \<Rightarrow>
          (case repo_GetKey (s_keyRepo S) keyID w of
             (Inl err, w1) \<Rightarrow>
               (Inl (''failed to get key for update: '' @ error_string err,
                     wrapf ''failed to get key for update'' err), w1)
           | (Inr p, w1) \<Rightarrow>
               (case new_description it of
                  Inl err \<Rightarrow>
                    (Inl (''invalid description: '' @ error_string err, wrapf ''invalid description'' err), w1)
                | Inr desc \<Rightarrow>
                    (case k_Metadata (deref w1 p) of
                       None \<Rightarrow> (Inl ('''', Panicked ''nil pointer dereference''), w1)
                     | Some m \<Rightarrow>
                         (Inr p, heap_write p
                            ((deref w1 p)\<lparr>k_Metadata :=
                               Some ((apply_policies it (apply_update it desc (w_now w1) m))),
                               k_UpdatedAt := w_now w1\<rparr>) w1)))))"

fun batch_update_loop ::
  "service \<Rightarrow> bool \<Rightarrow> update_item list \<Rightarrow> world \<Rightarrow> (nat list \<times> bool item_result list) result" where
  "batch_update_loop S continueOnError [] w = (Inr ([], []), w)"
| "batch_update_loop S continueOnError (it # its) w =
     (case batch_update_item S it w of
        (Inl (msg, err), w1) \<Rightarrow>
          if \<not> continueOnError \<or> err = Panicked ''nil pointer dereference'' then (Inl err, w1)
          else (case batch_update_loop S continueOnError its w1 of
                  (Inl e, w2) \<Rightarrow> (Inl e, w2)
                | (Inr (ps, rs), w2) \<Rightarrow>
                    (Inr (ps, \<lparr>ir_KeyId = ui_KeyId it, ir_Result = Failure msg\<rparr> # rs), w2))
      | (Inr p, w1) \<Rightarrow>
          (case batch_update_loop S continueOnError its w1 of
             (Inl e, w2) \<Rightarrow> (Inl e, w2)
           | (Inr (ps, rs), w2) \<Rightarrow> (Inr (p # ps, rs), w2)))"

text \<open>After the repository call every requested item is reported once more, failed ones included.\<close>

definition BatchUpdateKeyMetadata ::
  "service \<Rightarrow> update_item batch_request option \<Rightarrow> world \<Rightarrow> bool batch_response result" where
  "BatchUpdateKeyMetadata S req w =
     (case req of
        None \<Rightarrow> (Inl (Sentinel SvcErrInvalidRequest), w)
      | Some rq \<Rightarrow>
          if invalid_requester (bq_RequesterContext rq) then (Inl (Sentinel SvcErrInvalidRequest), w)
          else case batch_update_loop S (bq_ContinueOnError rq) (bq_Keys rq) w of
            (Inl err, w1) \<Rightarrow> (Inl err, w1)
          | (Inr (keysToUpdate, bad), w1) \<Rightarrow>
              (let reply = (\<lambda>res w2. (Inr (count_reply (bad @ map (\<lambda>it.
                     \<lparr>ir_KeyId = ui_KeyId it, ir_Result = res\<rparr>) (bq_Keys rq)) (w_now w2)), w2))
               in case repo_UpdateBatchKeyMetadata (s_keyRepo S) keysToUpdate w1 of
                    (Inl err, w2) \<Rightarrow>
                      if \<not> bq_ContinueOnError rq
                      then (Inl (wrapf ''failed to update batch key metadata in repository'' err), w2)
                      else reply (Failure (error_string err)) w2
                  | (Inr _, w2) \<Rightarrow> reply (Success True) w2))"

section \<open>Revocation and rotation, as the callers see them\<close>

lemma revoked_rows:
  "requested_row i v (revoke_effect now i t) = Some r \<Longrightarrow> r_status r = KeyStatusRevoked"
  by (auto simp: requested_row_def revoke_effect_def sql_revoke_latest sql_revoke_by_version
      revoke_row_def split: if_splits)

text \<open>A row holds a DEK encrypted for the identifier \<open>i\<close>: 32 bytes that the provider gives back.\<close>

definition holds_dek :: "kms_provider \<Rightarrow> (world \<Rightarrow> bool) \<Rightarrow> key_id \<Rightarrow> bytes \<Rightarrow> bool" where
  "holds_dek K kinv i c \<longleftrightarrow> (\<exists>dek. length dek = 32 \<and>
     (\<forall>k v q v'. kinv v \<longrightarrow> k_ID k = i \<longrightarrow> k_EncryptedDEK k = c \<longrightarrow>
        kms_DecryptDEK K k v = (Inr q, v') \<longrightarrow> q = dek))"

text \<open>A rotation of \<open>i\<close> took effect: the statement's, with a new DEK, and \<open>k\<close> is the new version.\<close>

definition rotated_to ::
  "kms_provider \<Rightarrow> (world \<Rightarrow> bool) \<Rightarrow> time \<Rightarrow> key_id \<Rightarrow> key_id \<Rightarrow> key_table \<Rightarrow> key_table \<Rightarrow> key \<Rightarrow> bool" where
  "rotated_to K kinv dbnow i owner t t' k \<longleftrightarrow> (\<exists>c new.
     rotate_effect dbnow i c t = Some (t', new) \<and> row_key new = Some k \<and> holds_dek K kinv owner c)"

lemma dek_Put_keys [simp]: "w_keys (dek_Put d w) = w_keys w"
  by (simp add: dek_Put_def)

context key_service
begin

lemma RevokeKey_ok:
  assumes w: "service_inv inv kinv w" and r: "RevokeKey S (Some kid) w = (res, w')"
  shows "service_inv inv kinv w'"
    and "res = Inr u \<Longrightarrow> \<exists>i. KeyIDFromString (e_uuid (s_env S)) kid = Inr i \<and>
      w_keys w' = revoke_effect (w_now w) i (w_keys w) \<and> sql_latest i (w_keys w) \<noteq> None"
proof -
  have i: "inv w" using w by (simp add: service_inv_def)
  have "service_inv inv kinv w' \<and> (\<forall>u. res = Inr u \<longrightarrow>
    (\<exists>i. KeyIDFromString (e_uuid (s_env S)) kid = Inr i \<and>
      w_keys w' = revoke_effect (w_now w) i (w_keys w) \<and> sql_latest i (w_keys w) \<noteq> None))"
  proof (cases "KeyIDFromString (e_uuid (s_env S)) kid")
    case (Inr j)
    obtain x u where x: "repo_RevokeKey (s_keyRepo S) j w = (x, u)" by fastforce
    have "service_inv inv kinv u" using revoke_keeps [OF i x] service_inv_repo [OF w] by blast
    then show ?thesis using r Inr x revoke_done [OF i, of j _ u] by (cases x) (auto simp: RevokeKey_def)
  qed (use r w in \<open>auto simp: RevokeKey_def\<close>)
  then show "service_inv inv kinv w'"
    and "res = Inr u \<Longrightarrow> \<exists>i. KeyIDFromString (e_uuid (s_env S)) kid = Inr i \<and>
      w_keys w' = revoke_effect (w_now w) i (w_keys w) \<and> sql_latest i (w_keys w) \<noteq> None"
    by blast+
qed

text \<open>After a successful revocation no version of the key is handed out.\<close>

lemma revoke_then_get_refused:
  assumes w: "service_inv inv kinv w" and r: "RevokeKey S (Some kid) w = (Inr u, w1)"
    and v: "service_inv inv kinv v" "w_keys v = w_keys w1" and q: "gq_KeyId rq = kid"
  shows "\<exists>err. fst (GetKey S (Some rq) v) = Inl err"
proof -
  from RevokeKey_ok(2) [OF w r refl] obtain i where i: "KeyIDFromString (e_uuid (s_env S)) kid = Inr i"
    "w_keys w1 = revoke_effect (w_now w) i (w_keys w)" by blast
  show ?thesis
  proof (cases "GetKey S (Some rq) v")
    case (Pair x v')
    show ?thesis
    proof (cases x)
      case (Inr resp)
      then obtain r where "requested_row i (gq_Version rq) (w_keys v) = Some r" "r_status r \<noteq> KeyStatusRevoked"
        using GetKey_not_revoked [OF v(1)] Pair q i(1) by blast
      then show ?thesis using revoked_rows v(2) i(2) by metis
    qed (use Pair in simp)
  qed
qed

lemma rotate_dek_ok:
  assumes w: "service_inv inv kinv w" and K: "kms K kinv"
    and r: "rotate_dek (s_env S) (s_keyRepo S) K i cur w = (res, w')"
  shows "service_inv inv kinv w'"
    and "w_keys w' = w_keys w \<or> (\<exists>c new. rotate_effect (w_dbnow w) i c (w_keys w) = Some (w_keys w', new))"
    and "res = Inr k \<Longrightarrow> rotated_to K kinv (w_dbnow w) i (k_ID cur) (w_keys w) (w_keys w') k"
proof -
  have w0: "inv w" "kinv w" "dek_pool_ok w" using w by (simp_all add: service_inv_def)
  have "service_inv inv kinv w' \<and>
    (w_keys w' = w_keys w \<or> (\<exists>c new. rotate_effect (w_dbnow w) i c (w_keys w) = Some (w_keys w', new))) \<and>
    (\<forall>k. res = Inr k \<longrightarrow> rotated_to K kinv (w_dbnow w) i (k_ID cur) (w_keys w) (w_keys w') k)"
    using r unfolding rotate_dek_def
  proof (cases rule: with_new_dek_cases [OF w0(3) env [OF w0(2)], consumes 1, case_names no_entropy body])
    case (no_entropy err)
    then show ?thesis using w0 inv_local kinv_local svc_local_keys(1) by (auto simp: service_inv_def)
  next
    case (body dek w2 w3)
    obtain x u where e: "kms_EncryptDEK K dek cur w2 = (x, u)" by fastforce
    have k2: "kinv w2" using kinv_local [OF w0(2) body(4)] .
    have u: "kinv u" "svc_local w u" "dek_pool_ok u"
      using kms.enc_frame [OF K k2 e] kms_keeps_local [of w2 u] svc_local_trans [OF body(2)] body(3)
      by (auto simp: dek_pool_ok_def)
    note keys = svc_local_keys(1,4) [OF u(2)]
    have iu: "inv u" using inv_local [OF w0(1) u(2)] .
    show ?thesis
    proof (cases x)
      case (Inl err)
      then have "w3 = u" "\<exists>e. res = Inl e" using body(6) e by auto
      then show ?thesis using dek_returned [OF w0(1) u(2,3,1) body(1)] body(7) keys by auto
    next
      case (Inr c)
      obtain y t where t: "repo_RotateKey (s_keyRepo S) i c u = (y, t)" by fastforce
      have w3: "w3 = t" "\<And>k. res = Inr k \<Longrightarrow> y = Inr k" using body(6) e Inr t by (cases y; auto)+
      have ti: "inv t" "keeps u t" using rotate_keeps [OF iu t] by simp_all
      then have "kinv t" "dek_pool_ok t" using kinv_local [OF u(1)] u(3) by (auto simp: keeps_def dek_pool_ok_def)
      then have si: "service_inv inv kinv w'"
        using dek_returned [OF ti(1) svc_local_refl] body(1,7) w3 by simp
      have "holds_dek K kinv (k_ID cur) c"
        using kms.dec_enc [OF K k2 e [unfolded Inr]] body(1) unfolding holds_dek_def by blast
      then have "rotated_to K kinv (w_dbnow w) i (k_ID cur) (w_keys w) (w_keys w') k" if "res = Inr k" for k
        using rotate_done [OF iu t [unfolded w3(2) [OF that]]] w3(1) body(7) keys
        unfolding rotated_to_def by auto
      then show ?thesis using si rotate_keeps [OF iu t] w3(1) body(7) keys by auto
    qed
  qed
  then show "service_inv inv kinv w'"
    and "w_keys w' = w_keys w \<or> (\<exists>c new. rotate_effect (w_dbnow w) i c (w_keys w) = Some (w_keys w', new))"
    and "res = Inr k \<Longrightarrow> rotated_to K kinv (w_dbnow w) i (k_ID cur) (w_keys w) (w_keys w') k"
    by blast+
qed

end

text \<open>The next version is active, one above the version it replaces, and the latest; other keys stay.\<close>

lemma rotated_to_facts:
  assumes "table_ok t" and "rotated_to K kinv dbnow i owner t t' k"
  shows "\<exists>old new. sql_latest i t = Some old \<and> sql_latest i t' = Some new \<and> row_key new = Some k \<and>
      k_ID k = i \<and> k_Version k = r_version old + 1 \<and> k_Status k = KeyStatusActive \<and>
      r_encrypted_dek new = k_EncryptedDEK k"
    and "j \<noteq> i \<Longrightarrow> sql_latest j t' = sql_latest j t"
proof -
  from assms(2) obtain c new where n: "rotate_effect dbnow i c t = Some (t', new)" "row_key new = Some k"
    unfolding rotated_to_def by blast
  then have sq: "sql_rotate KeyStatusRotated i c KeyStatusActive dbnow t = Inr (t', Some new)"
    by (auto simp: rotate_effect_def split: sum.splits option.splits)
  from assms(1) sq obtain old m where old: "sql_latest i t = Some old"
    "new = rotated_row old c KeyStatusActive dbnow m"
    by (cases rule: sql_rotate_cases) auto
  then show "\<exists>old new. sql_latest i t = Some old \<and> sql_latest i t' = Some new \<and> row_key new = Some k \<and>
      k_ID k = i \<and> k_Version k = r_version old + 1 \<and> k_Status k = KeyStatusActive \<and>
      r_encrypted_dek new = k_EncryptedDEK k"
    using sql_rotate_latest(1) [OF assms(1) sq] n(2) stored_key_fields [OF n(2)] sql_latest_mem [OF old(1)]
    by (auto simp: rotated_row_def)
  show "sql_latest j t' = sql_latest j t" if "j \<noteq> i"
    using sql_rotate_latest(2) [OF assms(1) sq that] .
qed

context key_service
begin

lemma processRotation_ok:
  assumes w: "service_inv inv kinv w" and r: "processRotation S i w = (res, w')"
  shows "service_inv inv kinv w'"
    and "res = Inr (cur, new) \<Longrightarrow> \<exists>row K. sql_latest i (w_keys w) = Some row \<and> row_key row = Some cur \<and>
      getKMSProvider S (GetStorageType (k_Metadata cur)) = Inr K \<and>
      rotated_to K kinv (w_dbnow w) i i (w_keys w) (w_keys w') new"
proof -
  have i: "inv w" using w by (simp add: service_inv_def)
  obtain x u where g: "repo_GetKey (s_keyRepo S) i w = (x, u)" by fastforce
  have u: "service_inv inv kinv u" "w_keys u = w_keys w" "w_dbnow u = w_dbnow w"
    using get_frame [OF i g] service_inv_repo [OF w] by (auto simp: keeps_def)
  have "service_inv inv kinv w' \<and> (\<forall>cur new. res = Inr (cur, new) \<longrightarrow>
    (\<exists>row K. sql_latest i (w_keys w) = Some row \<and> row_key row = Some cur \<and>
      getKMSProvider S (GetStorageType (k_Metadata cur)) = Inr K \<and>
      rotated_to K kinv (w_dbnow w) i i (w_keys w) (w_keys w') new))"
  proof (cases x)
    case (Inl err)
    then show ?thesis using r g u by (auto simp: processRotation_def)
  next
    case (Inr p)
    from get_reads [OF i g [unfolded Inr]] obtain row where row: "sql_latest i (w_keys w) = Some row"
      "row_key row = Some (deref u p)" by blast
    have own: "k_ID (deref u p) = i" using stored_key_fields [OF row(2)] sql_latest_mem [OF row(1)] by simp
    show ?thesis
    proof (cases "getKMSProvider S (GetStorageType (k_Metadata (deref u p)))")
      case (Inl err)
      then show ?thesis using r g Inr u by (auto simp: processRotation_def Let_def)
    next
      case K: (Inr K)
      have "kms K kinv" using provider getKMSProvider_mem [OF K] by blast
      note rot = rotate_dek_ok [OF u(1) this, of i "deref u p"]
      obtain y v where y: "rotate_dek (s_env S) (s_keyRepo S) K i (deref u p) u = (y, v)" by fastforce
      have cases: "w' = u \<and> (\<exists>e. res = Inl e) \<or>
          w' = v \<and> (\<forall>cur new. res = Inr (cur, new) \<longrightarrow> cur = deref u p \<and> y = Inr new)"
        using r g Inr K y by (cases y) (auto simp: processRotation_def Let_def split: if_splits)
      then show ?thesis using rot(1) [OF y] rot(3) [OF y] u row K own by auto
    qed
  qed
  then show "service_inv inv kinv w'"
    and "res = Inr (cur, new) \<Longrightarrow> \<exists>row K. sql_latest i (w_keys w) = Some row \<and> row_key row = Some cur \<and>
      getKMSProvider S (GetStorageType (k_Metadata cur)) = Inr K \<and>
      rotated_to K kinv (w_dbnow w) i i (w_keys w) (w_keys w') new"
    by blast+
qed

text \<open>
  After a rotation the latest version is the new one: one above the old, active, and what a read
  of the key answers with.
\<close>

lemma service_rotate_then_get:
  assumes w: "service_inv inv kinv w" and r: "processRotation S i w = (Inr (cur, new), w1)"
    and v: "service_inv inv kinv v" "w_keys v = w_keys w1"
    and g: "GetKey S (Some rq) v = (Inr resp, v')"
    and q: "KeyIDFromString (e_uuid (s_env S)) (gq_KeyId rq) = Inr i" "gq_Version rq \<le> 0"
  shows "k_Version new = k_Version cur + 1"
    and "km_EncryptedKeyData (gr_KeyMaterial resp) = k_EncryptedDEK new"
proof -
  from processRotation_ok(2) [OF w r refl] obtain row K where p:
    "sql_latest i (w_keys w) = Some row" "row_key row = Some cur"
    "rotated_to K kinv (w_dbnow w) i i (w_keys w) (w_keys w1) new" by blast
  have "table_ok (w_keys w)" using inv_table w by (simp add: service_inv_def)
  from rotated_to_facts(1) [OF this p(3)] obtain nrow where n:
    "sql_latest i (w_keys w1) = Some nrow" "k_Version new = r_version row + 1"
    "r_encrypted_dek nrow = k_EncryptedDEK new" using p(1) by auto
  show "k_Version new = k_Version cur + 1" using n(2) stored_key_fields [OF p(2)] by simp
  show "km_EncryptedKeyData (gr_KeyMaterial resp) = k_EncryptedDEK new"
    using GetKey_ok(2) [OF v(1) g refl] q v(2) n(1,3) by (auto simp: answers_get_def requested_row_def)
qed

end

section \<open>One results channel for all callers\<close>

lemma RotateKey_answer_material:
  "RotateKey_answer rq cur x now = Inr resp \<Longrightarrow> rs_KeyId resp = rt_KeyId rq \<and>
     (\<exists>k. rr_RotatedKey x = Some k \<and> km_EncryptedKeyData (rs_NewKeyMaterial resp) = k_EncryptedDEK k)"
  by (auto simp: RotateKey_answer_def rotation_response_def split: option.splits)

lemma swapped_run:
  assumes "2 \<le> n" "2 \<le> d"
  shows "\<exists>p w' x. pipeline_run E R (NewKeyRotationPipeline n d, w)
      [Accepted ra, Accepted rb, Worked, Worked, Sent, Received x] (p, w') \<and> rr_KeyID x = rq_KeyID rb"
proof -
  let ?p = "\<lambda>rs ss xs. \<lparr>pl_requests = rs, pl_results = xs, pl_sending = ss, pl_workerCount = n, pl_queueDepth = d\<rparr>"
  obtain x1 w1 where 1: "pipeline_processRotation E R ra w = (x1, w1)" by fastforce
  obtain x2 w2 where 2: "pipeline_processRotation E R rb w1 = (x2, w2)" by fastforce
  let ?a = "rotation_result_of ra x1" and ?b = "rotation_result_of rb x2"
  note step = steps.Snoc [where step = "pipeline_step E R"]
  have r1: "pipeline_run E R (NewKeyRotationPipeline n d, w) ([] @ [Accepted ra]) (?p [ra] [] [], w)"
    by (rule step [OF steps.Nil pipeline_step.enqueue]) (use assms in \<open>simp add: Enqueue_def NewKeyRotationPipeline_def\<close>)
  have r2: "pipeline_run E R (NewKeyRotationPipeline n d, w) (([] @ [Accepted ra]) @ [Accepted rb]) (?p [ra, rb] [] [], w)"
    by (rule step [OF r1 pipeline_step.enqueue]) (use assms in \<open>simp add: Enqueue_def\<close>)
  have r3: "pipeline_run E R (NewKeyRotationPipeline n d, w) ((([] @ [Accepted ra]) @ [Accepted rb]) @ [Worked]) (?p [rb] [?a] [], w1)"
    using step [OF r2 pipeline_step.worker [OF _ _ 1, of "?p [ra, rb] [] []" "[rb]"]] assms by simp
  have r4: "pipeline_run E R (NewKeyRotationPipeline n d, w) (((([] @ [Accepted ra]) @ [Accepted rb]) @ [Worked]) @ [Worked])
      (?p [] [?a, ?b] [], w2)"
    using step [OF r3 pipeline_step.worker [OF _ _ 2, of "?p [rb] [?a] []" "[]"]] assms by simp
  have r5: "pipeline_run E R (NewKeyRotationPipeline n d, w) ((((([] @ [Accepted ra]) @ [Accepted rb]) @ [Worked]) @ [Worked]) @ [Sent])
      (?p [] [?a] [?b], w2)"
    using step [OF r4 pipeline_step.send [of 1 "?p [] [?a, ?b] []"]] assms by simp
  have r6: "pipeline_run E R (NewKeyRotationPipeline n d, w)
      (((((([] @ [Accepted ra]) @ [Accepted rb]) @ [Worked]) @ [Worked]) @ [Sent]) @ [Received ?b]) (?p [] [?a] [], w2)"
    using step [OF r5 pipeline_step.receive [of "?p [] [?a] [?b]" ?b "[]"]] by simp
  then have "pipeline_run E R (NewKeyRotationPipeline n d, w)
      [Accepted ra, Accepted rb, Worked, Worked, Sent, Received ?b] (?p [] [?a] [], w2)" by simp
  moreover have "rr_KeyID ?b = rq_KeyID rb" by (simp add: rotation_result_of_def)
  ultimately show ?thesis by blast
qed

end
