(* ===== verification/Auth.thy ===== *)
theory Auth
  imports BreakerRepository KMS
begin

text \<open>
  Authentication and authorization: the authorizer with its policy cache, tokens and their
  revocation, the client store and the authentication service of \<^verbatim>\<open>internal/infra/auth\<close> and
  \<^verbatim>\<open>auth_service.go\<close>, the rate limiter and the authentication interceptor.  The values the
  code passes in a \<^verbatim>\<open>context.Context\<close> are an explicit record.  JWT, bcrypt and the token bucket of
  \<^verbatim>\<open>golang.org/x/time/rate\<close> are parameters.
\<close>

section \<open>Authorizer\<close>

record auth_config =
  ac_Roles :: "(string \<times> string list) list"
  ac_EnforceMTLSIdentityMatch :: bool

record user =
  u_ID :: string
  u_Permissions :: "string list"

text \<open>The context: the authenticated user and the common name of the peer's leaf certificate.\<close>

record call_ctx =
  cx_User :: "user option"
  cx_PeerCN :: "string option"

type_synonym policy_cache = "(string, bool) cache"

definition NewPolicyCache :: policy_cache where
  "NewPolicyCache = cache_New [WithDefaultTTL (5 * minute), WithCleanupInterval (10 * minute)]"

definition getPolicyKey :: "uuid_lib \<Rightarrow> string \<Rightarrow> string \<Rightarrow> key_id \<Rightarrow> string" where
  "getPolicyKey L userID operation keyID = userID @ '':'' @ operation @ '':'' @ KeyID_String L keyID"

definition role_ops :: "auth_config \<Rightarrow> string \<Rightarrow> string list" where
  "role_ops cfg roleName = (case map_of (ac_Roles cfg) roleName of None \<Rightarrow> [] | Some ops \<Rightarrow> ops)"

fun roles_allow :: "auth_config \<Rightarrow> string \<Rightarrow> string list \<Rightarrow> bool" where
  "roles_allow cfg operation [] = False"
| "roles_allow cfg operation (r # rs) =
     (if r = ''*'' then True
      else if ''*'' \<in> set (role_ops cfg r) then True
      else if operation \<in> set (role_ops cfg r) then True
      else roles_allow cfg operation rs)"

definition authenticateAndAuthorize ::
  "auth_config \<Rightarrow> call_ctx \<Rightarrow> string \<Rightarrow> user option \<times> bool \<times> string" where
  "authenticateAndAuthorize cfg cx operation =
     (case cx_User cx of
        None \<Rightarrow> (None, False, ''missing_user_identity'')
      | Some u \<Rightarrow>
          if roles_allow cfg operation (u_Permissions u) then (Some u, True, ''authorized'')
          else (None, False, ''operation_not_allowed''))"

fun is_admin :: "auth_config \<Rightarrow> string list \<Rightarrow> bool" where
  "is_admin cfg [] = False"
| "is_admin cfg (r # rs) =
     (if r = ''*'' then True
      else if ''*'' \<in> set (role_ops cfg r) then True
      else is_admin cfg rs)"

definition resource_ops :: "string list" where
  "resource_ops = [AuthKeysRead, AuthKeysRotate, AuthKeysRevoke, AuthKeysUpdate]"

definition checkAuthorization ::
  "auth_config \<Rightarrow> key_repo \<Rightarrow> (proto_enum \<Rightarrow> string) \<Rightarrow> user \<Rightarrow> string \<Rightarrow> key_id \<Rightarrow>
   requester_context option \<Rightarrow> world \<Rightarrow> (bool \<times> string) \<times> world" where
  "checkAuthorization cfg R names u operation keyID rc w =
     (if is_admin cfg (u_Permissions u) then ((True, ''authorized_by_admin_role''), w)
      else if KeyID_IsZero keyID then ((True, ''authorized''), w)
      else if operation \<in> set resource_ops then
        (case repo_GetKey R keyID w of
           (Inl err, w1) \<Rightarrow>
             ((False, if errors_is err PgErrKeyNotFound then ''key_not_found''
                      else ''internal_error_accessing_key''), w1)
         | (Inr p, w1) \<Rightarrow>
             (case k_Metadata (deref w1 p) of
                None \<Rightarrow> ((False, ''key_missing_metadata''), w1)
              | Some m \<Rightarrow>
                  if u_ID u \<notin> set (m_AuthorizedContexts m) then ((False, ''insufficient_key_permissions''), w1)
                  else (case rc of
                     None \<Rightarrow> ((False, ''requester_context_is_required_for_tier_validation''), w1)
                   | Some c \<Rightarrow>
                       (case ValidateTierForProfile names (FromProtoTier (rc_ClientTier c)) (m_StorageType m) of
                          Some err \<Rightarrow> ((False, error_string err), w1)
                        | None \<Rightarrow> ((True, ''authorized''), w1)))))
      else ((True, ''authorized''), w))"

definition checkIdentityMatch :: "call_ctx \<Rightarrow> user \<Rightarrow> bool \<times> string" where
  "checkIdentityMatch cx u =
     (case cx_PeerCN cx of
        None \<Rightarrow> (False, ''missing_peer_certificate_for_identity_check'')
      | Some cn \<Rightarrow>
          if cn \<noteq> u_ID u then (False, ''mismatched_identity_cn='' @ cn @ ''_user='' @ u_ID u)
          else (True, ''identity_match_ok''))"

text \<open>A refusal is logged under the identity the authorizer has at that point.\<close>

definition refuse ::
  "string \<Rightarrow> string \<Rightarrow> string \<Rightarrow> string \<Rightarrow> policy_cache \<times> world \<Rightarrow> (bool \<times> string) \<times> policy_cache \<times> world" where
  "refuse uid operation kid reason s =
     ((False, reason), fst s, AuditLog uid operation kid '''' False (Some (Plain reason)) (snd s))"

definition Authorize ::
  "env \<Rightarrow> auth_config \<Rightarrow> key_repo \<Rightarrow> (proto_enum \<Rightarrow> string) \<Rightarrow> call_ctx \<Rightarrow> requester_context option \<Rightarrow> string \<Rightarrow>
   key_id \<Rightarrow> policy_cache \<times> world \<Rightarrow> (bool \<times> string) \<times> policy_cache \<times> world" where
  "Authorize E cfg R names cx rc operation keyID s =
     (let (pol, w) = s; kid = KeyID_String (e_uuid E) keyID in
      case authenticateAndAuthorize cfg cx operation of
        (user, False, reason) \<Rightarrow>
          refuse (case user of None \<Rightarrow> '''' | Some u \<Rightarrow> u_ID u) operation kid reason s
      | (None, True, reason) \<Rightarrow> refuse '''' operation kid reason s
      | (Some u, True, reason) \<Rightarrow>
          if GetClientIdentity rc \<noteq> '''' \<and> GetClientIdentity rc \<noteq> u_ID u
          then refuse (u_ID u) operation kid
                 (''mismatched_requester_identity_token='' @ u_ID u @ ''_requester='' @ GetClientIdentity rc) s
          else if ac_EnforceMTLSIdentityMatch cfg \<and> \<not> fst (checkIdentityMatch cx u)
          then refuse (u_ID u) operation kid (snd (checkIdentityMatch cx u)) s
          else
            (let cacheKey = getPolicyKey (e_uuid E) (u_ID u) operation keyID in
             case cache_Get (w_now w) cacheKey pol of
               Some authorized \<Rightarrow>
                 if \<not> authorized then refuse (u_ID u) operation kid ''operation_not_allowed_by_cache'' s
                 else ((True, ''authorized_by_cache''), pol, AuditLog (u_ID u) operation kid '''' True None w)
             | None \<Rightarrow>
                 (case checkAuthorization cfg R names u operation keyID rc w of
                    ((True, reason'), w1) \<Rightarrow>
                      ((True, reason'), cache_Set (w_now w1) cacheKey True 0 pol,
                       AuditLog (u_ID u) operation kid '''' True None w1)
                  | ((False, reason'), w1) \<Rightarrow> refuse (u_ID u) operation kid reason' (pol, w1))))"

section \<open>Tokens\<close>

record claims =
  cl_UserID :: string
  cl_Roles :: "string list"
  cl_ID :: string
  cl_ExpiresAt :: "time option"
  cl_IssuedAt :: "time option"

text \<open>
  The JWT library: signing with the private key, parsing with a key function (which sees the
  algorithm of the token and may reject it) at a time, parsing without verification, and the
  rounding of a time to a \<^verbatim>\<open>NumericDate\<close>.
\<close>

record jwt_lib =
  jwt_SignedString :: "claims \<Rightarrow> go_error + string"
  jwt_ParseWithClaims :: "(string \<Rightarrow> go_error option) \<Rightarrow> time \<Rightarrow> string \<Rightarrow> go_error + (claims \<times> bool)"
  jwt_ParseUnverified :: "string \<Rightarrow> go_error + claims"
  jwt_Alg :: "string \<Rightarrow> string option"
  jwt_NewNumericDate :: "time \<Rightarrow> time"

definition jwt_rsa_algs :: "string list" where
  "jwt_rsa_algs = [''RS256'', ''RS384'', ''RS512'']"

text \<open>
  Documented behaviour: what was signed parses back before it expires; a parsed token has an
  algorithm the key function accepts, is not expired, and parses to the same claims unverified.
\<close>

definition jwt_ok :: "jwt_lib \<Rightarrow> bool" where
  "jwt_ok J \<longleftrightarrow>
     (\<forall>c tok kf now. jwt_SignedString J c = Inr tok \<longrightarrow> kf ''RS256'' = None \<longrightarrow>
        (\<forall>e. cl_ExpiresAt c = Some e \<longrightarrow> now < e) \<longrightarrow> jwt_ParseWithClaims J kf now tok = Inr (c, True)) \<and>
     (\<forall>kf now tok c v. jwt_ParseWithClaims J kf now tok = Inr (c, v) \<longrightarrow>
        jwt_ParseUnverified J tok = Inr c \<and> (\<exists>alg. jwt_Alg J tok = Some alg \<and> kf alg = None) \<and>
        (\<forall>e. cl_ExpiresAt c = Some e \<longrightarrow> now < e)) \<and>
     (\<forall>t. t - second < jwt_NewNumericDate J t \<and> jwt_NewNumericDate J t \<le> t)"

definition rsa_keyfunc :: "string \<Rightarrow> go_error option" where
  "rsa_keyfunc alg =
     (if alg \<in> set jwt_rsa_algs then None else Some (Plain (''unexpected signing method: '' @ alg)))"

type_synonym token_store = "(string, unit) cache"

definition NewInMemoryTokenStore :: token_store where
  "NewInMemoryTokenStore = cache_New [WithCleanupInterval (10 * minute)]"

definition store_Revoke :: "time \<Rightarrow> string \<Rightarrow> time \<Rightarrow> token_store \<Rightarrow> token_store" where
  "store_Revoke now tokenID ttl ts = cache_Set now tokenID () ttl ts"

definition store_IsRevoked :: "time \<Rightarrow> string \<Rightarrow> token_store \<Rightarrow> bool" where
  "store_IsRevoked now tokenID ts = (cache_Get now tokenID ts \<noteq> None)"

definition GenerateToken ::
  "env \<Rightarrow> jwt_lib \<Rightarrow> string \<Rightarrow> string list \<Rightarrow> time \<Rightarrow> world \<Rightarrow> string result" where
  "GenerateToken E J userID roles expiration w =
     (let (d, w1) = next_draw w;
          c = \<lparr>cl_UserID = userID, cl_Roles = roles,
               cl_ID = KeyID_String (e_uuid E) (KeyID (e_newUUID E d)),
               cl_ExpiresAt = Some (jwt_NewNumericDate J (w_now w + expiration)),
               cl_IssuedAt = Some (jwt_NewNumericDate J (w_now w))\<rparr>
      in (jwt_SignedString J c, w1))"

definition ValidateToken :: "jwt_lib \<Rightarrow> time \<Rightarrow> token_store \<Rightarrow> string \<Rightarrow> go_error + claims" where
  "ValidateToken J now ts tokenString =
     (case jwt_ParseWithClaims J rsa_keyfunc now tokenString of
        Inl err \<Rightarrow> Inl err
      | Inr (c, valid) \<Rightarrow>
          if \<not> valid then Inl (Plain ''signature is invalid'')
          else if store_IsRevoked now (cl_ID c) ts then Inl (Plain ''token has been revoked'')
          else Inr c)"

definition TokenManager_Revoke ::
  "jwt_lib \<Rightarrow> string \<Rightarrow> token_store \<times> world \<Rightarrow> go_error option \<times> token_store \<times> world" where
  "TokenManager_Revoke J tokenString s =
     (let (ts, w) = s in
      case jwt_ParseUnverified J tokenString of
        Inl err \<Rightarrow> (Some (wrapf ''failed to parse token for revocation'' err), s)
      | Inr c \<Rightarrow>
          (case cl_ExpiresAt c of
             None \<Rightarrow> (Some (Plain ''cannot revoke token with no expiration''), s)
           | Some e \<Rightarrow>
               (let ttl = e - w_now w in
                if ttl \<le> 0 then (None, s)
                else (None, store_Revoke (w_now w) (cl_ID c) ttl ts,
                      AuditLog (cl_UserID c) ''RevokeToken'' (cl_ID c) '''' True None w))))"

section \<open>Clients\<close>

record client =
  c_ID :: string
  c_HashedAPIKey :: string
  c_Permissions :: "string list"

record client_data =
  cd_HashedAPIKey :: string
  cd_Permissions :: "string list"

definition validateClientData :: "string \<Rightarrow> client_data \<Rightarrow> go_error option" where
  "validateClientData cid d =
     (if cid = '''' then Some (Plain ''client ID cannot be empty'')
      else if cd_HashedAPIKey d = '''' then Some (Plain ''hashed_api_key cannot be empty'')
      else if cd_Permissions d = [] then Some (Plain ''permissions cannot be empty'')
      else if length (cd_HashedAPIKey d) < 60 \<or>
              take 4 (cd_HashedAPIKey d) \<notin> {''$2a$'', ''$2b$'', ''$2y$''}
      then Some (Plain ''hashed_api_key must be a valid bcrypt hash'')
      else None)"

fun load_clients :: "(string \<times> client_data) list \<Rightarrow> go_error + (string \<times> client) list" where
  "load_clients [] = Inr []"
| "load_clients ((cid, d) # rest) =
     (case validateClientData cid d of
        Some err \<Rightarrow> Inl (wrapf (''invalid client '' @ cid) err)
      | None \<Rightarrow>
          (case load_clients rest of
             Inl err \<Rightarrow> Inl err
           | Inr cs \<Rightarrow> Inr ((cid, \<lparr>c_ID = cid, c_HashedAPIKey = cd_HashedAPIKey d,
                                c_Permissions = cd_Permissions d\<rparr>) # cs)))"

text \<open>
  The file's content (or the error of reading it) and the YAML library are arguments; the
  decoded map is visited in some order.
\<close>

definition NewFileClientStore ::
  "(string \<Rightarrow> go_error + (string \<times> client_data) list) \<Rightarrow> string \<Rightarrow> go_error + string \<Rightarrow>
   go_error + (string \<times> client) list" where
  "NewFileClientStore yaml_Unmarshal filePath content =
     (case content of
        Inl err \<Rightarrow> Inl (wrapf (''failed to read client config file '' @ filePath) err)
      | Inr bs \<Rightarrow>
          (case yaml_Unmarshal bs of
             Inl err \<Rightarrow> Inl (wrapf ''failed to unmarshal client config'' err)
           | Inr cs \<Rightarrow>
               if cs = [] then Inl (wrap_suffix (Sentinel AuthErrInvalidConfig) ''no clients defined'')
               else load_clients cs))"

definition FindClientByID :: "(string \<times> client) list \<Rightarrow> string \<Rightarrow> go_error + client" where
  "FindClientByID store clientID =
     (case map_of store clientID of
        None \<Rightarrow> Inl (wrap_suffix (Sentinel AuthErrClientNotFound) (''client ID '' @ [CHR 39] @ clientID @ [CHR 39]))
      | Some c \<Rightarrow> Inr c)"

definition GetClientCount :: "(string \<times> client) list \<Rightarrow> nat" where
  "GetClientCount store = length store"

section \<open>The authentication service\<close>

record auth_result =
  ar_AccessToken :: string
  ar_TokenType :: string
  ar_ExpiresIn :: int

text \<open>\<open>bcrypt_ok\<close> is \<^verbatim>\<open>bcrypt.CompareHashAndPassword\<close> without an error.\<close>

definition AuthService_Authenticate ::
  "env \<Rightarrow> jwt_lib \<Rightarrow> (string \<Rightarrow> string \<Rightarrow> bool) \<Rightarrow> (string \<times> client) list \<Rightarrow> time \<Rightarrow> string \<Rightarrow> string \<Rightarrow> world \<Rightarrow>
   auth_result result" where
  "AuthService_Authenticate E J bcrypt_ok store tokenTTL clientID clientSecret w =
     (case FindClientByID store clientID of
        Inl err \<Rightarrow> (Inl (wrapf ''authentication failed'' err), w)
      | Inr c \<Rightarrow>
          if \<not> bcrypt_ok (c_HashedAPIKey c) clientSecret
          then (Inl (Plain ''authentication failed: invalid credentials''), w)
          else (case GenerateToken E J (c_ID c) (c_Permissions c) tokenTTL w of
                  (Inl err, w1) \<Rightarrow> (Inl (wrapf ''failed to generate token'' err), w1)
                | (Inr tok, w1) \<Rightarrow>
                    (Inr \<lparr>ar_AccessToken = tok, ar_TokenType = ''Bearer'',
                          ar_ExpiresIn = sgn tokenTTL * (\<bar>tokenTTL\<bar> div second)\<rparr>, w1)))"

section \<open>Rate limiting\<close>

record 'l rate_lib =
  rate_NewLimiter :: 'l
  rate_Allow :: "time \<Rightarrow> 'l \<Rightarrow> bool \<times> 'l"

definition limiter_Allow ::
  "'l rate_lib \<Rightarrow> time \<Rightarrow> string \<Rightarrow> (string \<rightharpoonup> 'l) \<Rightarrow> bool \<times> (string \<rightharpoonup> 'l)" where
  "limiter_Allow L now identifier clients =
     (let limiter = (case clients identifier of None \<Rightarrow> rate_NewLimiter L | Some l \<Rightarrow> l);
          (ok, limiter') = rate_Allow L now limiter
      in (ok, clients(identifier \<mapsto> limiter')))"

section \<open>The authentication interceptor\<close>

definition unprotectedMethods :: "string list" where
  "unprotectedMethods =
    [''/polykey.v2.PolykeyService/HealthCheck'', ''/polykey.v2.PolykeyService/Authenticate'']"

text \<open>What arrives: the method, the peer's leaf certificate, the authorization headers.\<close>

record incoming =
  in_FullMethod :: string
  in_PeerCN :: "string option"
  in_AuthHeaders :: "string list option"  \<comment> \<open>\<open>None\<close> without request metadata\<close>

definition bearerPrefix :: string where "bearerPrefix = ''Bearer ''"

definition AuthenticationInterceptor ::
  "jwt_lib \<Rightarrow> 'l rate_lib \<Rightarrow> time \<Rightarrow> token_store \<Rightarrow> incoming \<Rightarrow> (string \<rightharpoonup> 'l) \<Rightarrow>
   (go_error + call_ctx) \<times> (string \<rightharpoonup> 'l)" where
  "AuthenticationInterceptor J L now ts inc lim =
     (if in_FullMethod inc \<in> set unprotectedMethods then (Inr \<lparr>cx_User = None, cx_PeerCN = None\<rparr>, lim)
      else case in_AuthHeaders inc of
        None \<Rightarrow> (Inl (StatusError Unauthenticated ''metadata is not provided''), lim)
      | Some [] \<Rightarrow> (Inl (StatusError Unauthenticated ''authorization token is not provided''), lim)
      | Some (authHeader # _) \<Rightarrow>
          if take (length bearerPrefix) authHeader \<noteq> bearerPrefix
          then (Inl (StatusError Unauthenticated ''authorization header must use Bearer scheme''), lim)
          else
            (let token = drop (length bearerPrefix) authHeader in
             if token = '''' then (Inl (StatusError Unauthenticated ''bearer token is empty''), lim)
             else case ValidateToken J now ts token of
               Inl err \<Rightarrow> (Inl (StatusError Unauthenticated (''invalid token: '' @ error_string err)), lim)
             | Inr c \<Rightarrow>
                 (case limiter_Allow L now (cl_UserID c) lim of
                    (False, lim') \<Rightarrow>
                      (Inl (StatusError ResourceExhausted (''rate limit exceeded for client '' @ cl_UserID c)), lim')
                  | (True, lim') \<Rightarrow>
                      (Inr \<lparr>cx_User = Some \<lparr>u_ID = cl_UserID c, u_Permissions = cl_Roles c\<rparr>,
                            cx_PeerCN = in_PeerCN inc\<rparr>, lim'))))"

section \<open>The policy cache\<close>

definition scopes :: "string list" where
  "scopes = [AuthKeysRead, AuthKeysCreate, AuthKeysList, AuthKeysRotate, AuthKeysRevoke, AuthKeysUpdate]"

lemma scopes_verb: "op \<in> set scopes \<Longrightarrow> \<exists>v. op = ''keys:'' @ v \<and> CHR '':'' \<notin> set v"
  by (auto simp: scopes_def go_simps)

lemma after_last_colon:
  "CHR '':'' \<notin> set v \<Longrightarrow> rev (takeWhile (\<lambda>c. c \<noteq> CHR '':'') (rev (a @ '':'' @ v))) = v"
  using takeWhile_append2 [of "rev v" "\<lambda>c. c \<noteq> CHR '':''" "CHR '':'' # rev a"] by force

text \<open>A colon in a user name cannot make two entries meet.\<close>

lemma getPolicyKey_inj:
  assumes L: "uuid_lib_ok L" and ops: "op \<in> set scopes" "op' \<in> set scopes"
    and eq: "getPolicyKey L u op i = getPolicyKey L u' op' i'"
  shows "u = u' \<and> op = op' \<and> i = i'"
proof -
  have len: "length (KeyID_String L i) = length (KeyID_String L i')"
    using length_KeyID_String [OF L] by simp
  have "(u @ '':'' @ op) @ '':'' @ KeyID_String L i = (u' @ '':'' @ op') @ '':'' @ KeyID_String L i'"
    using eq by (simp add: getPolicyKey_def)
  then have "u @ '':'' @ op = u' @ '':'' @ op' \<and> '':'' @ KeyID_String L i = '':'' @ KeyID_String L i'"
    by (rule iffD1 [OF append_eq_append_conv, rotated]) (use len in simp)
  then have 1: "u @ '':'' @ op = u' @ '':'' @ op'" and 2: "KeyID_String L i = KeyID_String L i'"
    by simp_all
  from scopes_verb [OF ops(1)] obtain v where v: "op = ''keys:'' @ v" "CHR '':'' \<notin> set v" by blast
  from scopes_verb [OF ops(2)] obtain v' where v': "op' = ''keys:'' @ v'" "CHR '':'' \<notin> set v'" by blast
  have "(u @ '':keys'') @ '':'' @ v = (u' @ '':keys'') @ '':'' @ v'" using 1 v(1) v'(1) by simp
  then have "v = v'" using after_last_colon [OF v(2)] after_last_colon [OF v'(2)] by metis
  then have "u = u' \<and> op = op'" using 1 v(1) v'(1) by simp
  then show ?thesis using 2 KeyID_String_inj [OF L] by simp
qed

text \<open>
  The authorizer over time.  The grants are the decisions it made by checking, with their times;
  between calls the rest of the system moves on and the cleanup loop runs.
\<close>

type_synonym grant = "time \<times> string \<times> string \<times> key_id"

definition ctx_user :: "call_ctx \<Rightarrow> string" where
  "ctx_user cx = (case cx_User cx of None \<Rightarrow> '''' | Some u \<Rightarrow> u_ID u)"

inductive auth_reach ::
  "env \<Rightarrow> auth_config \<Rightarrow> key_repo \<Rightarrow> (proto_enum \<Rightarrow> string) \<Rightarrow> policy_cache \<Rightarrow> world \<Rightarrow> grant list \<Rightarrow> bool"
  for E cfg R names where
  start: "auth_reach E cfg R names NewPolicyCache w []"
| call: "auth_reach E cfg R names p w g \<Longrightarrow> op \<in> set scopes \<Longrightarrow>
    Authorize E cfg R names cx rc op i (p, w) = ((ok, reason), p', w') \<Longrightarrow>
    auth_reach E cfg R names p' w'
      (if ok \<and> reason \<noteq> ''authorized_by_cache'' then (w_now w', ctx_user cx, op, i) # g else g)"
| elsewhere: "auth_reach E cfg R names p w g \<Longrightarrow> auth_reach E cfg R names p w' g"
| cleanup: "auth_reach E cfg R names p w g \<Longrightarrow>
    auth_reach E cfg R names (fst (cache_cleanupTick None (w_now w) (p, ()))) w g"

definition policy_ok :: "uuid_lib \<Rightarrow> policy_cache \<Rightarrow> grant list \<Rightarrow> bool" where
  "policy_ok L p g \<longleftrightarrow> c_defaultTTL p = 5 * minute \<and> cache_ok p \<and>
     (\<forall>s it. map_of (c_items p) s = Some it \<longrightarrow> (\<exists>u op i t. s = getPolicyKey L u op i \<and>
        op \<in> set scopes \<and> (t, u, op, i) \<in> set g \<and> it_expiresAt it = t + 5 * minute \<and> \<not> it_permanent it))"

lemma policy_ok_mono: "policy_ok L p g \<Longrightarrow> set g \<subseteq> set g' \<Longrightarrow> policy_ok L p g'"
  unfolding policy_ok_def by blast

lemma policy_ok_start: "policy_ok L NewPolicyCache g"
  by (simp add: policy_ok_def NewPolicyCache_def cache_New_def WithDefaultTTL_def
      WithCleanupInterval_def cache_ok_def)

lemma policy_ok_Set:
  assumes "policy_ok L p g" "op \<in> set scopes"
  shows "policy_ok L (cache_Set t (getPolicyKey L u op i) True 0 p) ((t, u, op, i) # g)"
proof -
  have "cache_ok (cache_Set t (getPolicyKey L u op i) True 0 p)"
    using assms(1) cache_Set_ok [of p] by (simp add: policy_ok_def)
  moreover have "\<exists>u op i t. s = getPolicyKey L u op i \<and> op \<in> set scopes \<and> (t, u, op, i) \<in> set ((t', u', op', i') # g) \<and>
      it_expiresAt it = t + 5 * minute \<and> \<not> it_permanent it"
    if "map_of (c_items p) s = Some it" for s it t' u' op' i'
    using assms(1) that unfolding policy_ok_def by (meson list.set_intros(2))
  ultimately show ?thesis
    using assms unfolding policy_ok_def
    by (auto simp: cache_Set_def Let_def update_conv' split: if_splits)
qed

lemma policy_ok_tick:
  assumes "policy_ok L p g"
  shows "policy_ok L (fst (cache_cleanupTick None now (p, ()))) g"
proof -
  let ?p = "fst (cache_cleanupTick None now (p, ()))"
  have "map_of (c_items ?p) s = Some it \<Longrightarrow> map_of (c_items p) s = Some it" for s it
    using assms map_of_deleteExpired [where cs = "(p, ())" and now = now and k = s and ev = "None"]
    by (auto simp: cache_cleanupTick_def policy_ok_def split: if_splits option.splits)
  moreover have "cache_ok ?p" "c_defaultTTL ?p = c_defaultTTL p"
    using assms cache_deleteExpired_ok [of "(p, ())" None now] ttl_keep_tick [of None now "(p, ())"]
    by (simp_all add: cache_cleanupTick_def policy_ok_def)
  ultimately show ?thesis using assms unfolding policy_ok_def by simp
qed

lemma authenticate_ok:
  assumes "authenticateAndAuthorize cfg cx op = (user, True, r)"
  shows "\<exists>u. user = Some u \<and> cx_User cx = Some u \<and> roles_allow cfg op (u_Permissions u)"
proof (cases "cx_User cx")
  case (Some u)
  have allowed: "roles_allow cfg op (u_Permissions u)"
    using assms Some by (simp add: authenticateAndAuthorize_def split: if_splits)
  then have "Some u = user" using assms Some by (simp add: authenticateAndAuthorize_def)
  then show ?thesis using Some allowed by blast
qed (use assms in \<open>simp add: authenticateAndAuthorize_def\<close>)

text \<open>A call without an identity, or without a role for the operation, is refused.\<close>

lemma Authorize_unauthenticated:
  assumes "\<nexists>u. cx_User cx = Some u \<and> roles_allow cfg op (u_Permissions u)"
  shows "\<exists>uid r. Authorize E cfg R names cx rc op i s = refuse uid op (KeyID_String (e_uuid E) i) r s"
proof (cases "cx_User cx")
  case None
  then show ?thesis by (auto simp: Authorize_def authenticateAndAuthorize_def split: prod.splits)
next
  case (Some u)
  then have "\<not> roles_allow cfg op (u_Permissions u)" using assms by simp
  with Some show ?thesis by (auto simp: Authorize_def authenticateAndAuthorize_def split: prod.splits)
qed

definition identity_ok :: "auth_config \<Rightarrow> call_ctx \<Rightarrow> requester_context option \<Rightarrow> user \<Rightarrow> bool" where
  "identity_ok cfg cx rc u \<longleftrightarrow>
     (GetClientIdentity rc \<noteq> '''' \<longrightarrow> GetClientIdentity rc = u_ID u) \<and>
     (ac_EnforceMTLSIdentityMatch cfg \<longrightarrow> cx_PeerCN cx = Some (u_ID u))"

lemma checkIdentityMatch_iff: "fst (checkIdentityMatch cx u) \<longleftrightarrow> cx_PeerCN cx = Some (u_ID u)"
  by (simp add: checkIdentityMatch_def split: option.splits)

lemma Authorize_wrong_identity:
  assumes "cx_User cx = Some u" "roles_allow cfg op (u_Permissions u)" "\<not> identity_ok cfg cx rc u"
  shows "\<exists>r. Authorize E cfg R names cx rc op i s = refuse (u_ID u) op (KeyID_String (e_uuid E) i) r s"
proof -
  have "authenticateAndAuthorize cfg cx op = (Some u, True, ''authorized'')"
    using assms(1,2) by (simp add: authenticateAndAuthorize_def)
  moreover have "GetClientIdentity rc \<noteq> '''' \<and> GetClientIdentity rc \<noteq> u_ID u \<or>
      ac_EnforceMTLSIdentityMatch cfg \<and> \<not> fst (checkIdentityMatch cx u)"
    using assms(3) by (auto simp: identity_ok_def checkIdentityMatch_iff)
  ultimately show ?thesis by (cases s) (auto simp: Authorize_def Let_def)
qed

lemma Authorize_identified:
  assumes "cx_User cx = Some u" "roles_allow cfg op (u_Permissions u)" "identity_ok cfg cx rc u"
  shows "Authorize E cfg R names cx rc op i (p, w) =
    (let cacheKey = getPolicyKey (e_uuid E) (u_ID u) op i; kid = KeyID_String (e_uuid E) i in
     case cache_Get (w_now w) cacheKey p of
       Some authorized \<Rightarrow>
         if \<not> authorized then refuse (u_ID u) op kid ''operation_not_allowed_by_cache'' (p, w)
         else ((True, ''authorized_by_cache''), p, AuditLog (u_ID u) op kid '''' True None w)
     | None \<Rightarrow>
         (let ((ok, reason), w1) = checkAuthorization cfg R names u op i rc w in
          if ok then ((True, reason), cache_Set (w_now w1) cacheKey True 0 p,
            AuditLog (u_ID u) op kid '''' True None w1)
          else refuse (u_ID u) op kid reason (p, w1)))"
proof -
  have id: "\<not> (GetClientIdentity rc \<noteq> '''' \<and> GetClientIdentity rc \<noteq> u_ID u)"
    "\<not> (ac_EnforceMTLSIdentityMatch cfg \<and> \<not> fst (checkIdentityMatch cx u))"
    using assms(3) by (auto simp: identity_ok_def checkIdentityMatch_iff)
  have auth: "authenticateAndAuthorize cfg cx op = (Some u, True, ''authorized'')"
    using assms(1,2) by (simp add: authenticateAndAuthorize_def)
  obtain ok r w1 where c: "checkAuthorization cfg R names u op i rc w = ((ok, r), w1)"
    by (metis surj_pair)
  show ?thesis
    by (cases ok; cases "cache_Get (w_now w) (getPolicyKey (e_uuid E) (u_ID u) op i) p")
      (simp_all add: Authorize_def Let_def id auth c)
qed

text \<open>What a call does to the cache.\<close>

lemma Authorize_cases:
  assumes a: "Authorize E cfg R names cx rc op i (p, w) = ((ok, reason), p', w')"
  obtains (refused) "\<not> ok" "p' = p"
  | (cached) u where "ok" "reason = ''authorized_by_cache''" "p' = p" "cx_User cx = Some u"
      "roles_allow cfg op (u_Permissions u)" "identity_ok cfg cx rc u"
      "cache_Get (w_now w) (getPolicyKey (e_uuid E) (u_ID u) op i) p = Some True"
  | (checked) u w1 where "ok" "cx_User cx = Some u"
      "roles_allow cfg op (u_Permissions u)" "identity_ok cfg cx rc u"
      "checkAuthorization cfg R names u op i rc w = ((True, reason), w1)" "w_now w' = w_now w1"
      "p' = cache_Set (w_now w1) (getPolicyKey (e_uuid E) (u_ID u) op i) True 0 p"
proof (cases "\<exists>u. cx_User cx = Some u \<and> roles_allow cfg op (u_Permissions u)")
  case False
  from Authorize_unauthenticated [OF False] obtain uid r where
    "Authorize E cfg R names cx rc op i (p, w) = refuse uid op (KeyID_String (e_uuid E) i) r (p, w)" by blast
  then show thesis using a by (intro refused) (simp_all add: refuse_def)
next
  case True
  then obtain u where u: "cx_User cx = Some u" "roles_allow cfg op (u_Permissions u)" by blast
  show thesis
  proof (cases "identity_ok cfg cx rc u")
    case False
    from Authorize_wrong_identity [OF u False] obtain r where
      "Authorize E cfg R names cx rc op i (p, w) = refuse (u_ID u) op (KeyID_String (e_uuid E) i) r (p, w)" by blast
    then show thesis using a by (intro refused) (simp_all add: refuse_def)
  next
    case id: True
    note eq = Authorize_identified [OF u id, of E R names i p w]
    obtain ok' r' w1 where c: "checkAuthorization cfg R names u op i rc w = ((ok', r'), w1)"
      by (metis surj_pair)
    show thesis
    proof (cases "cache_Get (w_now w) (getPolicyKey (e_uuid E) (u_ID u) op i) p")
      case None
      show thesis
      proof (cases ok')
        case True
        show thesis by (rule checked [of u w1])
          (use a eq None c True u id in \<open>simp_all add: Let_def AuditLog_def\<close>, use a eq None c True in \<open>auto simp: Let_def AuditLog_def\<close>)
      next
        case False
        then show thesis using a eq None c by (intro refused) (simp_all add: Let_def refuse_def)
      qed
    next
      case (Some b)
      show thesis
      proof (cases b)
        case True
        show thesis by (rule cached [of u]) (use a eq Some True u id in \<open>simp_all add: Let_def\<close>)
      next
        case False
        then show thesis using a eq Some by (intro refused) (simp_all add: Let_def refuse_def)
      qed
    qed
  qed
qed

lemma checkAuthorization_reason:
  "checkAuthorization cfg R names u op i rc w = ((True, reason), w') \<Longrightarrow> reason \<noteq> ''authorized_by_cache''"
  by (auto simp: checkAuthorization_def split: if_splits prod.splits sum.splits option.splits)

text \<open>Every cached permission goes back to a check no older than the cache's lifetime.\<close>

lemma auth_reach_policy_ok: "auth_reach E cfg R names p w g \<Longrightarrow> policy_ok (e_uuid E) p g"
proof (induction rule: auth_reach.induct)
  case (start w)
  then show ?case by (rule policy_ok_start)
next
  case (call p w g op cx rc i ok reason p' w')
  from call(3) show ?case
  proof (cases rule: Authorize_cases)
    case refused
    then show ?thesis using call(4) by simp
  next
    case (cached u)
    then show ?thesis using call(4) by simp
  next
    case (checked u w1)
    have "policy_ok (e_uuid E) p' ((w_now w', ctx_user cx, op, i) # g)"
      using policy_ok_Set [OF call(4,2)] checked by (simp add: ctx_user_def)
    then show ?thesis using checked(1) checkAuthorization_reason [OF checked(5)] by simp
  qed
next
  case (elsewhere p w g w')
  then show ?case by simp
next
  case (cleanup p w g)
  then show ?case by (simp add: policy_ok_tick)
qed

lemma cached_decision_recent:
  assumes "uuid_lib_ok (e_uuid E)" "auth_reach E cfg R names p w g" "op \<in> set scopes"
    and a: "Authorize E cfg R names cx rc op i (p, w) = ((True, ''authorized_by_cache''), p', w')"
  shows "\<exists>t. (t, ctx_user cx, op, i) \<in> set g \<and> w_now w \<le> t + 5 * minute"
  using a
proof (cases rule: Authorize_cases)
  case (cached u)
  let ?s = "getPolicyKey (e_uuid E) (u_ID u) op i"
  from cached(7) obtain it where it: "map_of (c_items p) ?s = Some it" "\<not> item_expired (w_now w) it"
    by (auto simp: cache_Get_def split: option.splits if_splits)
  with auth_reach_policy_ok [OF assms(2)] obtain u' op' i' t where e:
    "?s = getPolicyKey (e_uuid E) u' op' i'" "op' \<in> set scopes" "(t, u', op', i') \<in> set g"
    "it_expiresAt it = t + 5 * minute" "\<not> it_permanent it"
    unfolding policy_ok_def by blast
  from getPolicyKey_inj [OF assms(1,3) e(2,1)] have "(t, ctx_user cx, op, i) \<in> set g"
    using e(3) cached(4) by (simp add: ctx_user_def)
  then show ?thesis using it(2) e(4,5) by (auto simp: item_expired_def)
next
  case (checked u w1)
  then show ?thesis using checkAuthorization_reason by blast
qed simp

section \<open>What a positive decision means\<close>

definition may_use :: "auth_config \<Rightarrow> (proto_enum \<Rightarrow> string) \<Rightarrow> user \<Rightarrow> string \<Rightarrow> key_id \<Rightarrow> requester_context option \<Rightarrow> key_table \<Rightarrow> bool" where
  "may_use cfg names u op i rc t \<longleftrightarrow>
     is_admin cfg (u_Permissions u) \<or> KeyID_IsZero i \<or> op \<notin> set resource_ops \<or>
     (\<exists>r m c. sql_latest i t = Some r \<and> r_metadata r = JMeta m \<and> u_ID u \<in> set (m_AuthorizedContexts m) \<and>
        rc = Some c \<and> ValidateTierForProfile names (FromProtoTier (rc_ClientTier c)) (m_StorageType m) = None)"

lemma row_of_metadata: "row_key r = Some k \<Longrightarrow> k_Metadata k = Some m \<Longrightarrow> r_metadata r = JMeta m"
  by (auto simp: row_key_def unmarshal_pointer_def split: jsonb.splits sum.splits)

context key_repository
begin

text \<open>A decision that is not taken from the cache reflects the key as it is stored.\<close>

lemma checkAuthorization_sound:
  assumes w: "inv w" and c: "checkAuthorization cfg R names u op i rc w = ((True, reason), w')"
  shows "may_use cfg names u op i rc (w_keys w) \<and> inv w' \<and> w_keys w' = w_keys w"
proof (cases "is_admin cfg (u_Permissions u) \<or> KeyID_IsZero i \<or> op \<notin> set resource_ops")
  case True
  then show ?thesis using w c by (auto simp: checkAuthorization_def may_use_def split: if_splits)
next
  case False
  obtain res w1 where g: "repo_GetKey R i w = (res, w1)" by (metis surj_pair)
  from get_frame [OF w g] have f: "inv w1" "w_keys w1 = w_keys w" by auto
  from c False g obtain p where p: "res = Inr p"
    by (cases res) (auto simp: checkAuthorization_def split: if_splits)
  with c False g obtain m cx where m: "res = Inr p" "k_Metadata (deref w1 p) = Some m" "w' = w1"
    "u_ID u \<in> set (m_AuthorizedContexts m)" "rc = Some cx"
    "ValidateTierForProfile names (FromProtoTier (rc_ClientTier cx)) (m_StorageType m) = None"
    by (cases "k_Metadata (deref w1 p)"; cases rc) (auto simp: checkAuthorization_def split: if_splits option.splits)
  from get_reads [OF w g [unfolded m(1)]] obtain r where
    r: "sql_latest i (w_keys w) = Some r" "row_key r = Some (deref w1 p)" by blast
  have "r_metadata r = JMeta m" by (rule row_of_metadata [OF r(2) m(2)])
  then show ?thesis using r(1) m(3-) f by (simp add: may_use_def)
qed

lemma Authorize_sound:
  assumes w: "inv w" and a: "Authorize E cfg R names cx rc op i (p, w) = ((True, reason), p', w')"
    and fresh: "reason \<noteq> ''authorized_by_cache''"
  shows "\<exists>u. cx_User cx = Some u \<and> roles_allow cfg op (u_Permissions u) \<and> identity_ok cfg cx rc u \<and>
    may_use cfg names u op i rc (w_keys w)"
  using a
proof (cases rule: Authorize_cases)
  case (checked u w1)
  then show ?thesis using checkAuthorization_sound [OF w checked(5)] by blast
qed (use fresh in simp_all)

end

section \<open>Revocation of tokens\<close>

text \<open>
  The token manager over time: tokens of a set \<open>T\<close> are revoked, the clock moves on, the cleanup
  loop of the store runs.
\<close>

inductive token_step :: "jwt_lib \<Rightarrow> string set \<Rightarrow> token_store \<times> world \<Rightarrow> token_store \<times> world \<Rightarrow> bool"
  for J T where
  revoke: "tok \<in> T \<Longrightarrow> TokenManager_Revoke J tok s = (e, s') \<Longrightarrow> token_step J T s s'"
| wait: "w_now w \<le> w_now w' \<Longrightarrow> token_step J T (ts, w) (ts, w')"
| cleanup: "token_step J T (ts, w) (fst (cache_cleanupTick None (w_now w) (ts, ())), w)"

text \<open>The token with this identifier and expiry is dead: it is expired or in the store for as long as it lives.\<close>

definition token_dead :: "string \<Rightarrow> time \<Rightarrow> token_store \<times> world \<Rightarrow> bool" where
  "token_dead tid e s \<longleftrightarrow> cache_ok (fst s) \<and>
     (e \<le> w_now (snd s) \<or> (\<exists>it. map_of (c_items (fst s)) tid = Some it \<and> (it_permanent it \<or> e \<le> it_expiresAt it)))"

lemma revoke_effect_store:
  assumes "TokenManager_Revoke J tok (ts, w) = (err, ts', w')"
  obtains (same) "ts' = ts" "w_now w' = w_now w"
  | (stored) c e where "jwt_ParseUnverified J tok = Inr c" "cl_ExpiresAt c = Some e" "w_now w < e" "w_now w' = w_now w"
      "ts' = cache_Set (w_now w) (cl_ID c) () (e - w_now w) ts"
proof (cases "\<exists>c e. jwt_ParseUnverified J tok = Inr c \<and> cl_ExpiresAt c = Some e \<and> w_now w < e")
  case True
  then obtain c e where c: "jwt_ParseUnverified J tok = Inr c" "cl_ExpiresAt c = Some e" "w_now w < e" by blast
  with assms show thesis
    by (intro stored [OF c]) (simp_all add: TokenManager_Revoke_def Let_def store_Revoke_def AuditLog_def, auto)
next
  case False
  have "ts' = ts \<and> w' = w"
    using assms False
    by (auto simp: TokenManager_Revoke_def Let_def not_less split: sum.splits option.splits if_splits)
  then show thesis by (simp add: same)
qed

lemma token_dead_step:
  assumes "token_step J T s s'" "token_dead tid e s"
    and T: "\<And>tok c. tok \<in> T \<Longrightarrow> jwt_ParseUnverified J tok = Inr c \<Longrightarrow> cl_ID c = tid \<Longrightarrow> cl_ExpiresAt c = Some e"
  shows "token_dead tid e s'"
  using assms(1,2)
proof (induction rule: token_step.induct)
  case (revoke tok s err s')
  obtain ts w ts' w' where s: "s = (ts, w)" "s' = (ts', w')" by (cases s; cases s') blast
  from revoke(2) [unfolded s] show ?case
  proof (cases rule: revoke_effect_store)
    case same
    then show ?thesis using revoke(3) s by (simp add: token_dead_def)
  next
    case (stored c e')
    have "map_of (c_items ts') = (map_of (c_items ts))(cl_ID c \<mapsto>
        \<lparr>it_value = (), it_expiresAt = e', it_permanent = False\<rparr>)"
      using stored by (simp add: cache_Set_def Let_def update_conv')
    moreover have "cache_ok ts'" using stored revoke(3) s by (simp add: token_dead_def cache_Set_ok)
    moreover have "cl_ID c = tid \<Longrightarrow> e' = e" using T [OF revoke(1) stored(1)] stored(2) by simp
    ultimately show ?thesis using stored(4) revoke(3) by (cases "cl_ID c = tid") (simp_all add: token_dead_def s)
  qed
next
  case (wait w w' ts)
  then show ?case by (auto simp: token_dead_def)
next
  case (cleanup ts w)
  then have ok: "cache_ok ts" by (simp add: token_dead_def)
  then have "map_of (c_items (fst (cache_cleanupTick None (w_now w) (ts, ())))) tid = Some it"
    if "map_of (c_items ts) tid = Some it" "it_permanent it \<or> w_now w \<le> it_expiresAt it" for it
    using that map_of_deleteExpired [of "(ts, ())" None "w_now w" tid]
    by (auto simp: cache_cleanupTick_def item_expired_def)
  then show ?case using cleanup cache_tick_ok [of "(ts, ())" None "w_now w"] ok
    by (fastforce simp: token_dead_def)
qed

lemma token_dead_refused:
  assumes "jwt_ok J" "token_dead (cl_ID c) e (ts, w)" "jwt_ParseUnverified J tok = Inr c" "cl_ExpiresAt c = Some e"
  shows "\<exists>err. ValidateToken J (w_now w) ts tok = Inl err"
proof (cases "jwt_ParseWithClaims J rsa_keyfunc (w_now w) tok")
  case (Inl err)
  then show ?thesis by (simp add: ValidateToken_def)
next
  case (Inr cv)
  then obtain c' v where cv: "cv = (c', v)" by (cases cv)
  have "jwt_ParseUnverified J tok = Inr c'" "\<forall>e. cl_ExpiresAt c' = Some e \<longrightarrow> w_now w < e"
    using assms(1) Inr cv unfolding jwt_ok_def by blast+
  then have "c' = c" "w_now w < e" using assms(3,4) by auto
  then show ?thesis using assms(2) Inr cv
    by (auto simp: token_dead_def ValidateToken_def store_IsRevoked_def cache_Get_def item_expired_def)
qed

lemma revoke_makes_dead:
  assumes "cache_ok ts" "TokenManager_Revoke J tok (ts, w) = (None, ts', w')" "jwt_ParseUnverified J tok = Inr c"
  shows "\<exists>e. cl_ExpiresAt c = Some e \<and> token_dead (cl_ID c) e (ts', w')"
  using assms
  by (auto simp: TokenManager_Revoke_def Let_def store_Revoke_def AuditLog_def token_dead_def cache_ok_def
      cache_Set_def update_conv' distinct_update split: option.splits if_splits)

lemma token_dead_steps:
  assumes "(token_step J T)\<^sup>*\<^sup>* s s'" "token_dead tid e s"
    and "\<And>tok c. tok \<in> T \<Longrightarrow> jwt_ParseUnverified J tok = Inr c \<Longrightarrow> cl_ID c = tid \<Longrightarrow> cl_ExpiresAt c = Some e"
  shows "token_dead tid e s'"
  using assms by (induction rule: rtranclp_induct) (blast intro: token_dead_step)+

text \<open>A revoked token stays revoked, as long as nothing else with its identifier is revoked.\<close>

lemma revoked_token_refused:
  assumes J: "jwt_ok J" and ts: "cache_ok ts" and tok: "jwt_ParseUnverified J tok = Inr c"
    and r: "TokenManager_Revoke J tok (ts, w) = (None, s1)" and run: "(token_step J T)\<^sup>*\<^sup>* s1 (ts2, w2)"
    and T: "\<And>tok' c'. tok' \<in> T \<Longrightarrow> jwt_ParseUnverified J tok' = Inr c' \<Longrightarrow> cl_ID c' = cl_ID c \<Longrightarrow> tok' = tok"
  shows "\<exists>err. ValidateToken J (w_now w2) ts2 tok = Inl err"
proof -
  obtain ts1 w1 where s1: "s1 = (ts1, w1)" by (cases s1)
  from revoke_makes_dead [OF ts r [unfolded s1] tok] obtain e
    where e: "cl_ExpiresAt c = Some e" "token_dead (cl_ID c) e (ts1, w1)" by blast
  have same: "cl_ExpiresAt c' = Some e"
    if "tok' \<in> T" "jwt_ParseUnverified J tok' = Inr c'" "cl_ID c' = cl_ID c" for tok' c'
    using T [OF that] that(2) tok e(1) by simp
  have "token_dead (cl_ID c) e (ts2, w2)" by (rule token_dead_steps [OF run [unfolded s1] e(2) same])
  then show ?thesis by (rule token_dead_refused [OF J _ tok e(1)])
qed

text \<open>
  Revocation does not verify the token it is given: one that shares the identifier but claims an
  earlier expiry shortens the revocation.
\<close>

lemma forged_revocation_revives:
  assumes tok: "jwt_ParseUnverified J tok = Inr c" "cl_ExpiresAt c = Some e"
    and forged: "jwt_ParseUnverified J tok' = Inr c'" "cl_ID c' = cl_ID c" "cl_ExpiresAt c' = Some e'"
    and t: "w_now w < e'" "e' < t" "w_now w < e"
    and valid: "jwt_ParseWithClaims J rsa_keyfunc t tok = Inr (c, True)"
    and r: "TokenManager_Revoke J tok (ts, w) = (None, s1)" "TokenManager_Revoke J tok' s1 = (None, ts2, w2)"
  shows "ValidateToken J t ts2 tok = Inr c"
proof -
  obtain ts1 w1 where s1: "s1 = (ts1, w1)" by (cases s1)
  have "w_now w1 = w_now w"
    using r(1) s1 tok t by (auto simp: TokenManager_Revoke_def Let_def AuditLog_def)
  then have "ts2 = cache_Set (w_now w) (cl_ID c) () (e' - w_now w) ts1"
    using r(2) s1 forged t by (auto simp: TokenManager_Revoke_def Let_def store_Revoke_def AuditLog_def)
  then have "cache_Get t (cl_ID c) ts2 = None"
    using go_cache.get_after_expiry [of "e' - w_now w" "w_now w" t "cl_ID c" "()" ts1] t by simp
  then show ?thesis using valid by (simp add: ValidateToken_def store_IsRevoked_def)
qed

section \<open>From credentials to a caller\<close>

lemma FindClientByID_loaded:
  assumes "load_clients ds = Inr cs" "FindClientByID cs cid = Inr c"
  shows "\<exists>d. (cid, d) \<in> set ds \<and> validateClientData cid d = None \<and>
    c = \<lparr>c_ID = cid, c_HashedAPIKey = cd_HashedAPIKey d, c_Permissions = cd_Permissions d\<rparr>"
  using assms
proof (induction ds arbitrary: cs)
  case (Cons a ds)
  then show ?case
    by (cases a) (fastforce simp: FindClientByID_def split: option.splits sum.splits if_splits)
qed (simp add: FindClientByID_def)

lemma jwt_signed_parses:
  assumes "jwt_ok J" "jwt_SignedString J c = Inr tok" "kf ''RS256'' = None" "\<And>e. cl_ExpiresAt c = Some e \<Longrightarrow> t < e"
  shows "jwt_ParseWithClaims J kf t tok = Inr (c, True)"
  using assms unfolding jwt_ok_def by blast

text \<open>A client that authenticates may call, until its token expires, as itself with its roles.\<close>

lemma authenticate_then_call:
  assumes J: "jwt_ok J" and ttl: "t < jwt_NewNumericDate J (w_now w + ttl)"
    and a: "AuthService_Authenticate E J bcrypt_ok store ttl cid secret w = (Inr res, w')"
    and m: "in_FullMethod inc \<notin> set unprotectedMethods"
      "in_AuthHeaders inc = Some ((bearerPrefix @ ar_AccessToken res) # rest)" "ar_AccessToken res \<noteq> ''''"
    and live: "\<not> store_IsRevoked t (KeyID_String (e_uuid E) (KeyID (e_newUUID E (w_draws w)))) ts"
    and rate: "limiter_Allow L t (c_ID cl) lim = (True, lim')" and cl: "FindClientByID store cid = Inr cl"
  shows "bcrypt_ok (c_HashedAPIKey cl) secret \<and> AuthenticationInterceptor J L t ts inc lim =
    (Inr \<lparr>cx_User = Some \<lparr>u_ID = c_ID cl, u_Permissions = c_Permissions cl\<rparr>, cx_PeerCN = in_PeerCN inc\<rparr>, lim')"
proof -
  let ?c = "\<lparr>cl_UserID = c_ID cl, cl_Roles = c_Permissions cl,
      cl_ID = KeyID_String (e_uuid E) (KeyID (e_newUUID E (w_draws w))),
      cl_ExpiresAt = Some (jwt_NewNumericDate J (w_now w + ttl)),
      cl_IssuedAt = Some (jwt_NewNumericDate J (w_now w))\<rparr>"
  have s: "jwt_SignedString J ?c = Inr (ar_AccessToken res)" "bcrypt_ok (c_HashedAPIKey cl) secret"
    using a cl
    by (cases "jwt_SignedString J ?c"; cases "bcrypt_ok (c_HashedAPIKey cl) secret";
        force simp: AuthService_Authenticate_def GenerateToken_def Let_def next_draw_def)+
  have "jwt_ParseWithClaims J rsa_keyfunc t (ar_AccessToken res) = Inr (?c, True)"
    by (rule jwt_signed_parses [OF J s(1)]) (simp_all add: rsa_keyfunc_def jwt_rsa_algs_def ttl)
  then have "ValidateToken J t ts (ar_AccessToken res) = Inr ?c"
    using live by (simp add: ValidateToken_def)
  then show ?thesis using m rate s(2) by (simp add: AuthenticationInterceptor_def Let_def)
qed

text \<open>A caller on a protected method has presented a valid token that is not revoked.\<close>

lemma interceptor_caller:
  assumes "AuthenticationInterceptor J L now ts inc lim = (Inr cx, lim')"
    "in_FullMethod inc \<notin> set unprotectedMethods"
  shows "\<exists>tok c. in_AuthHeaders inc \<noteq> None \<and> hd (the (in_AuthHeaders inc)) = bearerPrefix @ tok \<and>
    ValidateToken J now ts tok = Inr c \<and>
    cx = \<lparr>cx_User = Some \<lparr>u_ID = cl_UserID c, u_Permissions = cl_Roles c\<rparr>, cx_PeerCN = in_PeerCN inc\<rparr> \<and>
    fst (limiter_Allow L now (cl_UserID c) lim)"
proof -
  from assms obtain hdr rest where h: "in_AuthHeaders inc = Some (hdr # rest)"
    by (auto simp: AuthenticationInterceptor_def split: if_splits option.splits list.splits)
  with assms obtain c where c: "take (length bearerPrefix) hdr = bearerPrefix"
    "ValidateToken J now ts (drop (length bearerPrefix) hdr) = Inr c" "fst (limiter_Allow L now (cl_UserID c) lim)"
    "cx = \<lparr>cx_User = Some \<lparr>u_ID = cl_UserID c, u_Permissions = cl_Roles c\<rparr>, cx_PeerCN = in_PeerCN inc\<rparr>"
    by (auto simp: AuthenticationInterceptor_def Let_def split: if_splits sum.splits prod.splits bool.splits)
  have "hdr = bearerPrefix @ drop (length bearerPrefix) hdr"
    using c(1) append_take_drop_id [of "length bearerPrefix" hdr] by simp
  then show ?thesis using h c(2-) by (metis list.sel(1) option.sel option.discI)
qed

section \<open>Clients do not share a limiter\<close>

fun limiter_run :: "'l rate_lib \<Rightarrow> (time \<times> string) list \<Rightarrow> (string \<rightharpoonup> 'l) \<Rightarrow> (string \<times> bool) list" where
  "limiter_run L [] lim = []"
| "limiter_run L ((t, c) # rs) lim =
     (let (ok, lim') = limiter_Allow L t c lim in (c, ok) # limiter_run L rs lim')"

text \<open>The answers a client gets are the ones it would get alone.\<close>

lemma limiter_run_cong:
  "lim c = lim' c \<Longrightarrow>
   filter (\<lambda>a. fst a = c) (limiter_run L rs lim) = limiter_run L (filter (\<lambda>r. snd r = c) rs) lim'"
proof (induction rs arbitrary: lim lim')
  case (Cons r rs)
  obtain t d where r: "r = (t, d)" by (cases r)
  show ?case
  proof (cases "d = c")
    case True
    have "fst (limiter_Allow L t c lim) = fst (limiter_Allow L t c lim')"
      "snd (limiter_Allow L t c lim) c = snd (limiter_Allow L t c lim') c"
      using Cons.prems by (simp_all add: limiter_Allow_def Let_def split: prod.splits)
    then show ?thesis using Cons.IH [of "snd (limiter_Allow L t c lim)" "snd (limiter_Allow L t c lim')"]
      by (simp add: r True Let_def split_def)
  next
    case False
    have "snd (limiter_Allow L t d lim) c = lim' c"
      using False Cons.prems by (simp add: limiter_Allow_def Let_def split: prod.splits)
    then show ?thesis using Cons.IH by (simp add: r False Let_def split_def)
  qed
qed simp

end
