(* ===== verification/Validation.thy ===== *)
theory Validation
  imports KeyManager
begin

text \<open>
  Request validation: \<^verbatim>\<open>internal/validation\<close>, the ARN rule of \<^verbatim>\<open>pkg/validator\<close> and the validation
  interceptor.  The regular expressions are recognizers on byte strings; they only accept ASCII, so
  bytes and runes agree.  \<^verbatim>\<open>encoding/json\<close> on the generated messages and on policies is a parameter.
  Go maps are association lists in the order the loop visits them.
\<close>

section \<open>Messages\<close>

text \<open>The messages of the API, with the fields that only the gRPC layer reads.\<close>

record rotate_message = rotate_request +
  rt_RequesterContext :: "requester_context option"

record revoke_message =
  vq_KeyId :: string
  vq_RequesterContext :: "requester_context option"

record update_message = update_item +
  ui_ContextsToAdd :: "string list"
  ui_ContextsToRemove :: "string list"
  ui_RequesterContext :: "requester_context option"

record list_message = list_request +
  lq_RequesterContext :: "requester_context option"
  lq_TagFilters :: "(string \<times> string) list"
  lq_CreatedAfter :: "time option"
  lq_CreatedBefore :: "time option"

record authenticate_message =
  aq_ClientId :: string
  aq_ApiKey :: string

datatype message =
    CreateKeyRequest create_request
  | UpdateKeyMetadataRequest update_message
  | ListKeysRequest list_message
  | GetKeyRequest get_request
  | RotateKeyRequest rotate_message
  | RevokeKeyRequest revoke_message
  | GetKeyMetadataRequest metadata_request
  | AuthenticateRequest authenticate_message
  | RefreshTokenRequest string
  | RevokeTokenRequest string string  \<comment> \<open>access token, client id\<close>
  | BatchCreateKeysRequest batch_create_request
  | BatchGetKeysRequest batch_get_request
  | BatchGetKeyMetadataRequest batch_get_request
  | BatchRotateKeysRequest "rotate_request batch_request"
  | BatchRevokeKeysRequest "string batch_request"
  | BatchUpdateKeyMetadataRequest "update_item batch_request"
  | EmptyRequest

record json_lib =
  json_Marshal_size :: "message \<Rightarrow> go_error + nat"
  json_Unmarshal :: "string \<Rightarrow> go_error option"

section \<open>Regular expressions\<close>

definition in_range :: "char \<Rightarrow> char \<Rightarrow> char \<Rightarrow> bool" where
  "in_range a b c \<longleftrightarrow> (of_char a :: nat) \<le> of_char c \<and> (of_char c :: nat) \<le> of_char b"

definition is_lower :: "char \<Rightarrow> bool" where "is_lower = in_range CHR ''a'' CHR ''z''"
definition is_upper :: "char \<Rightarrow> bool" where "is_upper = in_range CHR ''A'' CHR ''Z''"
definition is_digit :: "char \<Rightarrow> bool" where "is_digit = in_range CHR ''0'' CHR ''9''"
definition is_letter :: "char \<Rightarrow> bool" where "is_letter c \<longleftrightarrow> is_lower c \<or> is_upper c"
definition is_hex :: "char \<Rightarrow> bool" where "is_hex c \<longleftrightarrow> is_digit c \<or> in_range CHR ''a'' CHR ''f'' c"

definition uuidRegex :: "string \<Rightarrow> bool" where
  "uuidRegex s \<longleftrightarrow> length s = 36 \<and>
     list_all (\<lambda>(i, c). if i \<in> {8, 13, 18, 23} then c = CHR ''-'' else is_hex c) (enumerate 0 s)"

definition tagKeyRegex :: "string \<Rightarrow> bool" where
  "tagKeyRegex s \<longleftrightarrow> s \<noteq> [] \<and> is_letter (hd s) \<and> length (tl s) \<le> 127 \<and>
     list_all (\<lambda>c. is_letter c \<or> is_digit c \<or> c = CHR ''_'' \<or> c = CHR ''-'') (tl s)"

definition contextRegex :: "string \<Rightarrow> bool" where
  "contextRegex s \<longleftrightarrow> s \<noteq> [] \<and> (is_letter (hd s) \<or> is_digit (hd s)) \<and> length (tl s) \<le> 255 \<and>
     list_all (\<lambda>c. is_letter c \<or> is_digit c \<or> c = CHR ''.'' \<or> c = CHR ''_'' \<or> c = CHR ''-'') (tl s)"

text \<open>The colon is outside every class before it, so each group ends at the next colon.\<close>

definition arn_class :: "char \<Rightarrow> bool" where
  "arn_class c \<longleftrightarrow> is_lower c \<or> is_digit c \<or> c = CHR ''-''"

definition isARN :: "string \<Rightarrow> bool" where
  "isARN s \<longleftrightarrow> take 8 s = ''arn:aws:'' \<and>
     (let s1 = drop 8 s; service = takeWhile arn_class s1; s2 = dropWhile arn_class s1;
          s3 = drop 1 s2; s4 = dropWhile arn_class s3; s5 = drop 1 s4
      in service \<noteq> [] \<and> take 1 s2 = '':'' \<and> take 1 s4 = '':'' \<and>
         12 < length s5 \<and> list_all is_digit (take 12 s5) \<and> s5 ! 12 = CHR '':'' \<and>
         CHR 0x0A \<notin> set (drop 13 s5))"

definition ContainsAny :: "string \<Rightarrow> char list \<Rightarrow> bool" where
  "ContainsAny s cs \<longleftrightarrow> list_ex (\<lambda>c. c \<in> set cs) s"

definition quote_char :: char where "quote_char = CHR 0x27"
definition dquote :: char where "dquote = CHR 0x22"

section \<open>The request validator\<close>

definition MaxMetadataSize :: nat where "MaxMetadataSize = 64 * 1024"
definition MaxTagCount :: nat where "MaxTagCount = 50"
definition MaxTagKeyLen :: nat where "MaxTagKeyLen = 128"
definition MaxTagValueLen :: nat where "MaxTagValueLen = 256"
definition MaxDescriptionLen :: nat where "MaxDescriptionLen = 1024"
definition MaxAuthorizedContexts :: nat where "MaxAuthorizedContexts = 100"
definition MaxAccessPolicies :: nat where "MaxAccessPolicies = 50"
definition MaxDataClassificationLen :: nat where "MaxDataClassificationLen = 50"

lemmas validation_limits [go_simps] = MaxMetadataSize_def MaxTagCount_def MaxTagKeyLen_def
  MaxTagValueLen_def MaxDescriptionLen_def MaxAuthorizedContexts_def MaxAccessPolicies_def
  MaxDataClassificationLen_def

definition allowedDataClassifications :: "string list" where
  "allowedDataClassifications = [''public'', ''confidential'', ''secret'']"

definition quoted :: "string \<Rightarrow> string" where
  "quoted s = [quote_char] @ s @ [quote_char]"

definition validateRequestSize :: "json_lib \<Rightarrow> message \<Rightarrow> go_error option" where
  "validateRequestSize J m =
     (case json_Marshal_size J m of
        Inl err \<Rightarrow> Some (wrapf ''failed to estimate request size'' err)
      | Inr n \<Rightarrow>
          if n > MaxMetadataSize
          then Some (Plain (''request size '' @ itoa (int n) @ '' exceeds maximum of '' @
                 itoa (int MaxMetadataSize) @ '' bytes''))
          else None)"

fun tag_loop :: "(string \<times> string) list \<Rightarrow> go_error option" where
  "tag_loop [] = None"
| "tag_loop ((k, v) # tags) =
     (if length k > MaxTagKeyLen
      then Some (Plain (''tag key '' @ quoted k @ '' exceeds maximum length of '' @ itoa (int MaxTagKeyLen)))
      else if length v > MaxTagValueLen
      then Some (Plain (''tag value for key '' @ quoted k @ '' exceeds maximum length of '' @ itoa (int MaxTagValueLen)))
      else if \<not> tagKeyRegex k then Some (Plain (''invalid tag key format: '' @ quoted k))
      else if ContainsAny v (''<>'' @ [dquote, quote_char])
      then Some (Plain ''tag value contains invalid characters'')
      else tag_loop tags)"

definition validateTags :: "(string \<times> string) list \<Rightarrow> go_error option" where
  "validateTags tags =
     (if length tags > MaxTagCount
      then Some (Plain (''tag count '' @ itoa (int (length tags)) @ '' exceeds maximum of '' @ itoa (int MaxTagCount)))
      else tag_loop tags)"

fun context_loop :: "string list \<Rightarrow> string list \<Rightarrow> go_error option" where
  "context_loop seen [] = None"
| "context_loop seen (c # cs) =
     (if c \<in> set seen then Some (Plain (''duplicate authorized context: '' @ c))
      else if \<not> contextRegex c then Some (Plain (''invalid authorized context format: '' @ quoted c))
      else context_loop (c # seen) cs)"

definition validateAuthorizedContexts :: "string list \<Rightarrow> go_error option" where
  "validateAuthorizedContexts contexts =
     (if length contexts > MaxAuthorizedContexts
      then Some (Plain (''authorized contexts count '' @ itoa (int (length contexts)) @
             '' exceeds maximum of '' @ itoa (int MaxAuthorizedContexts)))
      else context_loop [] contexts)"

fun policy_loop :: "json_lib \<Rightarrow> (string \<times> string) list \<Rightarrow> go_error option" where
  "policy_loop J [] = None"
| "policy_loop J ((name, policy) # ps) =
     (if \<not> tagKeyRegex name then Some (Plain (''invalid policy name format: '' @ quoted name))
      else case json_Unmarshal J policy of
        Some err \<Rightarrow> Some (wrapf (''invalid policy JSON for '' @ quoted name) err)
      | None \<Rightarrow> policy_loop J ps)"

definition validateAccessPolicies :: "json_lib \<Rightarrow> (string \<times> string) list \<Rightarrow> go_error option" where
  "validateAccessPolicies J policies =
     (if length policies > MaxAccessPolicies
      then Some (Plain (''access policies count '' @ itoa (int (length policies)) @
             '' exceeds maximum of '' @ itoa (int MaxAccessPolicies)))
      else policy_loop J policies)"

definition validateDataClassification :: "string \<Rightarrow> go_error option" where
  "validateDataClassification classification =
     (if classification = '''' then None
      else if length classification > MaxDataClassificationLen
      then Some (Plain (''data classification exceeds maximum length of '' @
             itoa (int MaxDataClassificationLen) @ '' characters''))
      else if classification \<notin> set allowedDataClassifications
      then Some (Plain (''invalid data classification: '' @ quoted classification))
      else None)"

text \<open>\<open>first_error\<close> is a sequence of checks with early returns; each labels the error of its check.\<close>

fun first_error :: "(string \<times> go_error option) list \<Rightarrow> go_error option" where
  "first_error [] = None"
| "first_error ((label, r) # rs) =
     (case r of
        Some err \<Rightarrow> Some (if label = '''' then err else wrapf label err)
      | None \<Rightarrow> first_error rs)"

definition reject_if :: "bool \<Rightarrow> string \<Rightarrow> string \<times> go_error option" where
  "reject_if b msg = ('''', if b then Some (Plain msg) else None)"

definition description_too_long :: "string \<Rightarrow> string \<times> go_error option" where
  "description_too_long d = reject_if (length d > MaxDescriptionLen)
     (''description exceeds maximum length of '' @ itoa (int MaxDescriptionLen) @ '' characters'')"

definition ValidateCreateKeyRequest :: "json_lib \<Rightarrow> create_request \<Rightarrow> go_error option" where
  "ValidateCreateKeyRequest J req = first_error
     [(''request size validation failed'', validateRequestSize J (CreateKeyRequest req)),
      reject_if (ci_KeyType req = KEY_TYPE_UNSPECIFIED) ''key type is required'',
      description_too_long (ci_Description req),
      (''tag validation failed'', validateTags (ci_Tags req)),
      (''authorized contexts validation failed'', validateAuthorizedContexts (ci_InitialAuthorizedContexts req)),
      (''access policies validation failed'', validateAccessPolicies J (ci_AccessPolicies req)),
      (''data classification validation failed'', validateDataClassification (ci_DataClassification req))]"

definition getter :: "string option \<Rightarrow> string" where
  "getter o' = (case o' of None \<Rightarrow> '''' | Some s \<Rightarrow> s)"

definition ValidateUpdateKeyMetadataRequest :: "json_lib \<Rightarrow> update_message \<Rightarrow> go_error option" where
  "ValidateUpdateKeyMetadataRequest J req = first_error
     [(''request size validation failed'', validateRequestSize J (UpdateKeyMetadataRequest req)),
      reject_if (ui_KeyId req = '''') ''key_id is required'',
      description_too_long (getter (ui_Description req)),
      (''tags_to_add validation failed'', validateTags (ui_TagsToAdd req)),
      (''contexts_to_add validation failed'', validateAuthorizedContexts (ui_ContextsToAdd req)),
      (''contexts_to_remove validation failed'', validateAuthorizedContexts (ui_ContextsToRemove req)),
      (''policies_to_update validation failed'', validateAccessPolicies J (ui_PoliciesToUpdate req)),
      (''data classification validation failed'',
         validateDataClassification (getter (ui_DataClassification req)))]"

text \<open>The checks of the four requests that name one key.\<close>

definition validate_key_request :: "string \<Rightarrow> requester_context option \<Rightarrow> go_error option" where
  "validate_key_request kid rc = first_error
     [reject_if (kid = '''') ''key_id is required'',
      reject_if (\<not> uuidRegex kid) ''invalid key_id format: must be a UUID'',
      reject_if (rc = None) ''requester_context is required'']"

definition ValidateGetKeyRequest :: "get_request \<Rightarrow> go_error option" where
  "ValidateGetKeyRequest req = validate_key_request (gq_KeyId req) (gq_RequesterContext req)"

definition ValidateRotateKeyRequest :: "rotate_message \<Rightarrow> go_error option" where
  "ValidateRotateKeyRequest req = validate_key_request (rt_KeyId req) (rt_RequesterContext req)"

definition ValidateRevokeKeyRequest :: "revoke_message \<Rightarrow> go_error option" where
  "ValidateRevokeKeyRequest req = validate_key_request (vq_KeyId req) (vq_RequesterContext req)"

definition ValidateGetKeyMetadataRequest :: "metadata_request \<Rightarrow> go_error option" where
  "ValidateGetKeyMetadataRequest req = validate_key_request (mq_KeyId req) (mq_RequesterContext req)"

definition ValidateAuthenticateRequest :: "authenticate_message \<Rightarrow> go_error option" where
  "ValidateAuthenticateRequest req = first_error
     [reject_if (aq_ClientId req = '''') ''client_id is required'',
      reject_if (aq_ApiKey req = '''') ''api_key is required'']"

definition ValidateRefreshTokenRequest :: "string \<Rightarrow> go_error option" where
  "ValidateRefreshTokenRequest token = first_error [reject_if (token = '''') ''refresh_token is required'']"

definition ValidateRevokeTokenRequest :: "string \<Rightarrow> string \<Rightarrow> go_error option" where
  "ValidateRevokeTokenRequest token clientID = first_error
     [reject_if (token = '''') ''access_token is required'',
      reject_if (clientID = '''') ''client_id is required'']"

section \<open>The query validator\<close>

definition MaxQueryLimit :: int where "MaxQueryLimit = 1000"
definition DefaultQueryLimit :: int where "DefaultQueryLimit = 100"

definition isValidPageToken :: "string \<Rightarrow> bool" where
  "isValidPageToken token \<longleftrightarrow>
     length token < 256 \<and> \<not> ContainsAny token ('';'' @ [quote_char, dquote] @ ''<>'')"

fun filter_loop :: "(string \<times> string) list \<Rightarrow> go_error option" where
  "filter_loop [] = None"
| "filter_loop ((k, v) # fs) =
     (if ContainsAny k ('';'' @ [quote_char, dquote]) \<or> ContainsAny v ('';'' @ [quote_char, dquote])
      then Some (Plain ''invalid characters in tag filter'') else filter_loop fs)"

definition time_range_error :: "time option \<Rightarrow> time option \<Rightarrow> go_error option" where
  "time_range_error after before =
     (case (after, before) of
        (Some a, Some b) \<Rightarrow>
          if a > b then Some (Plain ''created_after must be before created_before'')
          else if b - a > 365 * 24 * hour then Some (Plain ''time range too wide (max 1 year)'')
          else None
      | _ \<Rightarrow> None)"

text \<open>A page size of 0 is replaced in the request itself.\<close>

definition ValidateListKeysRequest :: "list_message \<Rightarrow> go_error option \<times> list_message" where
  "ValidateListKeysRequest req =
     (let pageSize = lq_PageSize req in
      if pageSize < 0 then (Some (Plain ''page_size cannot be negative''), req)
      else if pageSize > MaxQueryLimit
      then (Some (Plain (''page_size '' @ itoa pageSize @ '' exceeds maximum of '' @ itoa MaxQueryLimit)), req)
      else
        (let req' = (if pageSize = 0 then req\<lparr>lq_PageSize := DefaultQueryLimit\<rparr> else req) in
         if lq_PageToken req' \<noteq> '''' \<and> \<not> isValidPageToken (lq_PageToken req')
         then (Some (Plain ''invalid page token format''), req')
         else case filter_loop (lq_TagFilters req') of
           Some err \<Rightarrow> (Some err, req')
         | None \<Rightarrow> (time_range_error (lq_CreatedAfter req') (lq_CreatedBefore req'), req')))"

section \<open>The validation interceptor\<close>

definition validate_message :: "json_lib \<Rightarrow> message \<Rightarrow> go_error option \<times> message" where
  "validate_message J m =
     (case m of
        CreateKeyRequest r \<Rightarrow> (ValidateCreateKeyRequest J r, m)
      | UpdateKeyMetadataRequest r \<Rightarrow> (ValidateUpdateKeyMetadataRequest J r, m)
      | ListKeysRequest r \<Rightarrow> (let (e, r') = ValidateListKeysRequest r in (e, ListKeysRequest r'))
      | GetKeyRequest r \<Rightarrow> (ValidateGetKeyRequest r, m)
      | RotateKeyRequest r \<Rightarrow> (ValidateRotateKeyRequest r, m)
      | RevokeKeyRequest r \<Rightarrow> (ValidateRevokeKeyRequest r, m)
      | GetKeyMetadataRequest r \<Rightarrow> (ValidateGetKeyMetadataRequest r, m)
      | AuthenticateRequest r \<Rightarrow> (ValidateAuthenticateRequest r, m)
      | RefreshTokenRequest t \<Rightarrow> (ValidateRefreshTokenRequest t, m)
      | RevokeTokenRequest t c \<Rightarrow> (ValidateRevokeTokenRequest t c, m)
      | _ \<Rightarrow> (None, m))"

text \<open>
  \<open>setup_err\<close> is the result of registering the custom rules with the third-party validator.  The
  request passes to the handler, or the caller gets the sanitized status.
\<close>

definition UnaryValidationInterceptor ::
  "json_lib \<Rightarrow> go_error option \<Rightarrow> nat option \<Rightarrow> string \<Rightarrow> message \<Rightarrow> error_pool \<Rightarrow> (go_error + message) \<times> error_pool" where
  "UnaryValidationInterceptor J setup_err pick meth m pool =
     (let refuse_with = (\<lambda>err op. case sanitizeError pick op err pool of
            (Some status, pool') \<Rightarrow> (Inl status, pool') | (None, pool') \<Rightarrow> (Inr m, pool'))
      in case setup_err of
           Some err \<Rightarrow> refuse_with (wrapf ''failed to register custom validators'' err) ''NewRequestValidator''
         | None \<Rightarrow>
             (case validate_message J m of
                (Some err, m') \<Rightarrow> refuse_with err meth
              | (None, m') \<Rightarrow> (Inr m', pool)))"

section \<open>What the validators accept\<close>

definition tag_ok :: "string \<times> string \<Rightarrow> bool" where
  "tag_ok t \<longleftrightarrow> tagKeyRegex (fst t) \<and> length (snd t) \<le> MaxTagValueLen \<and>
     \<not> ContainsAny (snd t) (''<>'' @ [dquote, quote_char])"

lemma tagKeyRegex_length: "tagKeyRegex k \<Longrightarrow> length k \<le> MaxTagKeyLen"
  by (cases k) (simp_all add: tagKeyRegex_def MaxTagKeyLen_def)

lemma if_Some_None: "(if b then Some x else y) = None \<longleftrightarrow> \<not> b \<and> y = None"
  by simp

lemma tag_loop_Cons: "tag_loop (t # tags) = None \<longleftrightarrow> tag_ok t \<and> tag_loop tags = None"
proof -
  obtain k v where t: "t = (k, v)" by (cases t)
  show ?thesis using tagKeyRegex_length [of k]
    unfolding t tag_loop.simps tag_ok_def fst_conv snd_conv if_Some_None by auto
qed

lemma tag_loop_None: "tag_loop tags = None \<longleftrightarrow> (\<forall>t \<in> set tags. tag_ok t)"
  by (induction tags) (simp_all del: tag_loop.simps(2) add: tag_loop_Cons)

lemma context_loop_None:
  "context_loop seen cs = None \<longleftrightarrow> distinct cs \<and> set cs \<inter> set seen = {} \<and> (\<forall>c \<in> set cs. contextRegex c)"
  by (induction seen cs rule: context_loop.induct) auto

lemma policy_loop_None:
  "policy_loop J ps = None \<longleftrightarrow> (\<forall>p \<in> set ps. tagKeyRegex (fst p) \<and> json_Unmarshal J (snd p) = None)"
  by (induction J ps rule: policy_loop.induct) (auto split: option.splits)

definition filter_ok :: "string \<times> string \<Rightarrow> bool" where
  "filter_ok f \<longleftrightarrow> \<not> ContainsAny (fst f) ('';'' @ [quote_char, dquote]) \<and>
     \<not> ContainsAny (snd f) ('';'' @ [quote_char, dquote])"

lemma filter_loop_Cons: "filter_loop (f # fs) = None \<longleftrightarrow> filter_ok f \<and> filter_loop fs = None"
  by (cases f) (simp only: filter_loop.simps filter_ok_def fst_conv snd_conv if_Some_None de_Morgan_disj conj_assoc)

lemma filter_loop_None: "filter_loop fs = None \<longleftrightarrow> (\<forall>f \<in> set fs. filter_ok f)"
  by (induction fs) (simp_all del: filter_loop.simps(2) add: filter_loop_Cons)

lemma first_error_None: "first_error rs = None \<longleftrightarrow> (\<forall>r \<in> set rs. snd r = None)"
  by (induction rs rule: first_error.induct) (auto split: option.splits)

lemma reject_if_None [simp]: "snd (reject_if b msg) = None \<longleftrightarrow> \<not> b"
  by (simp add: reject_if_def)

lemma description_too_long_None [simp]: "snd (description_too_long d) = None \<longleftrightarrow> length d \<le> MaxDescriptionLen"
  by (auto simp: description_too_long_def)

lemma validateDataClassification_None:
  "validateDataClassification c = None \<longleftrightarrow> c \<in> {'''', ''public'', ''confidential'', ''secret''}"
  by (auto simp: validateDataClassification_def allowedDataClassifications_def MaxDataClassificationLen_def)

lemmas validators_None = first_error_None tag_loop_None context_loop_None policy_loop_None
  filter_loop_None validateDataClassification_None

definition fits_in_request :: "json_lib \<Rightarrow> message \<Rightarrow> bool" where
  "fits_in_request J m \<longleftrightarrow> (\<exists>n \<le> MaxMetadataSize. json_Marshal_size J m = Inr n)"

lemma validateRequestSize_None: "validateRequestSize J m = None \<longleftrightarrow> fits_in_request J m"
  by (auto simp: validateRequestSize_def fits_in_request_def split: sum.splits)

definition policies_ok :: "json_lib \<Rightarrow> (string \<times> string) list \<Rightarrow> bool" where
  "policies_ok J ps \<longleftrightarrow> length ps \<le> MaxAccessPolicies \<and>
     (\<forall>p \<in> set ps. tagKeyRegex (fst p) \<and> json_Unmarshal J (snd p) = None)"

definition tags_ok :: "(string \<times> string) list \<Rightarrow> bool" where
  "tags_ok ts \<longleftrightarrow> length ts \<le> MaxTagCount \<and> (\<forall>t \<in> set ts. tag_ok t)"

definition contexts_ok :: "string list \<Rightarrow> bool" where
  "contexts_ok cs \<longleftrightarrow> length cs \<le> MaxAuthorizedContexts \<and> distinct cs \<and> (\<forall>c \<in> set cs. contextRegex c)"

lemma parts_None:
  "validateTags ts = None \<longleftrightarrow> tags_ok ts"
  "validateAuthorizedContexts cs = None \<longleftrightarrow> contexts_ok cs"
  "validateAccessPolicies J ps = None \<longleftrightarrow> policies_ok J ps"
  by (auto simp: validateTags_def tags_ok_def validateAuthorizedContexts_def contexts_ok_def
      validateAccessPolicies_def policies_ok_def validators_None)

text \<open>The declarative rules, and that the code enforces exactly them.\<close>

definition create_accepted :: "json_lib \<Rightarrow> create_request \<Rightarrow> bool" where
  "create_accepted J r \<longleftrightarrow> fits_in_request J (CreateKeyRequest r) \<and> ci_KeyType r \<noteq> KEY_TYPE_UNSPECIFIED \<and>
     length (ci_Description r) \<le> MaxDescriptionLen \<and> tags_ok (ci_Tags r) \<and>
     contexts_ok (ci_InitialAuthorizedContexts r) \<and> policies_ok J (ci_AccessPolicies r) \<and>
     ci_DataClassification r \<in> {'''', ''public'', ''confidential'', ''secret''}"

lemma ValidateCreateKeyRequest_iff: "ValidateCreateKeyRequest J r = None \<longleftrightarrow> create_accepted J r"
  unfolding ValidateCreateKeyRequest_def create_accepted_def first_error_None
  by (simp add: parts_None validateRequestSize_None validateDataClassification_None)

definition update_accepted :: "json_lib \<Rightarrow> update_message \<Rightarrow> bool" where
  "update_accepted J r \<longleftrightarrow> fits_in_request J (UpdateKeyMetadataRequest r) \<and> ui_KeyId r \<noteq> '''' \<and>
     length (getter (ui_Description r)) \<le> MaxDescriptionLen \<and> tags_ok (ui_TagsToAdd r) \<and>
     contexts_ok (ui_ContextsToAdd r) \<and> contexts_ok (ui_ContextsToRemove r) \<and>
     policies_ok J (ui_PoliciesToUpdate r) \<and>
     getter (ui_DataClassification r) \<in> {'''', ''public'', ''confidential'', ''secret''}"

lemma ValidateUpdateKeyMetadataRequest_iff:
  "ValidateUpdateKeyMetadataRequest J r = None \<longleftrightarrow> update_accepted J r"
  unfolding ValidateUpdateKeyMetadataRequest_def update_accepted_def first_error_None
  by (simp add: parts_None validateRequestSize_None validateDataClassification_None)

lemma validate_key_request_iff:
  "validate_key_request kid rc = None \<longleftrightarrow> uuidRegex kid \<and> rc \<noteq> None"
  by (auto simp: validate_key_request_def first_error_None uuidRegex_def)

definition list_accepted :: "list_message \<Rightarrow> bool" where
  "list_accepted r \<longleftrightarrow> 0 \<le> lq_PageSize r \<and> lq_PageSize r \<le> MaxQueryLimit \<and>
     (lq_PageToken r = '''' \<or> isValidPageToken (lq_PageToken r)) \<and>
     (\<forall>f \<in> set (lq_TagFilters r). filter_ok f) \<and>
     (\<forall>a b. lq_CreatedAfter r = Some a \<longrightarrow> lq_CreatedBefore r = Some b \<longrightarrow> a \<le> b \<and> b \<le> a + 365 * 24 * hour)"

lemma time_range_None:
  "time_range_error a b = None \<longleftrightarrow> (\<forall>x y. a = Some x \<longrightarrow> b = Some y \<longrightarrow> x \<le> y \<and> y \<le> x + 365 * 24 * hour)"
  by (auto simp: time_range_error_def split: option.splits if_splits)

lemma ValidateListKeysRequest_iff: "fst (ValidateListKeysRequest r) = None \<longleftrightarrow> list_accepted r"
  unfolding list_accepted_def filter_loop_None [symmetric] time_range_None [symmetric]
  by (auto simp: ValidateListKeysRequest_def Let_def split: option.splits if_splits)

lemma ValidateListKeysRequest_page:
  assumes "ValidateListKeysRequest r = (None, r')"
  shows "1 \<le> lq_PageSize r' \<and> lq_PageSize r' \<le> MaxQueryLimit"
  using assms
  by (auto simp: ValidateListKeysRequest_def Let_def MaxQueryLimit_def DefaultQueryLimit_def
      split: option.splits if_splits)

section \<open>Accepted key identifiers are canonical\<close>

lemma hex_value_is_hex: "is_hex c \<longleftrightarrow> (\<exists>d < 16. hex_value c = Some d \<and> hex_digit d = c)"
proof
  assume "is_hex c"
  then show "\<exists>d<16. hex_value c = Some d \<and> hex_digit d = c"
    by (auto simp: is_hex_def is_digit_def in_range_def hex_value_def hex_digit_def Let_def)
next
  assume "\<exists>d<16. hex_value c = Some d \<and> hex_digit d = c"
  then show "is_hex c"
    by (auto simp: is_hex_def is_digit_def in_range_def hex_value_def Let_def split: if_splits)
qed

lemma those_is_hex:
  "list_all is_hex h \<Longrightarrow> \<exists>ds. those (map hex_value h) = Some ds \<and> map hex_digit ds = h \<and> (\<forall>d \<in> set ds. d < 16)"
  by (induction h) (fastforce simp: hex_value_is_hex)+

lemma hex_number_snoc: "hex_number (ds @ [d]) = 16 * hex_number ds + d"
  by (simp add: hex_number_def)

lemma hex_digits_hex_number:
  "(\<And>d. d \<in> set ds \<Longrightarrow> d < 16) \<Longrightarrow> hex_digits (length ds) (hex_number ds) = ds"
  by (induction ds rule: rev_induct) (auto simp: hex_number_snoc)

lemma hex_number_bound: "(\<And>d. d \<in> set ds \<Longrightarrow> d < 16) \<Longrightarrow> hex_number ds < 16 ^ length ds"
proof (induction ds rule: rev_induct)
  case (snoc d ds)
  then have "hex_number ds < 16 ^ length ds" "d < 16" by simp_all
  then have "hex_number ds + 1 \<le> 16 ^ length ds" by simp
  then have "16 * (hex_number ds + 1) \<le> 16 * 16 ^ length ds" by simp
  then show ?case using \<open>d < 16\<close> by (simp add: hex_number_snoc)
qed (simp add: hex_number_def)

lemma dashed_undashed:
  assumes "length s = 36" "s ! 8 = CHR ''-''" "s ! 13 = CHR ''-''" "s ! 18 = CHR ''-''" "s ! 23 = CHR ''-''"
  shows "dashed (undashed s) = s" "length (undashed s) = 32"
proof -
  have split: "s = take 8 s @ s ! 8 # drop 9 s" "drop 9 s = take 4 (drop 9 s) @ s ! 13 # drop 14 s"
    "drop 14 s = take 4 (drop 14 s) @ s ! 18 # drop 19 s" "drop 19 s = take 4 (drop 19 s) @ s ! 23 # drop 24 s"
    using assms(1) id_take_nth_drop [of 8 s] id_take_nth_drop [of 4 "drop 9 s"]
      id_take_nth_drop [of 4 "drop 14 s"] id_take_nth_drop [of 4 "drop 19 s"]
    by (simp_all add: drop_drop)
  show "length (undashed s) = 32" using assms(1) by (simp add: undashed_def)
  have "dashed (undashed s) = take 8 s @ ''-'' @ take 4 (drop 9 s) @ ''-'' @ take 4 (drop 14 s) @ ''-''
      @ take 4 (drop 19 s) @ ''-'' @ drop 24 s"
    using assms(1) by (simp add: dashed_def undashed_def)
  also have "\<dots> = s" using split assms(2-) by (metis append_Cons append_Nil)
  finally show "dashed (undashed s) = s" .
qed

lemma uuidRegex_nth: "uuidRegex s \<Longrightarrow> i < 36 \<Longrightarrow>
  (if i \<in> {8, 13, 18, 23} then s ! i = CHR ''-'' else is_hex (s ! i))"
  by (auto simp: uuidRegex_def list_all_length nth_enumerate_eq)

lemma uuidRegex_undashed:
  assumes "uuidRegex s" shows "list_all is_hex (undashed s)"
proof -
  have len: "length s = 36" using assms by (simp add: uuidRegex_def)
  have part: "list_all is_hex (take n (drop k s))"
    if "\<And>i. i < n \<Longrightarrow> k + i < 36 \<and> k + i \<notin> {8, 13, 18, 23}" for n k
    using that uuidRegex_nth [OF assms] len by (fastforce simp: list_all_length)
  have "drop 24 s = take 12 (drop 24 s)" using len by simp
  then show ?thesis
    using part [of 8 0] part [of 4 9] part [of 4 14] part [of 4 19] part [of 12 24]
    by (auto simp: undashed_def)
qed

lemma uuidRegex_parses:
  assumes "uuidRegex s"
  shows "\<exists>i. KeyIDFromString canonical_uuid_lib s = Inr i \<and> KeyID_String canonical_uuid_lib i = s"
proof -
  have len: "length s = 36" using assms by (simp add: uuidRegex_def)
  have d: "dashed (undashed s) = s" "length (undashed s) = 32"
    using dashed_undashed [OF len] uuidRegex_nth [OF assms, of 8] uuidRegex_nth [OF assms, of 13]
      uuidRegex_nth [OF assms, of 18] uuidRegex_nth [OF assms, of 23] by simp_all
  from those_is_hex [OF uuidRegex_undashed [OF assms]] obtain ds where
    ds: "those (map hex_value (undashed s)) = Some ds" "map hex_digit ds = undashed s" "\<forall>d \<in> set ds. d < 16" by blast
  have l: "length ds = 32" using ds(2) d(2) by (metis length_map)
  have "hex_number ds < 2 ^ 128" using hex_number_bound [of ds] ds(3) l by simp
  then have "unat (of_nat (hex_number ds) :: uuid) = hex_number ds" by (simp add: unat_of_nat)
  then have "hex_digits 32 (unat (of_nat (hex_number ds) :: uuid)) = ds"
    using hex_digits_hex_number [of ds] ds(3) l by simp
  then show ?thesis using len d ds
    by (simp add: KeyIDFromString_def canonical_uuid_lib_def KeyID_String_def)
qed

section \<open>The status of a refusal\<close>

definition no_sentinel :: "go_error \<Rightarrow> bool" where
  "no_sentinel e \<longleftrightarrow> (\<forall>t. \<not> errors_is e t)"

text \<open>The JSON library knows nothing of the program's sentinels.\<close>

definition json_plain :: "json_lib \<Rightarrow> bool" where
  "json_plain J \<longleftrightarrow> (\<forall>m e. json_Marshal_size J m = Inl e \<longrightarrow> no_sentinel e) \<and>
     (\<forall>s e. json_Unmarshal J s = Some e \<longrightarrow> no_sentinel e)"

lemma no_sentinel_simps [simp]: "no_sentinel (Plain s)" "no_sentinel (wrapf l e) = no_sentinel e"
  by (simp_all add: no_sentinel_def)

definition plain_result :: "go_error option \<Rightarrow> bool" where
  "plain_result r \<longleftrightarrow> (\<forall>e. r = Some e \<longrightarrow> no_sentinel e)"

lemma plain_result_simps [simp]: "plain_result None" "plain_result (Some e) = no_sentinel e"
  by (simp_all add: plain_result_def)

lemma tag_loop_plain: "plain_result (tag_loop ts)"
  by (induction ts rule: tag_loop.induct) simp_all

lemma context_loop_plain: "plain_result (context_loop seen cs)"
  by (induction seen cs rule: context_loop.induct) simp_all

lemma filter_loop_plain: "plain_result (filter_loop fs)"
  by (induction fs rule: filter_loop.induct) simp_all

lemma policy_loop_plain: "json_plain J \<Longrightarrow> plain_result (policy_loop J ps)"
  by (induction J ps rule: policy_loop.induct) (auto simp: json_plain_def split: option.splits)

lemma first_error_plain: "list_all (\<lambda>r. plain_result (snd r)) rs \<Longrightarrow> plain_result (first_error rs)"
  by (induction rs rule: first_error.induct) (auto split: option.splits)

declare first_error.simps [simp del]

lemma checks_plain [simp]:
  "plain_result (snd (reject_if b msg))" "plain_result (snd (description_too_long d))"
  "plain_result (validateTags ts)" "plain_result (validateAuthorizedContexts cs)"
  "plain_result (validateDataClassification c)"
  by (simp_all add: reject_if_def description_too_long_def validateTags_def validateAuthorizedContexts_def
      validateDataClassification_def tag_loop_plain context_loop_plain)

lemma json_checks_plain:
  assumes "json_plain J"
  shows "plain_result (validateRequestSize J m)" "plain_result (validateAccessPolicies J ps)"
  using assms policy_loop_plain [OF assms]
  by (auto simp: validateRequestSize_def validateAccessPolicies_def json_plain_def split: sum.splits)

lemma validate_message_plain:
  assumes J: "json_plain J"
  shows "plain_result (fst (validate_message J m))"
proof (cases m)
  case (ListKeysRequest r)
  then show ?thesis using filter_loop_plain [of "lq_TagFilters r"]
    by (auto simp: validate_message_def ValidateListKeysRequest_def Let_def time_range_error_def
        split: option.splits if_splits)
qed (simp_all add: validate_message_def ValidateCreateKeyRequest_def ValidateUpdateKeyMetadataRequest_def
    ValidateGetKeyRequest_def ValidateRotateKeyRequest_def ValidateRevokeKeyRequest_def
    ValidateGetKeyMetadataRequest_def ValidateAuthenticateRequest_def ValidateRefreshTokenRequest_def
    ValidateRevokeTokenRequest_def validate_key_request_def first_error_plain json_checks_plain [OF J])

text \<open>Every refused request is answered as an internal error of the server.\<close>

lemma refused_as_internal:
  assumes "json_plain J" "validate_message J m = (Some err, m')"
  shows "fst (UnaryValidationInterceptor J None pick meth m pool) =
    Inl (StatusError Internal ''An unexpected internal error occurred'')"
proof -
  have "no_sentinel err" using validate_message_plain [OF assms(1), of m] assms(2) by simp
  then have "fst (sanitizeError pick meth err pool) =
      Some (StatusError Internal ''An unexpected internal error occurred'')"
    by (intro sanitizeError_unclassified) (simp add: no_sentinel_def)
  then show ?thesis using assms(2)
    by (auto simp: UnaryValidationInterceptor_def split: prod.splits option.splits)
qed

lemma interceptor_passes:
  assumes "UnaryValidationInterceptor J None pick meth m pool = (Inr m', pool')"
  shows "validate_message J m = (None, m') \<and> pool' = pool"
  using assms sanitizeError_response [of pick meth _ pool]
  by (auto simp: UnaryValidationInterceptor_def split: prod.splits option.splits)
    (metis fst_conv option.distinct(1))+

end
