(* ===== verification/Liveness.thy ===== *)
theory Liveness
  imports KeyManager
begin

text \<open>
  What a healthy server does: no round trip fails, no deadline fires, the breaker is closed, no
  rotation is in progress elsewhere, and the random source works.  Then the calls succeed, so that the statements of the form ``what a
  successful call returns'' are not vacuous.
\<close>

definition healthy :: "world \<Rightarrow> bool" where
  "healthy w \<longleftrightarrow> w_net w = [] \<and> w_races w = [] \<and> w_locks w = [] \<and> b_state (w_brk w) = StateClosed"

text \<open>The state of the environment that \<open>healthy\<close> speaks of is the same.\<close>

definition same_health :: "world \<Rightarrow> world \<Rightarrow> bool" where
  "same_health w w' \<longleftrightarrow> w_net w' = w_net w \<and> w_races w' = w_races w \<and> w_locks w' = w_locks w \<and>
     w_brk w' = w_brk w"

lemma same_health_healthy: "same_health w w' \<Longrightarrow> healthy w' = healthy w"
  by (simp add: same_health_def healthy_def)

section \<open>The repository\<close>

lemma breaker_live:
  assumes "healthy w" "fn w = (Inr x, v)" "same_health w v"
  shows "\<exists>w'. through_breaker fn w = (Inr x, w') \<and> healthy w' \<and> w' = v\<lparr>w_brk := w_brk w'\<rparr>"
proof -
  have p: "popped w = w" "race_head w = FnFirst" using assms(1) by (simp_all add: popped_def race_head_def healthy_def)
  have "canExecute (w_now w) (w_brk w) = (True, w_brk w)" using assms(1) by (simp add: canExecute_def healthy_def)
  then have "through_breaker fn w = (Inr x, v\<lparr>w_brk := recordResult (w_now w) None (w_brk w)\<rparr>)"
    using through_breaker_eq [of fn w "Inr x" v True "w_brk w"] p assms(2) by simp
  then show ?thesis using assms by (simp add: healthy_def same_health_def recordResult_def)
qed

lemma psql_GetKey_live:
  assumes "w_net w = []" "table_ok (w_keys w)" "sql_latest i (w_keys w) = Some r"
  shows "\<exists>p w'. psql_GetKey E i w = (Inr p, w') \<and> same_health w w'"
proof -
  obtain m where "r_metadata r = JMeta m"
    using assms(2,3) by (metis row_okE table_ok_row sql_latest_mem)
  then show ?thesis using assms(1,3)
    by (simp add: psql_GetKey_def query_key_def db_query_Nil one_row_def ScanKeyRow_def unmarshal_pointer_def
        heap_alloc_def same_health_def)
qed

lemma cached_GetKey_live:
  assumes "w_net w = []" "table_ok (w_keys w)" "sql_latest i (w_keys w) = Some r"
  shows "\<exists>p w'. cached_GetKey E (NewPSQLAdapter E) i w = (Inr p, w') \<and> same_health w w'"
  using psql_GetKey_live [OF assms, of E]
  by (auto simp: cached_GetKey_def same_health_def storeInCache_def Let_def split: option.splits)

lemma repo_GetKey_live:
  assumes "healthy w" "table_ok (w_keys w)" "sql_latest i (w_keys w) = Some r"
  shows "\<exists>p w'. repo_GetKey (initKeyRepository E True) i w = (Inr p, w') \<and> healthy w'"
proof -
  obtain p v where v: "cached_GetKey E (NewPSQLAdapter E) i w = (Inr p, v)" "same_health w v"
    using cached_GetKey_live [OF _ assms(2,3), of E] assms(1) by (auto simp: healthy_def)
  then show ?thesis using breaker_live [OF assms(1), of "cached_GetKey E (NewPSQLAdapter E) i"]
    by (auto simp: initKeyRepository_def cb_GetKey_def)
qed

lemma repo_CreateKey_live:
  assumes "healthy w" "table_ok (w_keys w)" "sql_latest (k_ID k) (w_keys w) = None"
    "k_Metadata k \<noteq> None" "k_EncryptedDEK k \<noteq> []"
  shows "\<exists>w'. repo_CreateKey (initKeyRepository E True) (Some k) w = (Inr (), w') \<and> healthy w' \<and>
    w_keys w' = w_keys w @ [key_to_row k]"
proof -
  have "rows_of (k_ID k) (w_keys w) = []" using assms(3) by (simp add: sql_latest_def)
  then have "row_pk (key_to_row k) \<notin> set (map row_pk (w_keys w))"
    by (auto simp: rows_of_def filter_empty_conv row_pk_def key_to_row_def)
  then have "sql_copy [key_to_row k] (w_keys w) = Inr (w_keys w @ [key_to_row k])"
    using assms(2) by (simp add: sql_copy_def table_ok_def)
  then have "psql_CreateKey E (Some k) w = (Inr (), w\<lparr>w_keys := w_keys w @ [key_to_row k]\<rparr>)"
    using assms(1,4,5) by (auto simp: psql_CreateKey_def copy_rows_def db_exec_Nil healthy_def)
  then have "cached_CreateKey E (NewPSQLAdapter E) (Some k) w =
      (Inr (), invalidateCache E (k_ID k) (w\<lparr>w_keys := w_keys w @ [key_to_row k]\<rparr>))"
    by (simp add: cached_CreateKey_def invalidate_on_success_def)
  moreover have inv: "same_health w (invalidateCache E (k_ID k) (w\<lparr>w_keys := w_keys w @ [key_to_row k]\<rparr>))"
    "w_keys (invalidateCache E (k_ID k) (w\<lparr>w_keys := w_keys w @ [key_to_row k]\<rparr>)) = w_keys w @ [key_to_row k]"
    using invalidateCache_frame [of E "k_ID k" "w\<lparr>w_keys := w_keys w @ [key_to_row k]\<rparr>"]
    by (auto simp: same_health_def)
  ultimately obtain w' where
    "through_breaker (cached_CreateKey E (NewPSQLAdapter E) (Some k)) w = (Inr (), w')" "healthy w'"
    "w' = (invalidateCache E (k_ID k) (w\<lparr>w_keys := w_keys w @ [key_to_row k]\<rparr>))\<lparr>w_brk := w_brk w'\<rparr>"
    using breaker_live [OF assms(1) _ inv(1), of "cached_CreateKey E (NewPSQLAdapter E) (Some k)"] by blast
  moreover from this(3) have "w_keys w' = w_keys w @ [key_to_row k]" using inv(2) by (metis world.select_convs(6) world.surjective world.update_convs(12))
  ultimately show ?thesis by (simp add: initKeyRepository_def cb_CreateKey_def)
qed

section \<open>The service\<close>

text \<open>The random source delivers, and the local provider can derive a key for every identifier.\<close>

definition sources_ok :: "env \<Rightarrow> crypto_lib \<Rightarrow> bytes \<Rightarrow> bool" where
  "sources_ok E C mk \<longleftrightarrow> (\<forall>d n. e_rand E d n \<noteq> None) \<and> (\<forall>i. is_ok (derive_for E C mk i))"

lemma local_EncryptDEK_live:
  assumes "kms_inv E C mk A w" "sources_ok E C mk"
  shows "\<exists>c w'. kms_EncryptDEK (LocalKMSProvider E C mk) p k w = (Inr c, w') \<and> c \<noteq> [] \<and> kms_keeps w w'"
proof -
  have inv: "local_inv E C mk w" using assms(1) by (simp add: kms_inv_def)
  have env: "env_ok E" "dkc_ok E C mk w" "crypto_ok C" using inv by (simp_all add: local_inv_def)
  have "is_ok (derive_for E C mk (k_ID k))" using assms(2) by (simp add: sources_ok_def)
  then obtain d where d: "derived E C mk (k_ID k) = Inr d" by (cases "derive_for E C mk (k_ID k)") (simp_all add: derived_def)
  obtain w1 where g: "getDerivedKey E C mk k w = (Inr d, w1)"
    using getDerivedKey_ok(1) [OF env(1,2), of k] d by (cases "getDerivedKey E C mk k w") simp
  have len: "length d = 32" by (rule derived_length [OF env(3) d])
  have "e_rand E (w_draws w1) gcm_NonceSize \<noteq> None" using assms(2) by (simp add: sources_ok_def)
  then obtain b where b: "e_rand E (w_draws w1) gcm_NonceSize = Some b" by blast
  then have "length b = gcm_NonceSize" using env(1) unfolding env_ok_def by blast
  then have "b \<noteq> []" by (auto simp: gcm_NonceSize_def)
  then have e: "\<exists>c w'. kms_EncryptDEK (LocalKMSProvider E C mk) p k w = (Inr c, w') \<and> c \<noteq> []"
    using g len b by (simp add: LocalKMSProvider_def local_EncryptDEK_def WithTimeout_def encryptWithKey_def
        cipher_error_def aes_key_size_def rand_Read_def next_draw_def)
  then show ?thesis using local_kms.enc_frame [OF assms(1)] by blast
qed

lemma kms_keeps_health:
  assumes "kms_keeps w w'"
  shows "same_health w w'" "w_keys w' = w_keys w" "w_now w' = w_now w"
  unfolding same_health_def by (subst assms [unfolded kms_keeps_def], simp)+

text \<open>The ciphertext of \<open>k\<close> is an encryption of \<open>dek\<close> for its identifier by the local provider.\<close>

definition local_dek :: "env \<Rightarrow> crypto_lib \<Rightarrow> bytes \<Rightarrow> aws_lib \<Rightarrow> key_id \<Rightarrow> bytes \<Rightarrow> bool" where
  "local_dek E C mk A i c \<longleftrightarrow> (\<exists>dek k v v'. kms_inv E C mk A v \<and> k_ID k = i \<and>
     kms_EncryptDEK (LocalKMSProvider E C mk) dek k v = (Inr c, v'))"

lemma local_DecryptDEK_live:
  assumes "kms_inv E C mk A w" "local_dek E C mk A (k_ID k) (k_EncryptedDEK k)"
  shows "\<exists>dek w'. kms_DecryptDEK (LocalKMSProvider E C mk) k w = (Inr dek, w') \<and> kms_keeps w w'"
proof -
  obtain dek k0 v v' where e: "kms_inv E C mk A v" "k_ID k0 = k_ID k"
    "kms_EncryptDEK (LocalKMSProvider E C mk) dek k0 v = (Inr (k_EncryptedDEK k), v')"
    using assms(2) by (auto simp: local_dek_def)
  have "fst (local_DecryptDEK E C mk k w) = Inr dek"
    by (rule local_roundtrip [of E C mk v dek k0 "k_EncryptedDEK k" v' w k])
      (use e assms(1) in \<open>simp_all add: kms_inv_def LocalKMSProvider_def\<close>)
  then obtain w' where "kms_DecryptDEK (LocalKMSProvider E C mk) k w = (Inr dek, w')"
    by (cases "local_DecryptDEK E C mk k w") (simp add: LocalKMSProvider_def)
  then show ?thesis using local_kms.dec_frame [OF assms(1)] by blast
qed

lemma getKMSProvider_local:
  "prof \<noteq> STORAGE_PROFILE_HARDENED \<Longrightarrow>
   getKMSProvider (polykey_service E C A names mk True a arn ''local'') prof = Inr (LocalKMSProvider E C mk)"
  by (simp add: getKMSProvider_def polykey_service_def NewKeyService_def provider_map_def)

lemma polykey_service_sel [simp]:
  "s_env (polykey_service E C A names mk l a arn d) = E"
  "s_crypto (polykey_service E C A names mk l a arn d) = C"
  "s_typeName (polykey_service E C A names mk l a arn d) = names"
  "s_keyRepo (polykey_service E C A names mk l a arn d) = initKeyRepository E True"
  "dekPools (polykey_service E C A names mk l a arn d) = [KEY_TYPE_AES_256]"
  by (simp_all add: polykey_service_def NewKeyService_def dekPools_def GetCryptoDetails_def)

lemma createKeyObject_live:
  assumes inv: "kms_inv E C mk A w" and src: "sources_ok E C mk"
    and item: "NewDescription (ci_Description item) = Inr desc" "ci_KeyType item = KEY_TYPE_AES_256"
    and prof: "prof \<noteq> STORAGE_PROFILE_HARDENED"
  shows "\<exists>k w'. createKeyObject (polykey_service E C A names mk True a arn ''local'') item client prof w = (Inr k, w') \<and>
    same_health w w' \<and> w_keys w' = w_keys w \<and> k_ID k = KeyID (e_newUUID E (Suc (Suc (w_draws w)))) \<and>
    k_EncryptedDEK k \<noteq> [] \<and> local_dek E C mk A (k_ID k) (k_EncryptedDEK k) \<and>
    (\<exists>m. k_Metadata k = Some m \<and> m_KeyType m = KEY_TYPE_AES_256 \<and> m_StorageType m = prof) \<and> k_Status k = KeyStatusActive \<and> k_Version k = 1"
proof -
  obtain b pl where b: "SecureDEKPool_Get (e_pick E (w_draws w)) (w_deks w) = (b, pl)" by fastforce
  have "e_rand E (Suc (w_draws w)) (length b) \<noteq> None" using src by (simp add: sources_ok_def)
  then obtain dek where dek: "e_rand E (Suc (w_draws w)) (length b) = Some dek" by blast
  let ?i = "KeyID (e_newUUID E (Suc (Suc (w_draws w))))"
  let ?w = "w\<lparr>w_deks := pl, w_draws := Suc (Suc (Suc (w_draws w)))\<rparr>"
  let ?k = "new_key (e_uuid E) ?i (w_now w) client desc prof item"
  have "kms_inv E C mk A ?w" using inv polykey.kinv_local by simp
  from local_EncryptDEK_live [OF this src, of dek ?k] obtain c w3 where
    c: "kms_EncryptDEK (LocalKMSProvider E C mk) dek ?k ?w = (Inr c, w3)" "c \<noteq> []" "kms_keeps ?w w3" by blast
  have k: "createKeyObject (polykey_service E C A names mk True a arn ''local'') item client prof w =
      (Inr (?k\<lparr>k_EncryptedDEK := c\<rparr>), dek_Put dek w3)"
    using item c(1) prof
    by (simp add: createKeyObject_def with_new_dek_def dek_Get_def next_draw_def b dek rand_Read_def
        encrypt_new_key_def NewKeyID_def getKMSProvider_local Let_def)
  have "local_dek E C mk A ?i c"
    unfolding local_dek_def using \<open>kms_inv E C mk A ?w\<close> c(1) by (force simp: new_key_def)
  moreover have "same_health w (dek_Put dek w3)" "w_keys (dek_Put dek w3) = w_keys w"
    using kms_keeps_health [OF c(3)] by (simp_all add: same_health_def dek_Put_def)
  ultimately show ?thesis using k c(2) item(2) by (simp add: new_key_def)
qed

text \<open>A request that passes the checks of the service, in a tier served by the local provider.\<close>

definition creatable :: "create_request \<Rightarrow> bool" where
  "creatable rq \<longleftrightarrow> \<not> invalid_requester (cq_RequesterContext rq) \<and> ci_KeyType rq = KEY_TYPE_AES_256 \<and>
     is_ok (NewDescription (ci_Description rq)) \<and>
     tier_profile (cq_RequesterContext rq) \<noteq> STORAGE_PROFILE_HARDENED"

lemma truncate_sel [simp]:
  "ci_Description (create_item.truncate rq) = ci_Description rq" "ci_KeyType (create_item.truncate rq) = ci_KeyType rq"
  by (simp_all add: create_item.truncate_def)

lemma CreateKey_live:
  assumes w: "repo_inv E w" "kms_inv E C mk A w" "healthy w" and src: "sources_ok E C mk" and rq: "creatable rq"
    and fresh: "sql_latest (KeyID (e_newUUID E (Suc (Suc (w_draws w))))) (w_keys w) = None"
  shows "\<exists>resp k w'. CreateKey (polykey_service E C A names mk True a arn ''local'') (Some rq) w = (Inr resp, w') \<and>
    healthy w' \<and> w_keys w' = w_keys w @ [key_to_row k] \<and> cr_KeyId resp = KeyID_String (e_uuid E) (k_ID k) \<and>
    k_ID k = KeyID (e_newUUID E (Suc (Suc (w_draws w)))) \<and>
    sql_latest (k_ID k) (w_keys w) = None \<and> local_dek E C mk A (k_ID k) (k_EncryptedDEK k) \<and>
    (\<exists>m. k_Metadata k = Some m \<and> m_KeyType m = KEY_TYPE_AES_256 \<and>
       m_StorageType m = tier_profile (cq_RequesterContext rq)) \<and> k_Status k = KeyStatusActive \<and> k_Version k = 1"
proof -
  let ?S = "polykey_service E C A names mk True a arn ''local''"
  obtain desc where d: "NewDescription (ci_Description rq) = Inr desc" using rq by (auto simp: creatable_def elim: is_okE)
  obtain k w1 where k: "createKeyObject ?S (create_item.truncate rq) (GetClientIdentity (cq_RequesterContext rq))
      (tier_profile (cq_RequesterContext rq)) w = (Inr k, w1)"
    "same_health w w1" "w_keys w1 = w_keys w" "k_ID k = KeyID (e_newUUID E (Suc (Suc (w_draws w))))"
    "k_EncryptedDEK k \<noteq> []" "local_dek E C mk A (k_ID k) (k_EncryptedDEK k)"
    "\<exists>m. k_Metadata k = Some m \<and> m_KeyType m = KEY_TYPE_AES_256 \<and> m_StorageType m = tier_profile (cq_RequesterContext rq)"
    "k_Status k = KeyStatusActive" "k_Version k = 1"
    using createKeyObject_live [OF w(2) src, of "create_item.truncate rq" desc "tier_profile (cq_RequesterContext rq)" names a arn
        "GetClientIdentity (cq_RequesterContext rq)"] rq d by (auto simp: creatable_def)
  have "table_ok (w_keys w1)" using prod.breaker.inv_table w(1) k(3) unfolding repo_inv_def by simp
  from repo_CreateKey_live [of w1 k E] this obtain w2 where
    c: "repo_CreateKey (initKeyRepository E True) (Some k) w1 = (Inr (), w2)" "healthy w2"
      "w_keys w2 = w_keys w1 @ [key_to_row k]"
    using k fresh w(3) same_health_healthy by fastforce
  have "CreateKey ?S (Some rq) w = (Inr (create_reply ?S k ''AES-256-GCM'' (w_now w2)), w2)"
    using rq k(1) c(1) by (simp add: CreateKey_def creatable_def GetCryptoDetails_def)
  then show ?thesis using c(2,3) k fresh
    by (intro exI [of _ "create_reply ?S k ''AES-256-GCM'' (w_now w2)"] exI [of _ k] exI [of _ w2])
      (simp add: create_reply_def)
qed

interpretation keyRepo: key_repository "initKeyRepository E True" "repo_inv E" for E
  using prod.breaker.key_repository_axioms by (simp add: repo_inv_def initKeyRepository_def)

lemma GetKey_live:
  assumes w: "service_inv (repo_inv E) (kms_inv E C mk A) w" "healthy w"
    and rq: "KeyIDFromString (e_uuid E) (gq_KeyId rq) = Inr i" "gq_Version rq \<le> 0"
    and r: "sql_latest i (w_keys w) = Some r" "r_status r \<noteq> KeyStatusRevoked" "r_metadata r = JMeta m"
    and m: "m_KeyType m = KEY_TYPE_AES_256" "m_StorageType m \<noteq> STORAGE_PROFILE_HARDENED"
    and dek: "local_dek E C mk A i (r_encrypted_dek r)"
  shows "\<exists>resp w'. GetKey (polykey_service E C A names mk True a arn ''local'') (Some rq) w = (Inr resp, w') \<and> healthy w'"
proof -
  have inv: "repo_inv E w" "kms_inv E C mk A w" using w(1) by (simp_all add: service_inv_def)
  have t: "table_ok (w_keys w)" by (rule keyRepo.inv_table [OF inv(1)])
  obtain p w1 where g: "repo_GetKey (initKeyRepository E True) i w = (Inr p, w1)" "healthy w1"
    using repo_GetKey_live [OF w(2) t r(1)] by blast
  from keyRepo.get_reads [OF inv(1) g(1)] r(1) have k: "row_key r = Some (deref w1 p)" by auto
  have md: "k_Metadata (deref w1 p) = Some m" by (rule row_key_metadata [OF k r(3)])
  have id: "k_ID (deref w1 p) = i" using row_key_fields [OF k] sql_latest_mem [OF r(1)] by simp
  have kinv: "kms_inv E C mk A w1"
    using keyRepo.get_frame [OF inv(1) g(1)] polykey.kinv_local [OF inv(2)] by (simp add: keeps_def)
  obtain q w2 where d: "kms_DecryptDEK (LocalKMSProvider E C mk) (deref w1 p) w1 = (Inr q, w2)" "kms_keeps w1 w2"
    using local_DecryptDEK_live [OF kinv, of "deref w1 p"] dek id row_key_fields [OF k] by auto
  show ?thesis
    using rq g d row_key_fields [OF k] r(2) md m kms_keeps_health(1) [OF d(2)] same_health_healthy
    by (simp add: GetKey_def getKeyByRequest_def key_response_def getKMSProvider_local GetCryptoDetails_def
        AuditLog_def healthy_def same_health_def)
qed

text \<open>A key that a healthy server creates can be read back at once, and is the one created.\<close>

lemma create_get_live:
  assumes w: "service_inv (repo_inv E) (kms_inv E C mk A) w" "healthy w"
    and src: "sources_ok E C mk" and rq: "creatable rq"
    and fresh: "sql_latest (KeyID (e_newUUID E (Suc (Suc (w_draws w))))) (w_keys w) = None"
    and S: "S = polykey_service E C A names mk True a arn ''local''"
  shows "\<exists>resp w1 gresp w2. CreateKey S (Some rq) w = (Inr resp, w1) \<and>
    GetKey S (Some \<lparr>gq_KeyId = cr_KeyId resp, gq_Version = 0, gq_SkipMetadata = False,
      gq_RequesterContext = rc\<rparr>) w1 = (Inr gresp, w2) \<and>
    Some (km_EncryptedKeyData (gr_KeyMaterial gresp)) = map_option km_EncryptedKeyData (cr_KeyMaterial resp) \<and>
    gr_Metadata gresp = cr_Metadata resp"
proof -
  have inv: "repo_inv E w" "kms_inv E C mk A w" using w(1) by (simp_all add: service_inv_def)
  have L: "uuid_lib_ok (e_uuid E)" using inv(2) by (simp add: kms_inv_def local_inv_def env_ok_def)
  obtain resp k w1 m where c: "CreateKey S (Some rq) w = (Inr resp, w1)" "healthy w1"
    "w_keys w1 = w_keys w @ [key_to_row k]" "cr_KeyId resp = KeyID_String (e_uuid E) (k_ID k)"
    "sql_latest (k_ID k) (w_keys w) = None" "local_dek E C mk A (k_ID k) (k_EncryptedDEK k)"
    "k_Metadata k = Some m" "m_KeyType m = KEY_TYPE_AES_256" "k_Status k = KeyStatusActive"
    "m_StorageType m = tier_profile (cq_RequesterContext rq)"
    using CreateKey_live [OF inv w(2) src rq fresh, of names a arn] unfolding S by blast
  have w1: "service_inv (repo_inv E) (kms_inv E C mk A) w1"
    using polykey.CreateKey_ok(1) [OF w(1)] c(1) unfolding S by blast
  let ?g = "\<lparr>gq_KeyId = cr_KeyId resp, gq_Version = 0, gq_SkipMetadata = False, gq_RequesterContext = rc\<rparr>"
  have id: "KeyIDFromString (e_uuid E) (cr_KeyId resp) = Inr (k_ID k)" using c(4) KeyID_roundtrip [OF L] by simp
  have row: "sql_latest (k_ID k) (w_keys w1) = Some (key_to_row k)"
    using sql_append_fresh c(3,5) by (simp add: key_to_row_def)
  obtain gresp w2 where g: "GetKey S (Some ?g) w1 = (Inr gresp, w2)"
    using GetKey_live [OF w1 c(2), of ?g "k_ID k" "key_to_row k" m names a arn] id row c rq unfolding S
    by (auto simp: key_to_row_def marshal_metadata_def creatable_def status_distinct)
  show ?thesis
    using polykey.create_then_get(1,2) [OF w(1) c(1) [unfolded S] _ c(5) w1 refl g [unfolded S]] id c(1) g
    unfolding S by fastforce
qed

section \<open>Revocation and rotation\<close>

lemma rotate_effect_active:
  assumes "table_ok t" "rotate_effect dbnow i dek t = Some (t', new)"
  shows "sql_latest i t' = Some new \<and> r_status new = KeyStatusActive"
proof -
  have r: "sql_rotate KeyStatusRotated i dek KeyStatusActive dbnow t = Inr (t', Some new)"
    using assms(2) by (auto simp: rotate_effect_def split: sum.splits prod.splits option.splits)
  then show ?thesis using sql_rotate_latest(1) [OF assms(1) r]
    by (cases rule: sql_rotate_cases [OF assms(1) r]) (auto simp: rotated_row_def)
qed

lemma rotate_effect_metadata:
  assumes "table_ok t" "rotate_effect dbnow i dek t = Some (t', new)" "sql_latest i t = Some old" "r_metadata old = JMeta m"
  shows "r_metadata new = JMeta (m\<lparr>m_Version := r_version old + 1\<rparr>)"
proof -
  have r: "sql_rotate KeyStatusRotated i dek KeyStatusActive dbnow t = Inr (t', Some new)"
    using assms(2) by (auto simp: rotate_effect_def split: sum.splits prod.splits option.splits)
  then show ?thesis using assms(3,4)
    by (cases rule: sql_rotate_cases [OF assms(1) r]) (auto simp: rotated_row_def)
qed

lemma rotate_effect_dek:
  assumes "table_ok t" "rotate_effect dbnow i dek t = Some (t', new)"
  shows "r_encrypted_dek new = dek"
proof -
  have r: "sql_rotate KeyStatusRotated i dek KeyStatusActive dbnow t = Inr (t', Some new)"
    using assms(2) by (auto simp: rotate_effect_def split: sum.splits prod.splits option.splits)
  then show ?thesis by (cases rule: sql_rotate_cases [OF assms(1) r]) (auto simp: rotated_row_def)
qed

lemma invalidated_health:
  assumes "r = (Inr x, v)" "same_health w v"
  shows "\<exists>v'. invalidate_on_success E [i] r = (Inr x, v') \<and> same_health w v'"
  using invalidateCache_frame [of E i v] assms by (auto simp: invalidate_on_success_def same_health_def)

lemma repo_RevokeKey_live:
  assumes "healthy w" "sql_latest i (w_keys w) \<noteq> None"
  shows "\<exists>w'. repo_RevokeKey (initKeyRepository E True) i w = (Inr (), w') \<and> healthy w'"
proof -
  obtain v where v: "psql_RevokeKey E i w = (Inr (), v)" "same_health w v"
    using assms sql_revoke_count [of KeyStatusRevoked "w_now w" i "w_keys w"]
    by (cases "sql_revoke KeyStatusRevoked (w_now w) i (w_keys w)")
      (auto simp: psql_RevokeKey_def db_exec_Nil healthy_def same_health_def)
  from invalidated_health [OF v, of E i] obtain v' where
    "cached_RevokeKey E (NewPSQLAdapter E) i w = (Inr (), v')" "same_health w v'"
    by (auto simp: cached_RevokeKey_def v(1))
  then show ?thesis using breaker_live [OF assms(1), of "cached_RevokeKey E (NewPSQLAdapter E) i"]
    by (auto simp: initKeyRepository_def cb_RevokeKey_def)
qed

text \<open>A key that is not there: the adapter says so, and the decorators pass it on.\<close>

lemma repo_RevokeKey_missing:
  assumes "healthy w" "sql_latest i (w_keys w) = None"
  shows "\<exists>w'. repo_RevokeKey (initKeyRepository E True) i w = (Inl (Sentinel PgErrKeyNotFound), w')"
proof -
  obtain v where v: "psql_RevokeKey E i w = (Inl (Sentinel PgErrKeyNotFound), v)"
    using assms sql_revoke_count [of KeyStatusRevoked "w_now w" i "w_keys w"]
    by (cases "sql_revoke KeyStatusRevoked (w_now w) i (w_keys w)")
      (auto simp: psql_RevokeKey_def db_exec_Nil healthy_def)
  then have "cached_RevokeKey E (NewPSQLAdapter E) i w = (Inl (Sentinel PgErrKeyNotFound), v)"
    by (simp add: cached_RevokeKey_def invalidate_on_success_def)
  then show ?thesis
    using through_breaker_transparent [of w "cached_RevokeKey E (NewPSQLAdapter E) i"] assms(1)
    by (auto simp: healthy_def initKeyRepository_def cb_RevokeKey_def)
qed

lemma rotateKeyInTx_live:
  assumes "w_net w = []" "uuid_lib_ok (e_uuid E)" "table_ok (w_keys w)" "sql_latest i (w_keys w) = Some old"
    "r_version old < int4_max" "GetLockID (e_uuid E) i \<notin> set (w_locks w)"
  shows "\<exists>k t. rotateKeyInTx E i dek w = (Inr k, w\<lparr>w_keys := t\<rparr>)"
proof -
  obtain m where m: "sql_rotate KeyStatusRotated i dek KeyStatusActive (w_dbnow w) (w_keys w) =
      Inr (map (on_latest (w_keys w) i (\<lambda>r. r\<lparr>r_status := KeyStatusRotated, r_updated_at := timestamptz (w_dbnow w)\<rparr>)) (w_keys w)
             @ [rotated_row old dek KeyStatusActive (w_dbnow w) m], Some (rotated_row old dek KeyStatusActive (w_dbnow w) m))"
    using sql_rotate_success [OF assms(3-5)] by blast
  obtain k where k: "ScanKeyRowWithID (e_uuid E) (rotated_row old dek KeyStatusActive (w_dbnow w) m) = Inr k"
    using KeyID_roundtrip [OF assms(2), of "r_id old"]
    by (simp add: ScanKeyRowWithID_def rotated_row_def unmarshal_pointer_def KeyID_String_def)
  show ?thesis using assms(1,6) m k
    by (auto simp: rotateKeyInTx_def TryAcquireLock_def db_query_Nil db_exec_Nil)
qed

lemma repo_RotateKey_live:
  assumes w: "healthy w" "repo_inv E w" "sql_latest i (w_keys w) = Some old" "r_version old < int4_max"
    and dek: "dek \<noteq> []"
  shows "\<exists>k w'. repo_RotateKey (initKeyRepository E True) i dek w = (Inr k, w') \<and> healthy w'"
proof -
  have net: "w_net w = []" "uuid_lib_ok (e_uuid E)" "table_ok (w_keys w)"
    using w(1) keyRepo.inv_table [OF w(2)] w(2) by (simp_all add: healthy_def repo_inv_def cb_inv_def cached_inv_def)
  obtain k t where f: "rotateKeyInTx E i dek w = (Inr k, w\<lparr>w_keys := t\<rparr>)"
    using rotateKeyInTx_live [OF net w(3,4), of dek] w(1) by (auto simp: healthy_def)
  have n: "maxRetries = Suc (maxRetries - 1)" by (simp add: maxRetries_def)
  have "psql_RotateKey E i dek w = (Inr k, w\<lparr>w_keys := t\<rparr>)"
    using dek f net(1) unfolding psql_RotateKey_def ExecuteInTransaction_def
    by (subst n) (simp add: tx_commit_def Let_def)
  from invalidated_health [OF this, of w E i] obtain v where
    "cached_RotateKey E (NewPSQLAdapter E) i dek w = (Inr k, v)" "same_health w v"
    using \<open>psql_RotateKey E i dek w = _\<close> by (auto simp: cached_RotateKey_def same_health_def)
  then show ?thesis using breaker_live [OF w(1), of "cached_RotateKey E (NewPSQLAdapter E) i dek"]
    by (auto simp: initKeyRepository_def cb_RotateKey_def)
qed

lemma RevokeKey_live:
  assumes "healthy w" "KeyIDFromString (e_uuid E) kid = Inr i" "sql_latest i (w_keys w) \<noteq> None"
  shows "\<exists>w'. RevokeKey (polykey_service E C A names mk l a arn d) (Some kid) w = (Inr (), w') \<and> healthy w'"
  using repo_RevokeKey_live [OF assms(1,3), of E] assms(2) by (auto simp: RevokeKey_def)

lemma rotate_live:
  assumes w: "service_inv (repo_inv E) (kms_inv E C mk A) w" "healthy w" and src: "sources_ok E C mk"
    and r: "sql_latest i (w_keys w) = Some r" "r_version r < int4_max" "r_metadata r = JMeta m"
    and m: "m_KeyType m = KEY_TYPE_AES_256" "m_StorageType m \<noteq> STORAGE_PROFILE_HARDENED"
  shows "\<exists>cur new w'. processRotation (polykey_service E C A names mk True a arn ''local'') i w = (Inr (cur, new), w') \<and>
    healthy w' \<and> local_dek E C mk A i (k_EncryptedDEK new)"
proof -
  have inv: "repo_inv E w" "kms_inv E C mk A w" using w(1) by (simp_all add: service_inv_def)
  obtain p w1 where g: "repo_GetKey (initKeyRepository E True) i w = (Inr p, w1)" "healthy w1"
    using repo_GetKey_live [OF w(2) keyRepo.inv_table [OF inv(1)] r(1)] by blast
  note f = keyRepo.get_frame [OF inv(1) g(1)]
  have k: "row_key r = Some (deref w1 p)" using keyRepo.get_reads [OF inv(1) g(1)] r(1) by auto
  have md: "k_Metadata (deref w1 p) = Some m" by (rule row_key_metadata [OF k r(3)])
  obtain b pl where b: "SecureDEKPool_Get (e_pick E (w_draws w1)) (w_deks w1) = (b, pl)" by fastforce
  have "e_rand E (Suc (w_draws w1)) (length b) \<noteq> None" using src by (simp add: sources_ok_def)
  then obtain dek where dek: "e_rand E (Suc (w_draws w1)) (length b) = Some dek" by blast
  let ?w = "w1\<lparr>w_deks := pl, w_draws := Suc (Suc (w_draws w1))\<rparr>"
  have "kms_inv E C mk A ?w" using f polykey.kinv_local [OF inv(2)] by (simp add: keeps_def)
  from local_EncryptDEK_live [OF this src, of dek "deref w1 p"] obtain c w2 where
    c: "kms_EncryptDEK (LocalKMSProvider E C mk) dek (deref w1 p) ?w = (Inr c, w2)" "c \<noteq> []" "kms_keeps ?w w2" by blast
  have w2: "healthy w2" "w_keys w2 = w_keys w" "svc_local w1 w2"
  proof -
    have "svc_local w1 ?w" by (simp add: svc_local_def)
    then show "svc_local w1 w2" using svc_local_trans kms_keeps_local [OF c(3)] by blast
    show "healthy w2" using same_health_healthy [OF kms_keeps_health(1) [OF c(3)]] g(2) by (simp add: healthy_def)
    show "w_keys w2 = w_keys w" using kms_keeps_health(2) [OF c(3)] f by simp
  qed
  have "repo_inv E w2" using repo_inv_local [OF _ w2(3)] f by blast
  from repo_RotateKey_live [OF w2(1) this, of i r c] obtain new w3 where
    n: "repo_RotateKey (initKeyRepository E True) i c w2 = (Inr new, w3)" "healthy w3"
    using w2 r c(2) by auto
  have id: "k_ID (deref w1 p) = i" using row_key_fields [OF k] sql_latest_mem [OF r(1)] by simp
  have "local_dek E C mk A i c" unfolding local_dek_def using \<open>kms_inv E C mk A ?w\<close> c(1) id by blast
  moreover have "k_EncryptedDEK new = c"
    using keyRepo.rotate_done [OF \<open>repo_inv E w2\<close> n(1)] rotate_effect_dek [OF keyRepo.inv_table [OF \<open>repo_inv E w2\<close>]]
      row_key_fields by blast
  moreover have "healthy (dek_Put dek w3)" using n(2) by (simp add: healthy_def dek_Put_def)
  ultimately show ?thesis using g(1) md m b dek c(1) n(1)
    by (simp add: processRotation_def rotate_dek_def with_new_dek_def dek_Get_def next_draw_def rand_Read_def
        getKMSProvider_local Let_def)
qed

text \<open>A rotated key can be read back at once.\<close>

lemma rotate_get_live:
  assumes w: "service_inv (repo_inv E) (kms_inv E C mk A) w" "healthy w" and src: "sources_ok E C mk"
    and r: "sql_latest i (w_keys w) = Some r" "r_version r < int4_max" "r_metadata r = JMeta m"
    and m: "m_KeyType m = KEY_TYPE_AES_256" "m_StorageType m \<noteq> STORAGE_PROFILE_HARDENED"
    and rq: "KeyIDFromString (e_uuid E) (gq_KeyId rq) = Inr i" "gq_Version rq \<le> 0"
  shows "\<exists>cur new w1 resp w2.
    processRotation (polykey_service E C A names mk True a arn ''local'') i w = (Inr (cur, new), w1) \<and>
    GetKey (polykey_service E C A names mk True a arn ''local'') (Some rq) w1 = (Inr resp, w2)"
proof -
  let ?S = "polykey_service E C A names mk True a arn ''local''"
  obtain cur new w1 where p: "processRotation ?S i w = (Inr (cur, new), w1)" "healthy w1"
    "local_dek E C mk A i (k_EncryptedDEK new)"
    using rotate_live [OF w src r m] by blast
  have w1: "service_inv (repo_inv E) (kms_inv E C mk A) w1" by (rule polykey.processRotation_ok(1) [OF w(1) p(1)])
  obtain c nr where e: "rotate_effect (w_dbnow w) i c (w_keys w) = Some (w_keys w1, nr)" "row_key nr = Some new"
    using polykey.processRotation_ok(2) [OF w(1) p(1) refl] by (auto simp: rotated_to_def)
  have t: "table_ok (w_keys w)" using w(1) by (auto simp: service_inv_def intro: keyRepo.inv_table)
  note nr = rotate_effect_active [OF t e(1)] rotate_effect_metadata [OF t e(1) r(1,3)]
  show ?thesis
    using GetKey_live [OF w1 p(2) rq, of nr "m\<lparr>m_Version := r_version r + 1\<rparr>" names a arn] nr m p
      row_key_fields [OF e(2)] by (auto simp: status_distinct)
qed

section \<open>A statement that ignores the cache\<close>

lemma batch_revocation_stale:
  assumes w: "healthy w" and c: "cache_lookup E i 0 w = Some p" and i: "i \<in> set ids"
  shows "\<exists>w1 w2. repo_RevokeBatchKeys (initKeyRepository E True) ids w = (Inr (), w1) \<and>
    repo_GetKey (initKeyRepository E True) i w1 = (Inr p, w2) \<and> deref w2 p = deref w p \<and>
    (\<forall>r. sql_latest i (w_keys w1) = Some r \<longrightarrow> r_status r = KeyStatusRevoked)"
proof -
  let ?t = "fst (sql_revoke_batch KeyStatusRevoked (w_now w) ids (w_keys w))"
  have "ids \<noteq> []" using i by auto
  then have ps: "cached_RevokeBatchKeys E (NewPSQLAdapter E) ids w = (Inr (), w\<lparr>w_keys := ?t\<rparr>)"
    using w by (cases "sql_revoke_batch KeyStatusRevoked (w_now w) ids (w_keys w)")
      (simp add: cached_RevokeBatchKeys_def psql_RevokeBatchKeys_def db_exec_Nil healthy_def NewPSQLAdapter_def)
  obtain w1 where w1: "through_breaker (cached_RevokeBatchKeys E (NewPSQLAdapter E) ids) w = (Inr (), w1)"
    "healthy w1" "w1 = w\<lparr>w_keys := ?t, w_brk := w_brk w1\<rparr>"
    using breaker_live [OF w, of "cached_RevokeBatchKeys E (NewPSQLAdapter E) ids"] ps by (auto simp: same_health_def)
  have same: "w_now w1 = w_now w" "w_cache w1 = w_cache w" "w_heap w1 = w_heap w" "w_keys w1 = ?t"
    by (subst w1(3), simp)+
  have "cached_GetKey E (NewPSQLAdapter E) i w1 = (Inr p, w1)"
    using c same by (simp add: cached_GetKey_def cache_lookup_def)
  then obtain w2 where
    w2: "through_breaker (cached_GetKey E (NewPSQLAdapter E) i) w1 = (Inr p, w2)" "w2 = w1\<lparr>w_brk := w_brk w2\<rparr>"
    using breaker_live [OF w1(2), of "cached_GetKey E (NewPSQLAdapter E) i"] by (auto simp: same_health_def)
  have "deref w2 p = deref w p" by (subst w2(2)) (simp add: deref_def same)
  moreover have "r_status r = KeyStatusRevoked" if "sql_latest i ?t = Some r" for r
    using sql_latest_mem [OF that] i by (auto simp: sql_revoke_batch_def revoke_row_def)
  moreover have "repo_RevokeBatchKeys (initKeyRepository E True) ids w = (Inr (), w1)"
    "repo_GetKey (initKeyRepository E True) i w1 = (Inr p, w2)"
    using w1(1) w2(1)
    by (simp_all add: initKeyRepository_def cb_GetKey_def NewKeyRepositoryCircuitBreaker_def cb_RevokeBatchKeys_def Let_def)
  ultimately show ?thesis using same(4) by auto
qed

end
