(* ===== verification/Sample.thy ===== *)
theory Sample
  imports Liveness Auth Validation
begin

text \<open>
  A closed instance of the model: concrete libraries that satisfy the laws the development asks of
  the third-party code, a server just started on an empty table, and requests to it.  It shows that
  the hypotheses of the properties can hold, and lets the model run on concrete inputs.
\<close>

definition sample_env :: env where
  "sample_env = \<lparr>e_uuid = canonical_uuid_lib, e_newUUID = (\<lambda>d. of_nat (Suc d)),
     e_rand = (\<lambda>d n. Some (replicate n (of_nat (Suc d)))), e_intn = (\<lambda>d. d), e_pick = (\<lambda>d. Some 0)\<rparr>"

text \<open>A stand-in for authenticated encryption: it names key and nonce, and opens only under them.\<close>

definition sample_crypto :: crypto_lib where
  "sample_crypto = \<lparr>
     gcm_Seal = (\<lambda>k n p. k @ n @ p),
     gcm_Open = (\<lambda>k n c. if take (length k + length n) c = k @ n then Inr (drop (length k + length n) c)
                         else Inl (Plain ''cipher: message authentication failed'')),
     hkdf_Read = (\<lambda>s salt info n. Inr (take n (s @ replicate n 0))),
     sha256_Sum = (\<lambda>b. take 32 (b @ replicate 32 0))\<rparr>"

definition sample_aws :: aws_lib where
  "sample_aws = \<lparr>aws_Encrypt = (\<lambda>n arn p. Inr p), aws_Decrypt = (\<lambda>n arn c. Inr c), aws_ListKeys = (\<lambda>n. Inr ())\<rparr>"

definition sample_world :: world where
  "sample_world = \<lparr>w_now = 0, w_dbnow = 0, w_draws = 0, w_net = [], w_races = [], w_keys = [], w_locks = [],
     w_slept = [], w_heap = [], w_cache = new_key_cache, w_index = Map.empty,
     w_brk = new_repo_breaker 5 (30 * second),
     w_dkc = cache_New [WithDefaultTTL derivedKeyCacheTTL, WithCleanupInterval derivedKeyCacheClean],
     w_deks = NewSecureDEKPool 32, w_audit = []\<rparr>"

definition sample_master :: bytes where "sample_master = replicate 32 7"

definition sample_service :: service where
  "sample_service = polykey_service sample_env sample_crypto sample_aws (\<lambda>_. ''NAME'') sample_master
     True True ''arn'' ''local''"

definition sample_requester :: "requester_context option" where
  "sample_requester = Some \<lparr>rc_ClientIdentity = ''alice'', rc_ClientTier = CLIENT_TIER_FREE\<rparr>"

definition sample_create :: create_request where
  "sample_create = \<lparr>ci_KeyType = KEY_TYPE_AES_256, ci_Description = ''d'', ci_Tags = [], ci_ExpiresAt = None,
     ci_InitialAuthorizedContexts = [''alice''], ci_AccessPolicies = [], ci_DataClassification = '''',
     cq_RequesterContext = sample_requester\<rparr>"

lemma sample_libs_ok:
  "env_ok sample_env" "crypto_ok sample_crypto" "aws_ok sample_aws" "uuid_lib_ok (e_uuid sample_env)"
  by (auto simp: env_ok_def sample_env_def canonical_uuid_lib_ok crypto_ok_def sample_crypto_def
      aws_ok_def sample_aws_def)

lemma sample_inv:
  "service_inv (repo_inv sample_env) (kms_inv sample_env sample_crypto sample_master sample_aws) sample_world"
proof -
  have "repo_inv sample_env sample_world"
    by (rule initial_inv [where n = 5 and d = "30 * second"])
      (simp_all add: sample_libs_ok sample_world_def table_ok_def)
  then show ?thesis
    using sample_libs_ok
    by (simp add: service_inv_def kms_inv_def local_inv_def dkc_ok_def dek_pool_ok_def pool_ok_def
        sample_world_def NewSecureDEKPool_def cache_New_def WithDefaultTTL_def WithCleanupInterval_def)
qed

lemma sample_healthy: "healthy sample_world"
  by (simp add: healthy_def sample_world_def new_repo_breaker_def breaker_New_def WithResetTimeout_def)

lemma sample_sources: "sources_ok sample_env sample_crypto sample_master"
  by (simp add: sources_ok_def sample_env_def derive_for_def DeriveKey_def sample_master_def sample_crypto_def
      string_bytes_def Let_def)

lemma sample_description: "NewDescription ''d'' = Inr (Description ''d'')"
  by code_simp

lemma sample_creatable: "creatable sample_create"
  by (simp add: creatable_def sample_create_def sample_requester_def invalid_requester_def GetClientIdentity_def
      sample_description tier_profile_def GetClientTier_def GetStorageProfileForTier_def TierFree_def
      TierPro_def TierEnterprise_def STORAGE_PROFILE_STANDARD_def STORAGE_PROFILE_HARDENED_def)

lemma sample_fresh: "sql_latest i (w_keys sample_world) = None"
  by (simp add: sample_world_def sql_latest_def rows_of_def)

text \<open>The server after it has created a key.\<close>

definition sample_id :: key_id where "sample_id = KeyID 3"

definition sample_created :: world where
  "sample_created = snd (CreateKey sample_service (Some sample_create) sample_world)"

lemma sample_created_facts:
  "\<exists>resp. CreateKey sample_service (Some sample_create) sample_world = (Inr resp, sample_created) \<and>
     cr_KeyId resp = KeyID_String canonical_uuid_lib sample_id"
  "service_inv (repo_inv sample_env) (kms_inv sample_env sample_crypto sample_master sample_aws) sample_created"
  "healthy sample_created"
  "\<exists>k m. w_keys sample_created = [key_to_row k] \<and> k_ID k = sample_id \<and> k_Metadata k = Some m \<and>
     local_dek sample_env sample_crypto sample_master sample_aws sample_id (k_EncryptedDEK k) \<and>
     m_KeyType m = KEY_TYPE_AES_256 \<and> m_StorageType m \<noteq> STORAGE_PROFILE_HARDENED \<and> k_Status k = KeyStatusActive \<and> k_Version k = 1"
proof -
  have inv: "repo_inv sample_env sample_world" "kms_inv sample_env sample_crypto sample_master sample_aws sample_world"
    using sample_inv by (simp_all add: service_inv_def)
  have draw: "KeyID (e_newUUID sample_env (Suc (Suc (w_draws sample_world)))) = sample_id"
    by (simp add: sample_env_def sample_world_def sample_id_def)
  have keys: "w_keys sample_world = []" by (simp add: sample_world_def)
  have tier: "tier_profile (cq_RequesterContext sample_create) \<noteq> STORAGE_PROFILE_HARDENED"
    using sample_creatable by (simp add: creatable_def)
  obtain resp k w' m where c: "CreateKey sample_service (Some sample_create) sample_world = (Inr resp, w')"
    "healthy w'" "w_keys w' = [key_to_row k]" "cr_KeyId resp = KeyID_String (e_uuid sample_env) (k_ID k)"
    "local_dek sample_env sample_crypto sample_master sample_aws (k_ID k) (k_EncryptedDEK k)"
    "k_Metadata k = Some m" "m_KeyType m = KEY_TYPE_AES_256" "k_Status k = KeyStatusActive \<and> k_Version k = 1"
    "m_StorageType m = tier_profile (cq_RequesterContext sample_create)" "k_ID k = sample_id"
    using CreateKey_live [OF inv sample_healthy sample_sources sample_creatable sample_fresh,
        of "\<lambda>_. ''NAME''" True "''arn''"]
    unfolding draw keys sample_service_def append_Nil by blast
  have w': "sample_created = w'" using c(1) by (simp add: sample_created_def)
  show "service_inv (repo_inv sample_env) (kms_inv sample_env sample_crypto sample_master sample_aws) sample_created"
    using polykey.CreateKey_ok(1) [OF sample_inv] c(1) w' unfolding sample_service_def by blast
  show "healthy sample_created" using c(2) w' by simp
  show "\<exists>resp. CreateKey sample_service (Some sample_create) sample_world = (Inr resp, sample_created) \<and>
     cr_KeyId resp = KeyID_String canonical_uuid_lib sample_id"
    using c(1,4,10) w' by (simp add: sample_env_def)
  show "\<exists>k m. w_keys sample_created = [key_to_row k] \<and> k_ID k = sample_id \<and> k_Metadata k = Some m \<and>
     local_dek sample_env sample_crypto sample_master sample_aws sample_id (k_EncryptedDEK k) \<and>
     m_KeyType m = KEY_TYPE_AES_256 \<and> m_StorageType m \<noteq> STORAGE_PROFILE_HARDENED \<and> k_Status k = KeyStatusActive \<and> k_Version k = 1"
    using c w' tier by auto
qed

lemma sample_row:
  "\<exists>r m. sql_latest sample_id (w_keys sample_created) = Some r \<and> r_version r = 1 \<and> r_status r = KeyStatusActive \<and>
     r_metadata r = JMeta m \<and> m_KeyType m = KEY_TYPE_AES_256 \<and> m_StorageType m \<noteq> STORAGE_PROFILE_HARDENED \<and>
     local_dek sample_env sample_crypto sample_master sample_aws sample_id (r_encrypted_dek r)"
proof -
  obtain k m where k: "w_keys sample_created = [key_to_row k]" "k_ID k = sample_id" "k_Metadata k = Some m"
    "local_dek sample_env sample_crypto sample_master sample_aws sample_id (k_EncryptedDEK k)"
    "m_KeyType m = KEY_TYPE_AES_256" "m_StorageType m \<noteq> STORAGE_PROFILE_HARDENED" "k_Status k = KeyStatusActive \<and> k_Version k = 1"
    "k_Version k = 1"
    using sample_created_facts(4) by blast
  then have "sql_latest sample_id (w_keys sample_created) = Some (key_to_row k)"
    by (simp add: sql_latest_def rows_of_def key_to_row_def)
  then show ?thesis using k by (auto simp: key_to_row_def marshal_metadata_def)
qed

text \<open>The server with a cached key.\<close>

definition sample_cached :: world where
  "sample_cached = sample_created\<lparr>w_now := 0,
     w_cache := cache_Set 0 (getCacheKey sample_env sample_id 0) 0 0 new_key_cache\<rparr>"

lemma sample_cached_facts:
  "healthy sample_cached" "cache_lookup sample_env sample_id 0 sample_cached = Some 0"
  using sample_created_facts(3)
  by (simp_all add: sample_cached_def healthy_def cache_lookup_def cache_Get_Set_same new_key_cache_def cache_New_def
      WithDefaultTTL_def WithCleanupInterval_def defaultCacheTTL_def minute_def second_def)

definition sample_key :: key where
  "sample_key = new_key canonical_uuid_lib sample_id 0 ''alice'' (Description ''d'') STORAGE_PROFILE_STANDARD
     (create_item.truncate sample_create)"

definition sample_rotation_request :: "key_id \<Rightarrow> rotation_request" where
  "sample_rotation_request i = \<lparr>rq_KeyID = i, rq_KMSProvider = LocalKMSProvider sample_env sample_crypto sample_master,
     rq_GracePeriodSeconds = 0, rq_KeyType = 0\<rparr>"

text \<open>The key is rotated and read back.\<close>

lemma sample_rotation:
  "\<exists>cur new w1 resp w2. processRotation sample_service sample_id sample_created = (Inr (cur, new), w1) \<and>
    GetKey sample_service (Some \<lparr>gq_KeyId = KeyID_String canonical_uuid_lib sample_id, gq_Version = 0,
      gq_SkipMetadata = False, gq_RequesterContext = None\<rparr>) w1 = (Inr resp, w2)"
proof -
  let ?g = "\<lparr>gq_KeyId = KeyID_String canonical_uuid_lib sample_id, gq_Version = 0, gq_SkipMetadata = False,
    gq_RequesterContext = None\<rparr>"
  obtain r m where r: "sql_latest sample_id (w_keys sample_created) = Some r" "r_version r < int4_max"
    "r_metadata r = JMeta m" "m_KeyType m = KEY_TYPE_AES_256" "m_StorageType m \<noteq> STORAGE_PROFILE_HARDENED"
    using sample_row by (auto simp: int4_max_def)
  have id: "KeyIDFromString (e_uuid sample_env) (gq_KeyId ?g) = Inr sample_id"
    using KeyID_roundtrip [OF canonical_uuid_lib_ok] by (simp add: sample_env_def)
  show ?thesis unfolding sample_service_def
    using rotate_get_live [OF sample_created_facts(2,3) sample_sources r, of ?g] id by fastforce
qed

end
