(* ===== verification/GrpcService.thy ===== *)
theory GrpcService
  imports Auth Validation
begin

text \<open>
  The gRPC front end, \<^verbatim>\<open>internal/app/grpc/polykey_impl.go\<close> and \<^verbatim>\<open>server.go\<close>: the handlers of the RPCs
  and the chain of interceptors in front of them.  A call runs on the whole state of the server: the
  world below the key service, the policy cache of the authorizer, the pool of error objects, the
  rotation pipeline, the token store of the interceptor and the rate limiters.

  The code generated from the protobuf files dispatches a request by its type; the two RPCs that the
  server does not implement answer with the status of the generated stub.
\<close>

section \<open>The server and its state\<close>

text \<open>
  \<open>v_await\<close> is what happens between the submission of a rotation and the moment its caller goes on:
  the other goroutines run, and the caller takes a result from the channel, or its context ends.
\<close>

record 'l server =
  v_KeyService :: service
  v_clients :: "(string \<times> client) list"
  v_tokenTTL :: time
  v_Authorization :: auth_config
  v_ServiceVersion :: string
  v_BuildCommit :: string
  v_jwt :: jwt_lib
  v_bcrypt :: "string \<Rightarrow> string \<Rightarrow> bool"
  v_json :: json_lib
  v_layout :: time_layout
  v_limits :: "'l rate_lib"
  v_order :: "nat \<Rightarrow> nat list"  \<comment> \<open>the order in which the items of a batch run\<close>
  v_await :: "pipeline \<times> world \<Rightarrow> (go_error + rotation_result) \<times> pipeline \<times> world"

record 'l server_state =
  x_world :: world
  x_policies :: policy_cache
  x_errors :: error_pool
  x_pipeline :: pipeline
  x_tokens :: token_store
  x_limiters :: "string \<rightharpoonup> 'l"

type_synonym ('a, 'l) rpc = "'l server_state \<Rightarrow> (go_error + 'a) \<times> 'l server_state"

abbreviation v_env :: "'l server \<Rightarrow> env" where "v_env V \<equiv> s_env (v_KeyService V)"

definition on_world :: "(world \<Rightarrow> 'a result) \<Rightarrow> ('a, 'l) rpc" where
  "on_world f st = (case f (x_world st) of (r, w) \<Rightarrow> (r, st\<lparr>x_world := w\<rparr>))"

text \<open>
  \<^verbatim>\<open>sanitizeError\<close>.  A panic is not an error value: it leaves the handler as it is.  A nil error
  would be a nil response with no error, \<open>Inr None\<close>.
\<close>

definition fail_with :: "'l server \<Rightarrow> string \<Rightarrow> go_error \<Rightarrow> ('a option, 'l) rpc" where
  "fail_with V methodName err st =
     (case err of
        Panicked p \<Rightarrow> (Inl err, st)
      | _ \<Rightarrow>
          (case sanitizeError (e_pick (v_env V) (w_draws (x_world st))) methodName err (x_errors st) of
             (Some status, pool) \<Rightarrow> (Inl status, st\<lparr>x_errors := pool\<rparr>)
           | (None, pool) \<Rightarrow> (Inr None, st\<lparr>x_errors := pool\<rparr>)))"

definition authorize_call ::
  "'l server \<Rightarrow> call_ctx \<Rightarrow> requester_context option \<Rightarrow> string \<Rightarrow> key_id \<Rightarrow> 'l server_state \<Rightarrow>
   (bool \<times> string) \<times> 'l server_state" where
  "authorize_call V cx rc authOp keyID st =
     (case Authorize (v_env V) (v_Authorization V) (s_keyRepo (v_KeyService V)) (s_typeName (v_KeyService V))
             cx rc authOp keyID (x_policies st, x_world st) of
        (r, pol, w) \<Rightarrow> (r, st\<lparr>x_policies := pol, x_world := w\<rparr>))"

definition run_authorized ::
  "'l server \<Rightarrow> call_ctx \<Rightarrow> string \<Rightarrow> string \<Rightarrow> key_id \<Rightarrow> requester_context option \<Rightarrow>
   ('a, 'l) rpc \<Rightarrow> ('a option, 'l) rpc" where
  "run_authorized V cx methodName authOp keyID rc fn st =
     (case authorize_call V cx rc authOp keyID st of
        ((False, reason), st1) \<Rightarrow>
          fail_with V methodName (wrap_suffix (Sentinel ErrAuthorization) reason) st1
      | ((True, _), st1) \<Rightarrow>
          (case fn st1 of
             (Inl err, st2) \<Rightarrow> fail_with V methodName err st2
           | (Inr resp, st2) \<Rightarrow> (Inr (Some resp), st2)))"

definition execWithAuth ::
  "'l server \<Rightarrow> call_ctx \<Rightarrow> string \<Rightarrow> string \<Rightarrow> string \<Rightarrow> requester_context option \<Rightarrow>
   (key_id \<Rightarrow> ('a, 'l) rpc) \<Rightarrow> ('a option, 'l) rpc" where
  "execWithAuth V cx methodName authOp keyIDStr rc fn st =
     (case KeyIDFromString (e_uuid (v_env V)) keyIDStr of
        Inl err \<Rightarrow> fail_with V methodName err st
      | Inr keyID \<Rightarrow> run_authorized V cx methodName authOp keyID rc (fn keyID) st)"

definition execWithoutKey ::
  "'l server \<Rightarrow> call_ctx \<Rightarrow> string \<Rightarrow> string \<Rightarrow> requester_context option \<Rightarrow> ('a, 'l) rpc \<Rightarrow> ('a option, 'l) rpc" where
  "execWithoutKey V cx methodName authOp rc fn st = run_authorized V cx methodName authOp (KeyID 0) rc fn st"

text \<open>A missing key of a Go map of strings reads as the empty string.\<close>

definition scope_of :: "string \<Rightarrow> string" where
  "scope_of methodName = (case map_of MethodScopes methodName of None \<Rightarrow> '''' | Some s \<Rightarrow> s)"

section \<open>The handlers\<close>

record authenticate_response =
  at_AccessToken :: string
  at_TokenType :: string
  at_ExpiresIn :: int
  at_IssuedAt :: time

record health_response =
  hc_Healthy :: bool
  hc_Timestamp :: time
  hc_ServiceVersion :: string
  hc_BuildCommit :: string
  hc_UptimeSince :: time

definition rpc_Authenticate :: "'l server \<Rightarrow> authenticate_message \<Rightarrow> (authenticate_response option, 'l) rpc" where
  "rpc_Authenticate V req st =
     (if aq_ClientId req = '''' \<or> aq_ApiKey req = ''''
      then (Inl (StatusError InvalidArgument ''client_id and api_key are required''), st)
      else case on_world (AuthService_Authenticate (v_env V) (v_jwt V) (v_bcrypt V) (v_clients V) (v_tokenTTL V)
                   (aq_ClientId req) (aq_ApiKey req)) st of
             (Inl err, st1) \<Rightarrow>
               (Inl (StatusError Unauthenticated (''authentication failed: '' @ error_string err)), st1)
           | (Inr result, st1) \<Rightarrow>
               (Inr (Some \<lparr>at_AccessToken = ar_AccessToken result, at_TokenType = ar_TokenType result,
                  at_ExpiresIn = ar_ExpiresIn result, at_IssuedAt = w_now (x_world st1)\<rparr>), st1))"

definition rpc_GetKey :: "'l server \<Rightarrow> call_ctx \<Rightarrow> get_request \<Rightarrow> (get_response option, 'l) rpc" where
  "rpc_GetKey V cx req = execWithAuth V cx ''GetKey'' (scope_of ''GetKey'') (gq_KeyId req) (gq_RequesterContext req)
     (\<lambda>keyID. on_world (GetKey (v_KeyService V) (Some req)))"

definition rpc_CreateKey :: "'l server \<Rightarrow> call_ctx \<Rightarrow> create_request \<Rightarrow> (create_response option, 'l) rpc" where
  "rpc_CreateKey V cx req = execWithoutKey V cx ''CreateKey'' (scope_of ''CreateKey'') (cq_RequesterContext req)
     (on_world (CreateKey (v_KeyService V) (Some req)))"

definition rpc_BatchCreateKeys ::
  "'l server \<Rightarrow> call_ctx \<Rightarrow> batch_create_request \<Rightarrow> (create_response outcome list option, 'l) rpc" where
  "rpc_BatchCreateKeys V cx req = execWithoutKey V cx ''CreateKey'' (scope_of ''CreateKey'') (bc_RequesterContext req)
     (on_world (BatchCreateKeys (v_KeyService V) (v_order V (length (bc_Keys req))) (Some req)))"

definition rpc_BatchGetKeys ::
  "'l server \<Rightarrow> call_ctx \<Rightarrow> batch_get_request \<Rightarrow> (get_response batch_response option, 'l) rpc" where
  "rpc_BatchGetKeys V cx req = execWithoutKey V cx ''GetKey'' (scope_of ''GetKey'') (bg_RequesterContext req)
     (on_world (BatchGetKeys (v_KeyService V) (v_order V (length (bg_Keys req))) (Some req)))"

definition rpc_BatchGetKeyMetadata ::
  "'l server \<Rightarrow> call_ctx \<Rightarrow> batch_get_request \<Rightarrow> (metadata_response batch_response option, 'l) rpc" where
  "rpc_BatchGetKeyMetadata V cx req = execWithoutKey V cx ''GetKeyMetadata'' (scope_of ''GetKeyMetadata'')
     (bg_RequesterContext req) (on_world (BatchGetKeyMetadata (v_KeyService V) (Some req)))"

definition rpc_BatchRotateKeys ::
  "'l server \<Rightarrow> call_ctx \<Rightarrow> rotate_request batch_request \<Rightarrow> (rotate_response batch_response option, 'l) rpc" where
  "rpc_BatchRotateKeys V cx req = execWithoutKey V cx ''RotateKey'' (scope_of ''RotateKey'') (bq_RequesterContext req)
     (on_world (BatchRotateKeys (v_KeyService V) (v_order V (length (bq_Keys req))) (Some req)))"

definition rpc_BatchRevokeKeys ::
  "'l server \<Rightarrow> call_ctx \<Rightarrow> string batch_request \<Rightarrow> (bool batch_response option, 'l) rpc" where
  "rpc_BatchRevokeKeys V cx req = execWithoutKey V cx ''RevokeKey'' (scope_of ''RevokeKey'') (bq_RequesterContext req)
     (on_world (BatchRevokeKeys (v_KeyService V) (Some req)))"

definition rpc_BatchUpdateKeyMetadata ::
  "'l server \<Rightarrow> call_ctx \<Rightarrow> update_item batch_request \<Rightarrow> (bool batch_response option, 'l) rpc" where
  "rpc_BatchUpdateKeyMetadata V cx req = execWithoutKey V cx ''UpdateKeyMetadata'' (scope_of ''UpdateKeyMetadata'')
     (bq_RequesterContext req) (on_world (BatchUpdateKeyMetadata (v_KeyService V) (Some req)))"

definition rpc_ListKeys :: "'l server \<Rightarrow> call_ctx \<Rightarrow> list_message \<Rightarrow> (list_response option, 'l) rpc" where
  "rpc_ListKeys V cx req = execWithoutKey V cx ''ListKeys'' (scope_of ''ListKeys'') (lq_RequesterContext req)
     (on_world (ListKeys (v_KeyService V) (v_layout V) (Some (list_request.truncate req))))"

text \<open>The call of the key service: submit, wait, answer.\<close>

definition RotateKey_call :: "'l server \<Rightarrow> rotate_message \<Rightarrow> (rotate_response, 'l) rpc" where
  "RotateKey_call V req st =
     (case RotateKey_submit (v_KeyService V) (Some (rotate_request.truncate req)) (x_pipeline st) (x_world st) of
        ((Inl err, w1), pl1) \<Rightarrow> (Inl err, st\<lparr>x_pipeline := pl1, x_world := w1\<rparr>)
      | ((Inr currentKey, w1), pl1) \<Rightarrow>
          (case v_await V (pl1, w1) of
             (Inl err, pl2, w2) \<Rightarrow> (Inl err, st\<lparr>x_pipeline := pl2, x_world := w2\<rparr>)
           | (Inr result, pl2, w2) \<Rightarrow>
               (RotateKey_answer (rotate_request.truncate req) currentKey result (w_now w2),
                st\<lparr>x_pipeline := pl2, x_world := w2\<rparr>)))"

definition rpc_RotateKey :: "'l server \<Rightarrow> call_ctx \<Rightarrow> rotate_message \<Rightarrow> (rotate_response option, 'l) rpc" where
  "rpc_RotateKey V cx req = execWithAuth V cx ''RotateKey'' (scope_of ''RotateKey'') (rt_KeyId req) (rt_RequesterContext req)
     (\<lambda>keyID. RotateKey_call V req)"

definition rpc_RevokeKey :: "'l server \<Rightarrow> call_ctx \<Rightarrow> revoke_message \<Rightarrow> (unit option, 'l) rpc" where
  "rpc_RevokeKey V cx req = execWithAuth V cx ''RevokeKey'' (scope_of ''RevokeKey'') (vq_KeyId req) (vq_RequesterContext req)
     (\<lambda>keyID. on_world (RevokeKey (v_KeyService V) (Some (vq_KeyId req))))"

definition rpc_UpdateKeyMetadata :: "'l server \<Rightarrow> call_ctx \<Rightarrow> update_message \<Rightarrow> (unit option, 'l) rpc" where
  "rpc_UpdateKeyMetadata V cx req = execWithAuth V cx ''UpdateKeyMetadata'' (scope_of ''UpdateKeyMetadata'')
     (ui_KeyId req) (ui_RequesterContext req)
     (\<lambda>keyID. on_world (UpdateKeyMetadata (v_KeyService V) (Some (update_item.truncate req))))"

definition rpc_GetKeyMetadata :: "'l server \<Rightarrow> call_ctx \<Rightarrow> metadata_request \<Rightarrow> (metadata_response option, 'l) rpc" where
  "rpc_GetKeyMetadata V cx req = execWithAuth V cx ''GetKeyMetadata'' (scope_of ''GetKeyMetadata'')
     (mq_KeyId req) (mq_RequesterContext req)
     (\<lambda>keyID. on_world (GetKeyMetadata (v_KeyService V) (Some req)))"

definition rpc_HealthCheck :: "'l server \<Rightarrow> (health_response option, 'l) rpc" where
  "rpc_HealthCheck V st =
     (let now = w_now (x_world st)
      in (Inr (Some \<lparr>hc_Healthy = True, hc_Timestamp = now, hc_ServiceVersion = v_ServiceVersion V,
            hc_BuildCommit = v_BuildCommit V, hc_UptimeSince = now - 24 * 60 * minute\<rparr>), st))"

section \<open>Dispatch and the interceptor chain\<close>

datatype response =
    CreateKeyResponse create_response
  | GetKeyResponse get_response
  | GetKeyMetadataResponse metadata_response
  | ListKeysResponse list_response
  | RotateKeyResponse rotate_response
  | BatchCreateKeysResponse "create_response outcome list"
  | BatchGetKeysResponse "get_response batch_response"
  | BatchGetKeyMetadataResponse "metadata_response batch_response"
  | BatchRotateKeysResponse "rotate_response batch_response"
  | BatchRevokeKeysResponse "bool batch_response"
  | BatchUpdateKeyMetadataResponse "bool batch_response"
  | AuthenticateResponse authenticate_response
  | HealthCheckResponse health_response
  | EmptyResponse

definition reply :: "('a \<Rightarrow> response) \<Rightarrow> ('a option, 'l) rpc \<Rightarrow> (response option, 'l) rpc" where
  "reply C f st = (case f st of (Inl e, st') \<Rightarrow> (Inl e, st') | (Inr r, st') \<Rightarrow> (Inr (map_option C r), st'))"

fun dispatch :: "'l server \<Rightarrow> call_ctx \<Rightarrow> message \<Rightarrow> (response option, 'l) rpc" where
  "dispatch V cx (CreateKeyRequest r) = reply CreateKeyResponse (rpc_CreateKey V cx r)"
| "dispatch V cx (UpdateKeyMetadataRequest r) = reply (\<lambda>_. EmptyResponse) (rpc_UpdateKeyMetadata V cx r)"
| "dispatch V cx (ListKeysRequest r) = reply ListKeysResponse (rpc_ListKeys V cx r)"
| "dispatch V cx (GetKeyRequest r) = reply GetKeyResponse (rpc_GetKey V cx r)"
| "dispatch V cx (RotateKeyRequest r) = reply RotateKeyResponse (rpc_RotateKey V cx r)"
| "dispatch V cx (RevokeKeyRequest r) = reply (\<lambda>_. EmptyResponse) (rpc_RevokeKey V cx r)"
| "dispatch V cx (GetKeyMetadataRequest r) = reply GetKeyMetadataResponse (rpc_GetKeyMetadata V cx r)"
| "dispatch V cx (AuthenticateRequest r) = reply AuthenticateResponse (rpc_Authenticate V r)"
| "dispatch V cx (RefreshTokenRequest t) =
     (\<lambda>st. (Inl (StatusError Unimplemented ''method RefreshToken not implemented''), st))"
| "dispatch V cx (RevokeTokenRequest t c) =
     (\<lambda>st. (Inl (StatusError Unimplemented ''method RevokeToken not implemented''), st))"
| "dispatch V cx (BatchCreateKeysRequest r) = reply BatchCreateKeysResponse (rpc_BatchCreateKeys V cx r)"
| "dispatch V cx (BatchGetKeysRequest r) = reply BatchGetKeysResponse (rpc_BatchGetKeys V cx r)"
| "dispatch V cx (BatchGetKeyMetadataRequest r) = reply BatchGetKeyMetadataResponse (rpc_BatchGetKeyMetadata V cx r)"
| "dispatch V cx (BatchRotateKeysRequest r) = reply BatchRotateKeysResponse (rpc_BatchRotateKeys V cx r)"
| "dispatch V cx (BatchRevokeKeysRequest r) = reply BatchRevokeKeysResponse (rpc_BatchRevokeKeys V cx r)"
| "dispatch V cx (BatchUpdateKeyMetadataRequest r) =
     reply BatchUpdateKeyMetadataResponse (rpc_BatchUpdateKeyMetadata V cx r)"
| "dispatch V cx EmptyRequest = reply HealthCheckResponse (rpc_HealthCheck V)"

text \<open>
  The chain of \<^verbatim>\<open>New\<close>: logging (which passes request and response through), authentication,
  validation, the handler.  The interceptor validates tokens against a store of its own, created in
  \<^verbatim>\<open>New\<close>.
\<close>

definition serve :: "'l server \<Rightarrow> incoming \<Rightarrow> message \<Rightarrow> (response option, 'l) rpc" where
  "serve V inc m st =
     (case AuthenticationInterceptor (v_jwt V) (v_limits V) (w_now (x_world st)) (x_tokens st) inc (x_limiters st) of
        (Inl err, lim) \<Rightarrow> (Inl err, st\<lparr>x_limiters := lim\<rparr>)
      | (Inr cx, lim) \<Rightarrow>
          (case UnaryValidationInterceptor (v_json V) None (e_pick (v_env V) (w_draws (x_world st)))
                  (in_FullMethod inc) m (x_errors st) of
             (Inl err, pool) \<Rightarrow> (Inl err, st\<lparr>x_limiters := lim, x_errors := pool\<rparr>)
           | (Inr m', pool) \<Rightarrow> dispatch V cx m' (st\<lparr>x_limiters := lim, x_errors := pool\<rparr>)))"

definition new_server_state :: "world \<Rightarrow> 'l server_state" where
  "new_server_state w = \<lparr>x_world = w, x_policies = NewPolicyCache, x_errors = [],
     x_pipeline = NewKeyRotationPipeline 5 100, x_tokens = NewInMemoryTokenStore, x_limiters = Map.empty\<rparr>"

section \<open>Errors that reach a client\<close>

text \<open>The statuses the classifier can produce: one per rule, and the one for everything else.\<close>

definition public_statuses :: "go_error list" where
  "public_statuses = StatusError Internal ''An unexpected internal error occurred'' #
     map (\<lambda>(target, cls, msg). StatusError (class_code cls) msg) classificationRules"

lemma response_for_public:
  "case response_for rs matches of (cls, msg) \<Rightarrow> (cls, msg) = (ClassInternal, ''An unexpected internal error occurred'') \<or>
     (\<exists>t. (t, cls, msg) \<in> set rs)"
  by (induction rs matches rule: response_for.induct) auto

lemma sanitized_public:
  "\<exists>status. fst (sanitizeError pick meth err pool) = Some status \<and> status \<in> set public_statuses"
proof -
  obtain cls msg where r: "response_for classificationRules (errors_is err) = (cls, msg)" by fastforce
  have "class_code ClassInternal = Internal" by (simp add: class_code_def grpcCodeMap_def)
  then show ?thesis
    using response_for_public [of classificationRules "errors_is err"] r
    by (force simp: sanitizeError_response public_statuses_def)
qed

lemma fail_with_public:
  assumes "fail_with V meth err st = (res, st')"
  shows "(\<exists>e. res = Inl e \<and> (e \<in> set public_statuses \<or> (\<exists>p. e = Panicked p))) \<and> x_world st' = x_world st"
proof -
  let ?s = "sanitizeError (e_pick (v_env V) (w_draws (x_world st))) meth err (x_errors st)"
  obtain status pool where "?s = (Some status, pool)" "status \<in> set public_statuses"
    using sanitized_public by (metis prod.collapse)
  then show ?thesis using assms by (cases err) (auto simp: fail_with_def)
qed

lemma run_authorized_public:
  assumes "run_authorized V cx meth op i rc fn st = (Inl e, st')"
  shows "e \<in> set public_statuses \<or> (\<exists>p. e = Panicked p)"
  using assms by (auto simp: run_authorized_def dest: fail_with_public split: prod.splits bool.splits sum.splits)

lemma execWithAuth_public:
  assumes "execWithAuth V cx meth op kid rc fn st = (Inl e, st')"
  shows "e \<in> set public_statuses \<or> (\<exists>p. e = Panicked p)"
  using assms by (auto simp: execWithAuth_def dest: run_authorized_public fail_with_public split: sum.splits)

lemma reply_Inl: "reply C f st = (Inl e, st') \<Longrightarrow> f st = (Inl e, st')"
  by (auto simp: reply_def split: prod.splits sum.splits)

text \<open>The requests that need no identity, and those the server does not implement.\<close>

definition public_message :: "message \<Rightarrow> bool" where
  "public_message m \<longleftrightarrow> m = EmptyRequest \<or> (\<exists>r. m = AuthenticateRequest r)"

lemmas rpc_defs = rpc_CreateKey_def rpc_UpdateKeyMetadata_def rpc_ListKeys_def rpc_GetKey_def rpc_RotateKey_def
  rpc_RevokeKey_def rpc_GetKeyMetadata_def rpc_BatchCreateKeys_def rpc_BatchGetKeys_def
  rpc_BatchGetKeyMetadata_def rpc_BatchRotateKeys_def rpc_BatchRevokeKeys_def rpc_BatchUpdateKeyMetadata_def

lemma dispatch_public:
  assumes "dispatch V cx m st = (Inl e, st')" "\<not> public_message m"
  shows "e \<in> set public_statuses \<or> (\<exists>p. e = Panicked p) \<or> (\<exists>s. e = StatusError Unimplemented s)"
  using assms
  by (cases m) (auto simp: public_message_def rpc_defs execWithoutKey_def
      dest!: reply_Inl execWithAuth_public run_authorized_public)

section \<open>Access control\<close>

text \<open>What a request asks for: the scope, the key (the zero identifier if it names none), the requester.\<close>

fun call_op :: "message \<Rightarrow> string" where
  "call_op (CreateKeyRequest r) = AuthKeysCreate"
| "call_op (BatchCreateKeysRequest r) = AuthKeysCreate"
| "call_op (ListKeysRequest r) = AuthKeysList"
| "call_op (RotateKeyRequest r) = AuthKeysRotate"
| "call_op (BatchRotateKeysRequest r) = AuthKeysRotate"
| "call_op (RevokeKeyRequest r) = AuthKeysRevoke"
| "call_op (BatchRevokeKeysRequest r) = AuthKeysRevoke"
| "call_op (UpdateKeyMetadataRequest r) = AuthKeysUpdate"
| "call_op (BatchUpdateKeyMetadataRequest r) = AuthKeysUpdate"
| "call_op _ = AuthKeysRead"

fun call_key :: "uuid_lib \<Rightarrow> message \<Rightarrow> go_error + key_id" where
  "call_key L (GetKeyRequest r) = KeyIDFromString L (gq_KeyId r)"
| "call_key L (GetKeyMetadataRequest r) = KeyIDFromString L (mq_KeyId r)"
| "call_key L (RotateKeyRequest r) = KeyIDFromString L (rt_KeyId r)"
| "call_key L (RevokeKeyRequest r) = KeyIDFromString L (vq_KeyId r)"
| "call_key L (UpdateKeyMetadataRequest r) = KeyIDFromString L (ui_KeyId r)"
| "call_key L _ = Inr (KeyID 0)"

fun call_requester :: "message \<Rightarrow> requester_context option" where
  "call_requester (CreateKeyRequest r) = cq_RequesterContext r"
| "call_requester (BatchCreateKeysRequest r) = bc_RequesterContext r"
| "call_requester (ListKeysRequest r) = lq_RequesterContext r"
| "call_requester (GetKeyRequest r) = gq_RequesterContext r"
| "call_requester (GetKeyMetadataRequest r) = mq_RequesterContext r"
| "call_requester (RotateKeyRequest r) = rt_RequesterContext r"
| "call_requester (RevokeKeyRequest r) = vq_RequesterContext r"
| "call_requester (UpdateKeyMetadataRequest r) = ui_RequesterContext r"
| "call_requester (BatchGetKeysRequest r) = bg_RequesterContext r"
| "call_requester (BatchGetKeyMetadataRequest r) = bg_RequesterContext r"
| "call_requester (BatchRotateKeysRequest r) = bq_RequesterContext r"
| "call_requester (BatchRevokeKeysRequest r) = bq_RequesterContext r"
| "call_requester (BatchUpdateKeyMetadataRequest r) = bq_RequesterContext r"
| "call_requester _ = None"

text \<open>
  The caller has the role and the identity for the operation, and may use the key as it is stored, or
  was found to be allowed to within the lifetime of the policy cache.
\<close>

definition permitted_for ::
  "'l server \<Rightarrow> call_ctx \<Rightarrow> string \<Rightarrow> key_id \<Rightarrow> requester_context option \<Rightarrow> 'l server_state \<Rightarrow> bool" where
  "permitted_for V cx op i rc st \<longleftrightarrow> (\<exists>u. cx_User cx = Some u \<and>
     roles_allow (v_Authorization V) op (u_Permissions u) \<and> identity_ok (v_Authorization V) cx rc u \<and>
     (may_use (v_Authorization V) (s_typeName (v_KeyService V)) u op i rc (w_keys (x_world st)) \<or>
      cache_Get (w_now (x_world st)) (getPolicyKey (e_uuid (v_env V)) (u_ID u) op i) (x_policies st) = Some True))"

definition permitted :: "'l server \<Rightarrow> call_ctx \<Rightarrow> message \<Rightarrow> 'l server_state \<Rightarrow> bool" where
  "permitted V cx m st \<longleftrightarrow> (\<exists>i. call_key (e_uuid (v_env V)) m = Inr i \<and>
     permitted_for V cx (call_op m) i (call_requester m) st)"

lemma scope_of_simps [simp]:
  "scope_of ''GetKey'' = AuthKeysRead" "scope_of ''GetKeyMetadata'' = AuthKeysRead" "scope_of ''CreateKey'' = AuthKeysCreate"
  "scope_of ''ListKeys'' = AuthKeysList" "scope_of ''RotateKey'' = AuthKeysRotate" "scope_of ''RevokeKey'' = AuthKeysRevoke"
  "scope_of ''UpdateKeyMetadata'' = AuthKeysUpdate"
  by (simp_all add: scope_of_def MethodScopes_def)

context key_repository
begin

lemma checkAuthorization_frame:
  assumes w: "inv w" and c: "checkAuthorization cfg R names u op i rc w = (r, w')"
  shows "w' = w \<or> (inv w' \<and> w_keys w' = w_keys w \<and> keeps w w')"
proof (cases "is_admin cfg (u_Permissions u) \<or> KeyID_IsZero i \<or> op \<notin> set resource_ops")
  case True
  then show ?thesis using c by (auto simp: checkAuthorization_def split: if_splits)
next
  case False
  obtain res w1 where g: "repo_GetKey R i w = (res, w1)" by (metis surj_pair)
  have "w' = w1" using c False g
    by (cases res) (auto simp: checkAuthorization_def split: if_splits option.splits)
  then show ?thesis using get_frame [OF w g] by blast
qed

end

context key_service
begin

text \<open>The authorizer reads the repository and logs, and changes neither the table nor the invariant.\<close>

lemma Authorize_frame:
  assumes w: "service_inv inv kinv w"
    and a: "Authorize E cfg (s_keyRepo S) names cx rc op i (p, w) = (r, p', w')"
  shows "service_inv inv kinv w' \<and> w_keys w' = w_keys w"
proof -
  define ok where "ok v \<longleftrightarrow> service_inv inv kinv v \<and> w_keys v = w_keys w" for v
  have log: "ok (AuditLog c o' k d s e v)" if "ok v" for c o' k d s e v
    using service_inv_local [OF _ AuditLog_local(1) _ AuditLog_local(3)] kinv_local [OF _ AuditLog_local(2)] that
    by (simp add: ok_def service_inv_def AuditLog_def)
  have chk: "ok v" if "checkAuthorization cfg (s_keyRepo S) names u op i rc w = (q, v)" for u q v
    using checkAuthorization_frame [OF _ that] w service_inv_repo [OF w] by (auto simp: ok_def service_inv_def)
  have "ok w" using w by (simp add: ok_def)
  then have "ok w'"
    using a by (auto simp: Authorize_def refuse_def Let_def intro!: log dest: chk
        split: prod.splits option.splits if_splits bool.splits)
  then show ?thesis by (simp add: ok_def)
qed

text \<open>
  The guard of the handlers: a call that is not permitted fails and leaves the table and the
  invariant as they were.
\<close>

lemma run_authorized_guard:
  assumes V: "v_KeyService V = S" and st: "service_inv inv kinv (x_world st)"
    and r: "run_authorized V cx meth op i rc fn st = (res, st')"
  shows "permitted_for V cx op i rc st \<or>
    ((\<exists>e. res = Inl e) \<and> w_keys (x_world st') = w_keys (x_world st) \<and> service_inv inv kinv (x_world st'))"
proof -
  obtain ok reason p1 w1 where a: "Authorize (s_env S) (v_Authorization V) (s_keyRepo S) (s_typeName S) cx rc op i
      (x_policies st, x_world st) = ((ok, reason), p1, w1)" by (metis surj_pair)
  show ?thesis
  proof (cases ok)
    case True
    with a have a': "Authorize (s_env S) (v_Authorization V) (s_keyRepo S) (s_typeName S) cx rc op i
      (x_policies st, x_world st) = ((True, reason), p1, w1)" by simp
    from a' have "permitted_for V cx op i rc st"
    proof (cases rule: Authorize_cases)
      case (checked u w2)
      have "inv (x_world st)" using st by (simp add: service_inv_def)
      from checkAuthorization_sound [OF this checked(5)] checked show ?thesis by (auto simp: permitted_for_def V)
    qed (auto simp: permitted_for_def V)
    then show ?thesis ..
  next
    case False
    then have "authorize_call V cx rc op i st = ((False, reason), st\<lparr>x_policies := p1, x_world := w1\<rparr>)"
      using a by (simp add: authorize_call_def V)
    then show ?thesis
      using r Authorize_frame [OF st a] by (auto simp: run_authorized_def dest!: fail_with_public)
  qed
qed

lemma execWithAuth_guard:
  assumes V: "v_KeyService V = S" and st: "service_inv inv kinv (x_world st)"
    and r: "execWithAuth V cx meth op kid rc fn st = (res, st')"
  shows "(\<exists>i. KeyIDFromString (e_uuid (s_env S)) kid = Inr i \<and> permitted_for V cx op i rc st) \<or>
    ((\<exists>e. res = Inl e) \<and> w_keys (x_world st') = w_keys (x_world st) \<and> service_inv inv kinv (x_world st'))"
proof (cases "KeyIDFromString (e_uuid (s_env S)) kid")
  case (Inl err)
  then show ?thesis using r st by (auto simp: execWithAuth_def V dest!: fail_with_public)
next
  case (Inr i)
  then have "run_authorized V cx meth op i rc (fn i) st = (res, st')" using r by (simp add: execWithAuth_def V)
  from run_authorized_guard [OF V st this] Inr show ?thesis by blast
qed

end

lemma reply_cases:
  assumes "reply C f st = (r, st')"
  obtains e where "f st = (Inl e, st')" "r = Inl e" | x where "f st = (Inr x, st')" "r = Inr (map_option C x)"
  using assms by (auto simp: reply_def split: prod.splits sum.splits)

lemma Authenticate_keys:
  assumes "rpc_Authenticate V req st = (r, st')"
  shows "w_keys (x_world st') = w_keys (x_world st)"
  using assms
  by (auto simp: rpc_Authenticate_def on_world_def AuthService_Authenticate_def GenerateToken_def next_draw_def Let_def
      split: if_splits prod.splits sum.splits)

text \<open>Validation changes a request only in its page size.\<close>

lemma validate_message_same_call:
  assumes "validate_message J m = (e, m')"
  shows "call_op m' = call_op m" "call_key L m' = call_key L m" "call_requester m' = call_requester m"
    "public_message m' = public_message m"
  using assms
  by (cases m; auto simp: validate_message_def ValidateListKeysRequest_def public_message_def Let_def
      split: prod.splits if_splits option.splits)+

context key_service
begin

lemma dispatch_guard:
  assumes V: "v_KeyService V = S" and st: "service_inv inv kinv (x_world st)"
    and d: "dispatch V cx m st = (r, st')"
  shows "permitted V cx m st \<or>
    (((\<exists>e. r = Inl e) \<or> public_message m) \<and> w_keys (x_world st') = w_keys (x_world st))"
proof (cases "public_message m")
  case True
  then show ?thesis using d
    by (auto simp: public_message_def rpc_HealthCheck_def Let_def dest: Authenticate_keys elim!: reply_cases)
next
  case False
  note guards = execWithAuth_guard [OF V st] run_authorized_guard [OF V st]
  show ?thesis
    using d False
    by (cases m) (auto simp: public_message_def permitted_def V rpc_defs execWithoutKey_def elim!: reply_cases dest!: guards)
qed

text \<open>The same for a call with its interceptors: the permission is that of the bearer of a valid token.\<close>

lemma serve_guard:
  assumes V: "v_KeyService V = S" and st: "service_inv inv kinv (x_world st)"
    and s: "serve V inc m st = (r, st')"
  shows "(\<exists>tok c. hd (the (in_AuthHeaders inc)) = bearerPrefix @ tok \<and>
      ValidateToken (v_jwt V) (w_now (x_world st)) (x_tokens st) tok = Inr c \<and>
      permitted V \<lparr>cx_User = Some \<lparr>u_ID = cl_UserID c, u_Permissions = cl_Roles c\<rparr>, cx_PeerCN = in_PeerCN inc\<rparr> m st) \<or>
    (((\<exists>e. r = Inl e) \<or> public_message m) \<and> w_keys (x_world st') = w_keys (x_world st))"
proof -
  obtain ar lim where a: "AuthenticationInterceptor (v_jwt V) (v_limits V) (w_now (x_world st)) (x_tokens st) inc
      (x_limiters st) = (ar, lim)" by fastforce
  show ?thesis
  proof (cases ar)
    case (Inl e)
    then show ?thesis using s a by (auto simp: serve_def)
  next
    case (Inr cx)
    obtain vr pool where v: "UnaryValidationInterceptor (v_json V) None (e_pick (s_env S) (w_draws (x_world st)))
        (in_FullMethod inc) m (x_errors st) = (vr, pool)" by fastforce
    show ?thesis
    proof (cases vr)
      case (Inl e)
      then show ?thesis using s a Inr v by (auto simp: serve_def V)
    next
      case m': (Inr m')
      let ?st = "st\<lparr>x_limiters := lim, x_errors := pool\<rparr>"
      have d: "dispatch V cx m' ?st = (r, st')" using s a Inr v m' by (simp add: serve_def V)
      note same = validate_message_same_call [OF interceptor_passes [OF v [unfolded m'], THEN conjunct1]]
      have g: "permitted V cx m st \<or> (((\<exists>e. r = Inl e) \<or> public_message m) \<and> w_keys (x_world st') = w_keys (x_world st))"
        using dispatch_guard [OF V _ d] st by (simp add: permitted_def permitted_for_def same)
      show ?thesis
      proof (cases "in_FullMethod inc \<in> set unprotectedMethods")
        case True
        then have "cx_User cx = None" using a Inr by (auto simp: AuthenticationInterceptor_def)
        then have "\<not> permitted V cx m st" by (simp add: permitted_def permitted_for_def)
        then show ?thesis using g by blast
      next
        case False
        from interceptor_caller [OF a [unfolded Inr] False] g show ?thesis by blast
      qed
    qed
  qed
qed

text \<open>What a served \<^verbatim>\<open>GetKey\<close> answers.\<close>

lemma serve_GetKey_answers:
  assumes V: "v_KeyService V = S" and st: "service_inv inv kinv (x_world st)"
    and s: "serve V inc (GetKeyRequest rq) st = (Inr (Some (GetKeyResponse resp)), st')"
  shows "answers_get S kinv rq (w_keys (x_world st)) resp \<and> service_inv inv kinv (x_world st')"
proof -
  obtain cx lim where a: "AuthenticationInterceptor (v_jwt V) (v_limits V) (w_now (x_world st)) (x_tokens st) inc
      (x_limiters st) = (Inr cx, lim)"
    using s by (auto simp: serve_def split: prod.splits sum.splits)
  obtain m' pool where v: "UnaryValidationInterceptor (v_json V) None (e_pick (s_env S) (w_draws (x_world st)))
      (in_FullMethod inc) (GetKeyRequest rq) (x_errors st) = (Inr m', pool)"
    using s a by (auto simp: serve_def V split: prod.splits sum.splits)
  have m': "m' = GetKeyRequest rq"
    using interceptor_passes [OF v] by (simp add: validate_message_def)
  let ?st = "st\<lparr>x_limiters := lim, x_errors := pool\<rparr>"
  have d: "rpc_GetKey V cx rq ?st = (Inr (Some resp), st')"
    using s a v m' by (auto simp: serve_def V map_option_case split: option.splits elim!: reply_cases)
  obtain i where i: "KeyIDFromString (e_uuid (s_env S)) (gq_KeyId rq) = Inr i"
    using d by (auto simp: rpc_GetKey_def execWithAuth_def V split: sum.splits dest!: fail_with_public)
  obtain ok reason p1 w1 where z: "Authorize (s_env S) (v_Authorization V) (s_keyRepo S) (s_typeName S) cx
      (gq_RequesterContext rq) AuthKeysRead i (x_policies st, x_world st) = ((ok, reason), p1, w1)" by (metis surj_pair)
  have g: "GetKey S (Some rq) w1 = (Inr resp, x_world st')"
    using d i z by (cases ok) (auto simp: rpc_GetKey_def execWithAuth_def V run_authorized_def authorize_call_def
        on_world_def split: prod.splits sum.splits dest!: fail_with_public)
  from Authorize_frame [OF st z] have w1: "service_inv inv kinv w1" "w_keys w1 = w_keys (x_world st)" by auto
  show ?thesis using GetKey_ok [OF w1(1) g] w1(2) by simp
qed

end

end
