(* ===== verification/GrpcLiveness.thy ===== *)
theory GrpcLiveness
  imports GrpcService Liveness
begin

text \<open>
  Calls that succeed: a request with a valid token, within the rate limit, accepted by the validator
  and permitted by the authorizer reaches the key service, and on a healthy server the key service
  answers.
\<close>

section \<open>Through the interceptors\<close>

text \<open>A request that the interceptors let through, with the caller they put into the context.\<close>

definition admitted :: "'l server \<Rightarrow> incoming \<Rightarrow> message \<Rightarrow> claims \<Rightarrow> 'l server_state \<Rightarrow> bool" where
  "admitted V inc m c st \<longleftrightarrow> in_FullMethod inc \<notin> set unprotectedMethods \<and>
     (\<exists>tok rest. in_AuthHeaders inc = Some ((bearerPrefix @ tok) # rest) \<and> tok \<noteq> '''' \<and>
        ValidateToken (v_jwt V) (w_now (x_world st)) (x_tokens st) tok = Inr c) \<and>
     fst (limiter_Allow (v_limits V) (w_now (x_world st)) (cl_UserID c) (x_limiters st)) \<and>
     validate_message (v_json V) m = (None, m)"

definition caller :: "incoming \<Rightarrow> claims \<Rightarrow> call_ctx" where
  "caller inc c = \<lparr>cx_User = Some \<lparr>u_ID = cl_UserID c, u_Permissions = cl_Roles c\<rparr>, cx_PeerCN = in_PeerCN inc\<rparr>"

lemma serve_admitted:
  assumes "admitted V inc m c st"
  shows "\<exists>lim. serve V inc m st = dispatch V (caller inc c) m (st\<lparr>x_limiters := lim\<rparr>)"
proof -
  obtain tok rest where t: "in_FullMethod inc \<notin> set unprotectedMethods" "in_AuthHeaders inc = Some ((bearerPrefix @ tok) # rest)"
    "tok \<noteq> ''''" "ValidateToken (v_jwt V) (w_now (x_world st)) (x_tokens st) tok = Inr c"
    "validate_message (v_json V) m = (None, m)"
    using assms unfolding admitted_def by blast
  obtain lim where l: "limiter_Allow (v_limits V) (w_now (x_world st)) (cl_UserID c) (x_limiters st) = (True, lim)"
    using assms by (cases "limiter_Allow (v_limits V) (w_now (x_world st)) (cl_UserID c) (x_limiters st)")
      (simp add: admitted_def)
  have "AuthenticationInterceptor (v_jwt V) (v_limits V) (w_now (x_world st)) (x_tokens st) inc (x_limiters st) =
      (Inr (caller inc c), lim)"
    using t l by (simp add: AuthenticationInterceptor_def caller_def Let_def)
  then show ?thesis using t(5) by (auto simp: serve_def UnaryValidationInterceptor_def)
qed

section \<open>Through the authorizer\<close>

text \<open>The authorizer caches permissions only.\<close>

definition no_denials :: "policy_cache \<Rightarrow> bool" where
  "no_denials p \<longleftrightarrow> (\<forall>t k. cache_Get t k p \<noteq> Some False)"

lemma no_denials_Set: "no_denials p \<Longrightarrow> no_denials (cache_Set now k True ttl p)"
  by (auto simp: no_denials_def cache_Get_def cache_Set_def Let_def update_conv' split: option.splits if_splits)

definition entitled :: "'l server \<Rightarrow> call_ctx \<Rightarrow> string \<Rightarrow> requester_context option \<Rightarrow> user \<Rightarrow> bool" where
  "entitled V cx op rc u \<longleftrightarrow> cx_User cx = Some u \<and> roles_allow (v_Authorization V) op (u_Permissions u) \<and>
     identity_ok (v_Authorization V) cx rc u"

lemma Authorize_allows:
  assumes "cx_User cx = Some u" "roles_allow cfg op (u_Permissions u)" "identity_ok cfg cx rc u" "no_denials p"
    and c: "checkAuthorization cfg R names u op i rc w = ((True, reason), w1)"
  shows "\<exists>reason' p' v. Authorize E cfg R names cx rc op i (p, w) =
    ((True, reason'), p', AuditLog (u_ID u) op (KeyID_String (e_uuid E) i) '''' True None v) \<and> (v = w \<or> v = w1) \<and> no_denials p'"
proof (cases "cache_Get (w_now w) (getPolicyKey (e_uuid E) (u_ID u) op i) p")
  case None
  then show ?thesis using c assms(4) by (auto simp: Authorize_identified [OF assms(1-3)] Let_def intro: no_denials_Set)
next
  case (Some b)
  then have "b" using assms(4) by (cases b) (auto simp: no_denials_def)
  then show ?thesis using Some assms(4) by (auto simp: Authorize_identified [OF assms(1-3)] Let_def)
qed

lemma AuditLog_healthy [simp]: "healthy (AuditLog c o' k d s e w) = healthy w"
  "w_now (AuditLog c o' k d s e w) = w_now w" "w_keys (AuditLog c o' k d s e w) = w_keys w"
  "w_draws (AuditLog c o' k d s e w) = w_draws w"
  by (simp_all add: healthy_def AuditLog_def)

lemma authorize_zero_live:
  assumes "entitled V cx op rc u" "no_denials (x_policies st)" "healthy (x_world st)"
  shows "\<exists>reason p w. authorize_call V cx rc op (KeyID 0) st = ((True, reason), st\<lparr>x_policies := p, x_world := w\<rparr>) \<and>
    no_denials p \<and> healthy w \<and> w_now w = w_now (x_world st) \<and> w_draws w = w_draws (x_world st) \<and> w_keys w = w_keys (x_world st)"
proof -
  have "\<exists>r. checkAuthorization (v_Authorization V) R names u op (KeyID 0) rc w = ((True, r), w)" for R names w
    by (simp add: checkAuthorization_def KeyID_IsZero_def uuid_Nil_def)
  from this [of "s_keyRepo (v_KeyService V)" "s_typeName (v_KeyService V)" "x_world st"] obtain r where
    "checkAuthorization (v_Authorization V) (s_keyRepo (v_KeyService V)) (s_typeName (v_KeyService V)) u op (KeyID 0) rc
      (x_world st) = ((True, r), x_world st)" by blast
  note chk = this
  have cx: "cx_User cx = Some u" "roles_allow (v_Authorization V) op (u_Permissions u)" "identity_ok (v_Authorization V) cx rc u"
    using assms(1) by (simp_all add: entitled_def)
  obtain reason p v where "Authorize (v_env V) (v_Authorization V) (s_keyRepo (v_KeyService V)) (s_typeName (v_KeyService V))
      cx rc op (KeyID 0) (x_policies st, x_world st) =
      ((True, reason), p, AuditLog (u_ID u) op (KeyID_String (e_uuid (v_env V)) (KeyID 0)) '''' True None v)"
      "v = x_world st" "no_denials p"
    using Authorize_allows [OF cx assms(2) chk, of "v_env V"] by blast
  then show ?thesis using assms(3)
    by (intro exI [of _ reason] exI [of _ p]
        exI [of _ "AuditLog (u_ID u) op (KeyID_String (e_uuid (v_env V)) (KeyID 0)) '''' True None v"])
      (simp add: authorize_call_def)
qed

lemma authorize_key_live:
  assumes V: "v_KeyService V = polykey_service E C A names mk l a arn d" and u: "entitled V cx op rc u"
    and st: "no_denials (x_policies st)" "healthy (x_world st)" "repo_inv E (x_world st)"
    and r: "sql_latest i (w_keys (x_world st)) = Some r" "r_metadata r = JMeta m" "u_ID u \<in> set (m_AuthorizedContexts m)"
    and rc: "rc = Some c" "ValidateTierForProfile names (FromProtoTier (rc_ClientTier c)) (m_StorageType m) = None"
  shows "\<exists>reason p w. authorize_call V cx rc op i st = ((True, reason), st\<lparr>x_policies := p, x_world := w\<rparr>) \<and>
    no_denials p \<and> healthy w \<and> w_keys w = w_keys (x_world st)"
proof -
  obtain p w1 where g: "repo_GetKey (initKeyRepository E True) i (x_world st) = (Inr p, w1)" "healthy w1"
    using repo_GetKey_live [OF st(2) keyRepo.inv_table [OF st(3)] r(1)] by blast
  have row: "row_key r = Some (deref w1 p)" using keyRepo.get_reads [OF st(3) g(1)] r(1) by auto
  have keys: "w_keys w1 = w_keys (x_world st)" using keyRepo.get_frame [OF st(3) g(1)] by blast
  have m: "k_Metadata (deref w1 p) = Some m" by (rule row_key_metadata [OF row r(2)])
  have "\<exists>q w2. checkAuthorization (v_Authorization V) (initKeyRepository E True) names u op i rc (x_world st) =
      ((True, q), w2) \<and> (w2 = x_world st \<or> w2 = w1)"
    using g(1) m r(3) rc
    by (cases "is_admin (v_Authorization V) (u_Permissions u)"; cases "KeyID_IsZero i"; cases "op \<in> set resource_ops")
      (simp_all add: checkAuthorization_def)
  then obtain q w2 where chk: "checkAuthorization (v_Authorization V) (initKeyRepository E True) names u op i rc (x_world st) =
      ((True, q), w2)" "w2 = x_world st \<or> w2 = w1" by blast
  have cx: "cx_User cx = Some u" "roles_allow (v_Authorization V) op (u_Permissions u)" "identity_ok (v_Authorization V) cx rc u"
    using u by (simp_all add: entitled_def)
  obtain reason p' v where a: "Authorize E (v_Authorization V) (initKeyRepository E True) names cx rc op i (x_policies st, x_world st) =
      ((True, reason), p', AuditLog (u_ID u) op (KeyID_String (e_uuid E) i) '''' True None v)"
      "v = x_world st \<or> v = w2" "no_denials p'"
    using Authorize_allows [OF cx st(1) chk(1), of E] by blast
  have "healthy v \<and> w_keys v = w_keys (x_world st)" using a(2) chk(2) st(2) g(2) keys by blast
  then show ?thesis using a(1,3)
    by (intro exI [of _ reason] exI [of _ p'] exI [of _ "AuditLog (u_ID u) op (KeyID_String (e_uuid E) i) '''' True None v"])
      (simp add: authorize_call_def V)
qed

section \<open>Creation and reading\<close>

context key_service
begin

lemma CreateKey_now:
  assumes w: "service_inv inv kinv w" and r: "CreateKey S (Some rq) w = (res, w')"
  shows "w_now w' = w_now w"
proof -
  obtain ko w1 where k: "createKeyObject S (create_item.truncate rq) (GetClientIdentity (cq_RequesterContext rq))
      (tier_profile (cq_RequesterContext rq)) w = (ko, w1)" by fastforce
  have l: "service_inv inv kinv w1" "svc_local w w1" using createKeyObject_ok(1) [OF w k] by blast+
  have now: "w_now w1 = w_now w" by (rule svc_local_keys(2) [OF l(2)])
  show ?thesis
  proof (cases "invalid_requester (cq_RequesterContext rq) \<or> (\<exists>e. GetCryptoDetails (s_typeName S) (ci_KeyType rq) = Inl e)")
    case True
    then show ?thesis using r by (auto simp: CreateKey_def split: if_splits)
  next
    case False
    then obtain f alg where d: "\<not> invalid_requester (cq_RequesterContext rq)"
      "GetCryptoDetails (s_typeName S) (ci_KeyType rq) = Inr (f, alg)"
      by (cases "GetCryptoDetails (s_typeName S) (ci_KeyType rq)") auto
    show ?thesis
    proof (cases ko)
      case (Inl e)
      then show ?thesis using r d k now by (simp add: CreateKey_def)
    next
      case (Inr key)
      obtain q w2 where c: "repo_CreateKey (s_keyRepo S) (Some key) w1 = (q, w2)" by fastforce
      have "inv w1" using l(1) by (simp add: service_inv_def)
      from create_keeps [OF this c] createKeyObject_ok(2) [OF w k Inr] have "w_now w2 = w_now w1" by (simp add: keeps_def)
      moreover have "w' = w2" using r d k Inr c by (cases q) (simp_all add: CreateKey_def)
      ultimately show ?thesis using now by simp
    qed
  qed
qed

end

text \<open>A row created for a request.\<close>

lemma created_row:
  assumes "creates_key S kinv rq now t t' resp" "t' = t @ [key_to_row k]"
  shows "\<exists>m. r_metadata (key_to_row k) = JMeta m \<and> m_KeyType m = ci_KeyType rq \<and>
    m_AuthorizedContexts m = ci_InitialAuthorizedContexts rq \<and> m_StorageType m = tier_profile (cq_RequesterContext rq)"
  using assms
  by (auto simp: creates_key_def fresh_key_def key_to_row_def marshal_metadata_def new_key_def create_item.truncate_def)

text \<open>
  The server after a created key, and the call that reads it: both succeed for a client whose roles
  allow both operations and which the request names as an authorized context.
\<close>

lemma served_create:
  assumes V: "v_KeyService V = polykey_service E C A names mk True a arn ''local''"
    and st: "service_inv (repo_inv E) (kms_inv E C mk A) (x_world st)" "healthy (x_world st)" "no_denials (x_policies st)"
    and src: "sources_ok E C mk" and rq: "creatable rq"
    and fresh: "sql_latest (KeyID (e_newUUID E (Suc (Suc (w_draws (x_world st)))))) (w_keys (x_world st)) = None"
    and u: "entitled V (caller inc c) AuthKeysCreate (cq_RequesterContext rq) u"
    and adm: "admitted V inc (CreateKeyRequest rq) c st"
  shows "\<exists>resp k st'. serve V inc (CreateKeyRequest rq) st = (Inr (Some (CreateKeyResponse resp)), st') \<and>
    service_inv (repo_inv E) (kms_inv E C mk A) (x_world st') \<and> healthy (x_world st') \<and> no_denials (x_policies st') \<and>
    w_now (x_world st') = w_now (x_world st) \<and> x_tokens st' = x_tokens st \<and>
    creates_key (v_KeyService V) (kms_inv E C mk A) rq (w_now (x_world st)) (w_keys (x_world st)) (w_keys (x_world st')) resp \<and>
    w_keys (x_world st') = w_keys (x_world st) @ [key_to_row k] \<and> cr_KeyId resp = KeyID_String (e_uuid E) (k_ID k) \<and>
    sql_latest (k_ID k) (w_keys (x_world st)) = None \<and> local_dek E C mk A (k_ID k) (k_EncryptedDEK k) \<and>
    k_Status k = KeyStatusActive"
proof -
  obtain lim where s: "serve V inc (CreateKeyRequest rq) st =
      dispatch V (caller inc c) (CreateKeyRequest rq) (st\<lparr>x_limiters := lim\<rparr>)"
    using serve_admitted [OF adm] by blast
  let ?st = "st\<lparr>x_limiters := lim\<rparr>" and ?S = "polykey_service E C A names mk True a arn ''local''"
  obtain reason p w where z: "authorize_call V (caller inc c) (cq_RequesterContext rq) AuthKeysCreate (KeyID 0) ?st =
      ((True, reason), ?st\<lparr>x_policies := p, x_world := w\<rparr>)" "no_denials p" "healthy w" "w_now w = w_now (x_world st)"
      "w_draws w = w_draws (x_world st)" "w_keys w = w_keys (x_world st)"
    using authorize_zero_live [OF u, of ?st] st by auto
  obtain r p' w' where az: "Authorize (s_env ?S) (v_Authorization V) (s_keyRepo ?S) (s_typeName ?S) (caller inc c)
      (cq_RequesterContext rq) AuthKeysCreate (KeyID 0) (x_policies st, x_world st) = (r, p', w')" by (metis surj_pair)
  have "w' = w" using z(1) az by (auto simp: authorize_call_def V dest: arg_cong [where f = x_world])
  then have w: "service_inv (repo_inv E) (kms_inv E C mk A) w" using polykey.Authorize_frame [OF st(1) az] by blast
  have inv: "repo_inv E w" "kms_inv E C mk A w" using w by (simp_all add: service_inv_def)
  obtain resp k w1 where k: "CreateKey ?S (Some rq) w = (Inr resp, w1)" "healthy w1"
    "w_keys w1 = w_keys w @ [key_to_row k]" "cr_KeyId resp = KeyID_String (e_uuid E) (k_ID k)"
    "sql_latest (k_ID k) (w_keys w) = None" "local_dek E C mk A (k_ID k) (k_EncryptedDEK k)" "k_Status k = KeyStatusActive"
    using CreateKey_live [OF inv z(3) src rq, of names a arn] fresh unfolding z(5,6) by blast
  have "serve V inc (CreateKeyRequest rq) st =
      (Inr (Some (CreateKeyResponse resp)), ?st\<lparr>x_policies := p, x_world := w1\<rparr>)"
    unfolding s using z(1) k(1)
    by (simp add: reply_def rpc_CreateKey_def execWithoutKey_def run_authorized_def on_world_def V)
  then show ?thesis
    using k z polykey.CreateKey_ok [OF w k(1)] polykey.CreateKey_now [OF w k(1)] unfolding V by auto
qed

lemma served_get:
  assumes V: "v_KeyService V = polykey_service E C A names mk True a arn ''local''"
    and st: "service_inv (repo_inv E) (kms_inv E C mk A) (x_world st)" "healthy (x_world st)" "no_denials (x_policies st)"
    and u: "entitled V (caller inc c) AuthKeysRead (gq_RequesterContext rq) u"
    and adm: "admitted V inc (GetKeyRequest rq) c st"
    and rq: "KeyIDFromString (e_uuid E) (gq_KeyId rq) = Inr i" "gq_Version rq \<le> 0"
    and r: "sql_latest i (w_keys (x_world st)) = Some r" "r_status r \<noteq> KeyStatusRevoked" "r_metadata r = JMeta m"
    and m: "m_KeyType m = KEY_TYPE_AES_256" "m_StorageType m \<noteq> STORAGE_PROFILE_HARDENED"
      "u_ID u \<in> set (m_AuthorizedContexts m)"
    and rc: "gq_RequesterContext rq = Some rc" "ValidateTierForProfile names (FromProtoTier (rc_ClientTier rc)) (m_StorageType m) = None"
    and dek: "local_dek E C mk A i (r_encrypted_dek r)"
  shows "\<exists>resp st'. serve V inc (GetKeyRequest rq) st = (Inr (Some (GetKeyResponse resp)), st')"
proof -
  obtain lim where s: "serve V inc (GetKeyRequest rq) st =
      dispatch V (caller inc c) (GetKeyRequest rq) (st\<lparr>x_limiters := lim\<rparr>)"
    using serve_admitted [OF adm] by blast
  let ?st = "st\<lparr>x_limiters := lim\<rparr>" and ?S = "polykey_service E C A names mk True a arn ''local''"
  have inv: "repo_inv E (x_world ?st)" using st(1) by (simp add: service_inv_def)
  obtain reason p w where z: "authorize_call V (caller inc c) (gq_RequesterContext rq) AuthKeysRead i ?st =
      ((True, reason), ?st\<lparr>x_policies := p, x_world := w\<rparr>)" "healthy w" "w_keys w = w_keys (x_world st)"
    using authorize_key_live [OF V u _ _ inv _ r(3) m(3) rc, of i] st r(1) by auto
  obtain q p' w' where az: "Authorize (s_env ?S) (v_Authorization V) (s_keyRepo ?S) (s_typeName ?S) (caller inc c)
      (gq_RequesterContext rq) AuthKeysRead i (x_policies st, x_world st) = (q, p', w')" by (metis surj_pair)
  have "w' = w" using z(1) az by (auto simp: authorize_call_def V dest: arg_cong [where f = x_world])
  then have w: "service_inv (repo_inv E) (kms_inv E C mk A) w" using polykey.Authorize_frame [OF st(1) az] by blast
  obtain resp w2 where g: "GetKey ?S (Some rq) w = (Inr resp, w2)"
    using GetKey_live [OF w z(2) rq _ r(2,3) m(1,2) dek, of names a arn] r(1) z(3) by auto
  have "serve V inc (GetKeyRequest rq) st = (Inr (Some (GetKeyResponse resp)), ?st\<lparr>x_policies := p, x_world := w2\<rparr>)"
    unfolding s using z(1) g rq(1)
    by (simp add: reply_def rpc_GetKey_def execWithAuth_def run_authorized_def on_world_def V)
  then show ?thesis by blast
qed

text \<open>A key created through the server and read back through the server.\<close>

lemma served_create_get:
  assumes V: "v_KeyService V = polykey_service E C A names mk True a arn ''local''"
    and st: "service_inv (repo_inv E) (kms_inv E C mk A) (x_world st)" "healthy (x_world st)" "no_denials (x_policies st)"
    and src: "sources_ok E C mk" and rq: "creatable rq" "cq_RequesterContext rq = Some rc"
    and fresh: "sql_latest (KeyID (e_newUUID E (Suc (Suc (w_draws (x_world st)))))) (w_keys (x_world st)) = None"
    and u: "entitled V (caller inc c) AuthKeysCreate (Some rc) u" "entitled V (caller inc c) AuthKeysRead (Some rc) u"
      "u_ID u \<in> set (ci_InitialAuthorizedContexts rq)"
    and adm: "admitted V inc (CreateKeyRequest rq) c st"
  shows "\<exists>resp st1. serve V inc (CreateKeyRequest rq) st = (Inr (Some (CreateKeyResponse resp)), st1) \<and>
    (\<forall>g. g = \<lparr>gq_KeyId = cr_KeyId resp, gq_Version = 0, gq_SkipMetadata = False, gq_RequesterContext = Some rc\<rparr> \<longrightarrow>
      admitted V inc (GetKeyRequest g) c st1 \<longrightarrow>
      (\<exists>gresp st2. serve V inc (GetKeyRequest g) st1 = (Inr (Some (GetKeyResponse gresp)), st2) \<and>
         Some (km_EncryptedKeyData (gr_KeyMaterial gresp)) = map_option km_EncryptedKeyData (cr_KeyMaterial resp) \<and>
         gr_Metadata gresp = cr_Metadata resp))"
proof -
  let ?K = "kms_inv E C mk A"
  obtain resp k st1 where c: "serve V inc (CreateKeyRequest rq) st = (Inr (Some (CreateKeyResponse resp)), st1)"
    "service_inv (repo_inv E) ?K (x_world st1)" "healthy (x_world st1)" "no_denials (x_policies st1)"
    "creates_key (v_KeyService V) ?K rq (w_now (x_world st)) (w_keys (x_world st)) (w_keys (x_world st1)) resp"
    "w_keys (x_world st1) = w_keys (x_world st) @ [key_to_row k]" "cr_KeyId resp = KeyID_String (e_uuid E) (k_ID k)"
    "sql_latest (k_ID k) (w_keys (x_world st)) = None" "local_dek E C mk A (k_ID k) (k_EncryptedDEK k)"
    "k_Status k = KeyStatusActive"
    using served_create [OF V st src rq(1) fresh _ adm, of u] u(1) rq(2) by auto
  obtain m where m: "r_metadata (key_to_row k) = JMeta m" "m_KeyType m = ci_KeyType rq"
    "m_AuthorizedContexts m = ci_InitialAuthorizedContexts rq" "m_StorageType m = tier_profile (cq_RequesterContext rq)"
    using created_row [OF c(5,6)] by blast
  have L: "uuid_lib_ok (e_uuid E)" using st(1) by (simp add: service_inv_def kms_inv_def local_inv_def env_ok_def)
  have row: "sql_latest (k_ID k) (w_keys (x_world st1)) = Some (key_to_row k)"
    using sql_append_fresh c(6,8) by (simp add: key_to_row_def)
  have fields: "r_status (key_to_row k) = KeyStatusActive" "r_encrypted_dek (key_to_row k) = k_EncryptedDEK k"
    using c(10) by (simp_all add: key_to_row_def)
  have tier: "ValidateTierForProfile names (FromProtoTier (rc_ClientTier rc)) (m_StorageType m) = None"
    using ValidateTierForProfile_own_profile rq(2) m(4) by (simp add: tier_profile_def GetClientTier_def)
  have made: "map_option km_EncryptedKeyData (cr_KeyMaterial resp) = Some (k_EncryptedDEK k)" "cr_Metadata resp = Some m"
    using c(5,6) m(1) by (auto simp: creates_key_def fresh_key_def key_to_row_def marshal_metadata_def new_key_def)
  have "\<exists>gresp st2. serve V inc (GetKeyRequest g) st1 = (Inr (Some (GetKeyResponse gresp)), st2) \<and>
      km_EncryptedKeyData (gr_KeyMaterial gresp) = k_EncryptedDEK k \<and> gr_Metadata gresp = Some m"
    if g: "g = \<lparr>gq_KeyId = cr_KeyId resp, gq_Version = 0, gq_SkipMetadata = False, gq_RequesterContext = Some rc\<rparr>"
      and a: "admitted V inc (GetKeyRequest g) c st1" for g
  proof -
    have id: "KeyIDFromString (e_uuid E) (gq_KeyId g) = Inr (k_ID k)" using g c(7) KeyID_roundtrip [OF L] by simp
    obtain gresp st2 where s: "serve V inc (GetKeyRequest g) st1 = (Inr (Some (GetKeyResponse gresp)), st2)"
      using served_get [OF V c(2-4) _ a id _ row _ m(1), of u rc] u(2,3) rq(1) m(2-4) tier c(9) fields g
      by (auto simp: status_distinct creatable_def)
    from polykey.serve_GetKey_answers [OF V c(2) s] id g row fields m(1)
    have "km_EncryptedKeyData (gr_KeyMaterial gresp) = k_EncryptedDEK k \<and> gr_Metadata gresp = Some m"
      by (auto simp: answers_get_def requested_row_def dest: row_key_metadata)
    then show ?thesis using s by blast
  qed
  then show ?thesis using c(1) made by auto
qed

end
