(* ===== verification/SampleServer.thy ===== *)
theory SampleServer
  imports Sample GrpcLiveness
begin

text \<open>
  The server of the closed instance: a token library, a rate limiter, a JSON library and a client
  with the roles to create and read keys.
\<close>

text \<open>
  A stand-in for signed tokens: the token of a claim set is its identifier, and a token of odd length
  carries the claims of its tail with an earlier expiry and a signature that does not verify.
\<close>

definition sample_claims :: "string \<Rightarrow> claims" where
  "sample_claims tid = \<lparr>cl_UserID = ''alice'', cl_Roles = [''writer''], cl_ID = tid,
     cl_ExpiresAt = Some (60 * minute), cl_IssuedAt = Some 0\<rparr>"

definition forged :: "string \<Rightarrow> bool" where
  "forged tok \<longleftrightarrow> odd (length tok)"

definition signable :: "claims \<Rightarrow> bool" where
  "signable c \<longleftrightarrow> \<not> forged (cl_ID c) \<and> cl_UserID c = ''alice'' \<and> cl_Roles c = [''writer''] \<and>
     cl_ExpiresAt c = Some (60 * minute) \<and> cl_IssuedAt c = Some 0"

definition sample_jwt :: jwt_lib where
  "sample_jwt = \<lparr>
     jwt_SignedString = (\<lambda>c. if signable c then Inr (cl_ID c) else Inl (Plain ''cannot sign'')),
     jwt_ParseWithClaims = (\<lambda>kf now tok.
       if forged tok then Inl (Plain ''signature is invalid'')
       else case kf ''RS256'' of Some e \<Rightarrow> Inl e
            | None \<Rightarrow> if now < 60 * minute then Inr (sample_claims tok, True) else Inl (Plain ''token is expired'')),
     jwt_ParseUnverified = (\<lambda>tok. if forged tok then Inr ((sample_claims (tl tok))\<lparr>cl_ExpiresAt := Some (10 * second)\<rparr>)
       else Inr (sample_claims tok)),
     jwt_Alg = (\<lambda>tok. Some ''RS256''),
     jwt_NewNumericDate = (\<lambda>t. t)\<rparr>"

lemma signable_claims: "signable c \<Longrightarrow> sample_claims (cl_ID c) = c"
  by (cases c) (simp add: signable_def sample_claims_def)

lemma sample_jwt_sel:
  "jwt_SignedString sample_jwt c = (if signable c then Inr (cl_ID c) else Inl (Plain ''cannot sign''))"
  "jwt_ParseUnverified sample_jwt tok = (if forged tok then Inr ((sample_claims (tl tok))\<lparr>cl_ExpiresAt := Some (10 * second)\<rparr>)
     else Inr (sample_claims tok))"
  "jwt_ParseWithClaims sample_jwt kf now tok =
     (if forged tok then Inl (Plain ''signature is invalid'')
      else case kf ''RS256'' of Some e \<Rightarrow> Inl e
           | None \<Rightarrow> if now < 60 * minute then Inr (sample_claims tok, True) else Inl (Plain ''token is expired''))"
  "jwt_Alg sample_jwt tok = Some ''RS256''" "jwt_NewNumericDate sample_jwt t = t"
  by (simp_all add: sample_jwt_def)

lemma sample_jwt_ok: "jwt_ok sample_jwt"
proof -
  have "jwt_ParseWithClaims sample_jwt kf now tok = Inr (c, True)"
    if s: "jwt_SignedString sample_jwt c = Inr tok" "kf ''RS256'' = None" "\<forall>e. cl_ExpiresAt c = Some e \<longrightarrow> now < e" for c tok kf now
  proof -
    have c: "signable c" "tok = cl_ID c" using s(1) unfolding sample_jwt_sel by (cases "signable c"; simp)+
    then have "\<not> forged tok" "now < 60 * minute" using s(3) by (simp_all add: signable_def)
    then show ?thesis using s(2) signable_claims [OF c(1)] c(2) by (simp add: sample_jwt_sel)
  qed
  moreover have "jwt_ParseUnverified sample_jwt tok = Inr c \<and> (\<exists>alg. jwt_Alg sample_jwt tok = Some alg \<and> kf alg = None) \<and>
      (\<forall>e. cl_ExpiresAt c = Some e \<longrightarrow> now < e)"
    if p: "jwt_ParseWithClaims sample_jwt kf now tok = Inr (c, v)" for kf now tok c v
  proof -
    have "\<not> forged tok" "kf ''RS256'' = None" "now < 60 * minute" "c = sample_claims tok"
      using p unfolding sample_jwt_sel
      by (cases "forged tok"; cases "kf ''RS256''"; cases "now < 60 * minute"; simp)+
    then show ?thesis by (simp add: sample_jwt_sel) (simp add: sample_claims_def)
  qed
  moreover have "t - second < jwt_NewNumericDate sample_jwt t \<and> jwt_NewNumericDate sample_jwt t \<le> t" for t
    by (simp add: sample_jwt_sel second_def)
  ultimately show ?thesis unfolding jwt_ok_def by blast
qed

definition sample_json :: json_lib where
  "sample_json = \<lparr>json_Marshal_size = (\<lambda>m. Inr 100), json_Unmarshal = (\<lambda>s. None)\<rparr>"

lemma sample_json_plain: "json_plain sample_json"
  by (simp add: json_plain_def sample_json_def)

definition sample_limits :: "nat rate_lib" where
  "sample_limits = \<lparr>rate_NewLimiter = 10, rate_Allow = (\<lambda>now n. if n = 0 then (False, 0) else (True, n - 1))\<rparr>"

definition sample_roles :: auth_config where
  "sample_roles = \<lparr>ac_Roles = [(''writer'', [AuthKeysCreate, AuthKeysRead])], ac_EnforceMTLSIdentityMatch = False\<rparr>"

definition sample_clients :: "(string \<times> client) list" where
  "sample_clients = [(''alice'', \<lparr>c_ID = ''alice'', c_HashedAPIKey = ''hash'', c_Permissions = [''writer'']\<rparr>)]"

text \<open>No other caller: a worker takes the request, sends the result, and the caller receives it.\<close>

definition await_alone ::
  "env \<Rightarrow> key_repo \<Rightarrow> pipeline \<times> world \<Rightarrow> (go_error + rotation_result) \<times> pipeline \<times> world" where
  "await_alone E R s =
     (case pl_requests (fst s) of
        [] \<Rightarrow> (Inl (Sentinel CtxCanceled), s)
      | req # reqs \<Rightarrow>
          (case pipeline_processRotation E R req (snd s) of
             (res, w) \<Rightarrow> (Inr (rotation_result_of req res), (fst s)\<lparr>pl_requests := reqs\<rparr>, w)))"

definition sample_server :: "nat server" where
  "sample_server = \<lparr>v_KeyService = sample_service, v_clients = sample_clients, v_tokenTTL = 60 * minute,
     v_Authorization = sample_roles, v_ServiceVersion = ''1'', v_BuildCommit = ''c'', v_jwt = sample_jwt,
     v_bcrypt = (\<lambda>h s. h = ''hash'' \<and> s = ''secret''), v_json = sample_json,
     v_layout = \<lparr>time_Format = (\<lambda>t. ''''), time_Parse = (\<lambda>s. None)\<rparr>,
     v_limits = sample_limits, v_order = (\<lambda>n. [0..<n]),
     v_await = await_alone sample_env (initKeyRepository sample_env True)\<rparr>"

definition sample_state :: "nat server_state" where
  "sample_state = new_server_state sample_world"

definition sample_incoming :: "string \<Rightarrow> incoming" where
  "sample_incoming meth = \<lparr>in_FullMethod = ''/polykey.v2.PolykeyService/'' @ meth,
     in_PeerCN = None, in_AuthHeaders = Some [bearerPrefix @ ''t1'']\<rparr>"

lemma sample_token: "ValidateToken sample_jwt 0 NewInMemoryTokenStore ''t1'' = Inr (sample_claims ''t1'')"
  by (simp add: ValidateToken_def sample_jwt_def forged_def rsa_keyfunc_def jwt_rsa_algs_def minute_def second_def
      store_IsRevoked_def NewInMemoryTokenStore_def cache_New_def WithCleanupInterval_def cache_Get_def sample_claims_def)

lemma sample_create_accepted: "ValidateCreateKeyRequest sample_json sample_create = None"
proof -
  have "contextRegex ''alice''" by code_simp
  then show ?thesis
    unfolding ValidateCreateKeyRequest_iff create_accepted_def
    by (simp add: sample_create_def sample_json_def fits_in_request_def tags_ok_def contexts_ok_def policies_ok_def
        KEY_TYPE_AES_256_def KEY_TYPE_UNSPECIFIED_def MaxMetadataSize_def MaxDescriptionLen_def MaxTagCount_def
        MaxAuthorizedContexts_def MaxAccessPolicies_def)
qed

lemma sample_admitted: "admitted sample_server (sample_incoming ''CreateKey'') (CreateKeyRequest sample_create) (sample_claims ''t1'') sample_state"
proof -
  have "in_FullMethod (sample_incoming ''CreateKey'') \<notin> set unprotectedMethods"
    by (simp add: sample_incoming_def unprotectedMethods_def)
  moreover have "validate_message sample_json (CreateKeyRequest sample_create) = (None, CreateKeyRequest sample_create)"
    by (simp add: validate_message_def sample_create_accepted)
  ultimately show ?thesis
    using sample_token
    by (simp add: admitted_def sample_server_def sample_state_def new_server_state_def sample_incoming_def
        sample_world_def limiter_Allow_def sample_limits_def)
qed

definition sample_user :: user where
  "sample_user = \<lparr>u_ID = ''alice'', u_Permissions = [''writer'']\<rparr>"

lemma sample_entitled:
  "op \<in> {AuthKeysCreate, AuthKeysRead} \<Longrightarrow>
   entitled sample_server (caller (sample_incoming ''CreateKey'') (sample_claims ''t1'')) op (cq_RequesterContext sample_create) sample_user"
  by (auto simp: entitled_def caller_def sample_server_def sample_roles_def sample_claims_def sample_user_def
      identity_ok_def sample_create_def sample_requester_def GetClientIdentity_def role_ops_def)

lemma sample_state_facts:
  "x_world sample_state = sample_world" "no_denials (x_policies sample_state)"
  by (simp_all add: sample_state_def new_server_state_def no_denials_def NewPolicyCache_def cache_New_def
      cache_Get_def WithDefaultTTL_def WithCleanupInterval_def)

lemma sample_server_service:
  "v_KeyService sample_server = polykey_service sample_env sample_crypto sample_aws (\<lambda>_. ''NAME'') sample_master
     True True ''arn'' ''local''"
  by (simp add: sample_server_def sample_service_def)

lemmas sample_state_inv = sample_inv [folded sample_state_facts(1)] sample_healthy [folded sample_state_facts(1)]
  sample_state_facts(2)

lemmas sample_state_fresh = sample_fresh [folded sample_state_facts(1)]

lemma sample_served:
  "\<exists>resp st1. serve sample_server (sample_incoming ''CreateKey'') (CreateKeyRequest sample_create) sample_state =
    (Inr (Some (CreateKeyResponse resp)), st1)"
  using served_create [OF sample_server_service sample_state_inv sample_sources sample_creatable sample_state_fresh
      _ sample_admitted, of sample_user] sample_entitled by blast

lemma sample_revoke:
  "\<exists>s1 ts2 w2. TokenManager_Revoke sample_jwt ''t1'' (NewInMemoryTokenStore, sample_world) = (None, s1) \<and>
    TokenManager_Revoke sample_jwt ''xt1'' s1 = (None, ts2, w2)"
  by (simp add: TokenManager_Revoke_def sample_jwt_sel forged_def sample_claims_def Let_def sample_world_def
      second_def minute_def AuditLog_def)

lemma sample_authenticates:
  "\<exists>res w'. AuthService_Authenticate sample_env sample_jwt (v_bcrypt sample_server) sample_clients (60 * minute)
      ''alice'' ''secret'' sample_world = (Inr res, w') \<and> ar_AccessToken res \<noteq> ''''"
proof -
  have "length (KeyID_String canonical_uuid_lib (KeyID 1)) = 36"
    using canonical_uuid_lib_ok by (simp add: uuid_lib_ok_def KeyID_String_def)
  then have "\<not> forged (KeyID_String canonical_uuid_lib (KeyID 1)) \<and> KeyID_String canonical_uuid_lib (KeyID 1) \<noteq> ''''"
    by (auto simp: forged_def)
  then show ?thesis
    by (simp add: AuthService_Authenticate_def FindClientByID_def sample_clients_def sample_server_def GenerateToken_def
        next_draw_def sample_jwt_sel signable_def sample_world_def sample_env_def)
qed

end
