(* ===== verification/S3Storage.thy ===== *)
theory S3Storage
  imports Domain
begin

text \<open>
  The object-store repository of \<^verbatim>\<open>internal/infra/persistence/s3_storage.go\<close>.  A key version is a JSON
  object under \<^verbatim>\<open>keys/<id>/v<n>.json\<close>, the latest one once more under \<^verbatim>\<open>keys/<id>/latest.json\<close>.

  The S3 client is a parameter: operations on an abstract service state \<open>'s\<close>, whose bucket is seen
  through a map from paths to bodies of type \<open>'j\<close>.  So are JSON and the names of the generated
  status enumeration.  Every operation takes the time of its call.
\<close>

section \<open>The third-party parts\<close>

datatype s3_error = S3NoSuchKey | S3NotFound | S3Failure string

definition s3_text :: "s3_error \<Rightarrow> go_error" where
  "s3_text e = Plain (case e of S3NoSuchKey \<Rightarrow> ''NoSuchKey'' | S3NotFound \<Rightarrow> ''NotFound'' | S3Failure s \<Rightarrow> s)"

text \<open>
  A listing is the sequence of its pages, as the paginator delivers them; a page may fail.
\<close>

record ('s, 'j) s3_client =
  s3_GetObject :: "string \<Rightarrow> 's \<Rightarrow> (s3_error + 'j) \<times> 's"
  s3_PutObject :: "string \<Rightarrow> 'j \<Rightarrow> 's \<Rightarrow> (s3_error + unit) \<times> 's"
  s3_DeleteObject :: "string \<Rightarrow> 's \<Rightarrow> (s3_error + unit) \<times> 's"
  s3_HeadObject :: "string \<Rightarrow> 's \<Rightarrow> (s3_error + unit) \<times> 's"
  s3_HeadBucket :: "'s \<Rightarrow> (s3_error + unit) \<times> 's"
  s3_ListContents :: "string \<Rightarrow> 's \<Rightarrow> (s3_error + string list) list"
  s3_ListPrefixes :: "string \<Rightarrow> 's \<Rightarrow> (s3_error + string list) list"

record s3KeyObject =
  o_ID :: string
  o_EncryptedDEK :: bytes
  o_Metadata :: "key_metadata option"
  o_Version :: int
  o_Status :: proto_enum
  o_CreatedAt :: int
  o_UpdatedAt :: int

record 'j json_codec =
  js_Marshal :: "s3KeyObject \<Rightarrow> go_error + 'j"
  js_Decode :: "'j \<Rightarrow> go_error + s3KeyObject"

record status_enum =
  KeyStatus_value :: "string \<Rightarrow> proto_enum"
  KeyStatus_name :: "proto_enum \<Rightarrow> string"

record ('s, 'j) s3_storage =
  st_client :: "('s, 'j) s3_client"
  st_json :: "'j json_codec"
  st_status :: status_enum
  st_uuid :: uuid_lib

section \<open>Go's int32 and Unix times\<close>

definition int32 :: "int \<Rightarrow> int" where
  "int32 x = signed_take_bit 31 x"

definition unix_seconds :: "time \<Rightarrow> int" where "unix_seconds t = t div second"

definition unix_time :: "int \<Rightarrow> time" where "unix_time s = s * second"

section \<open>The repository\<close>

definition latest_path :: "uuid_lib \<Rightarrow> key_id \<Rightarrow> string" where
  "latest_path L i = ''keys/'' @ KeyID_String L i @ ''/latest.json''"

definition version_path :: "uuid_lib \<Rightarrow> key_id \<Rightarrow> int \<Rightarrow> string" where
  "version_path L i v = ''keys/'' @ KeyID_String L i @ ''/v'' @ itoa v @ ''.json''"

definition decode_object :: "uuid_lib \<Rightarrow> status_enum \<Rightarrow> s3KeyObject \<Rightarrow> go_error + key" where
  "decode_object L N keyObj =
     (case KeyIDFromString L (o_ID keyObj) of
        Inl err \<Rightarrow> Inl err
      | Inr i \<Rightarrow>
          Inr \<lparr>k_ID = i, k_Version = o_Version keyObj, k_Metadata = o_Metadata keyObj,
               k_EncryptedDEK = o_EncryptedDEK keyObj, k_Status = KeyStatus_name N (o_Status keyObj),
               k_Tier = '''', k_CreatedAt = unix_time (o_CreatedAt keyObj),
               k_UpdatedAt = unix_time (o_UpdatedAt keyObj), k_RevokedAt = None\<rparr>)"

definition getKeyFromPath :: "('s, 'j) s3_storage \<Rightarrow> string \<Rightarrow> 's \<Rightarrow> (go_error + key) \<times> 's" where
  "getKeyFromPath S path s =
     (case s3_GetObject (st_client S) path s of
        (Inl err, s1) \<Rightarrow> (Inl (wrapf ''failed to get key object from S3'' (s3_text err)), s1)
      | (Inr body, s1) \<Rightarrow>
          (case js_Decode (st_json S) body of
             Inl err \<Rightarrow> (Inl (wrapf ''failed to decode key object from S3'' err), s1)
           | Inr keyObj \<Rightarrow> (decode_object (st_uuid S) (st_status S) keyObj, s1)))"

definition s3_GetKey :: "('s, 'j) s3_storage \<Rightarrow> key_id \<Rightarrow> 's \<Rightarrow> (go_error + key) \<times> 's" where
  "s3_GetKey S i s = getKeyFromPath S (latest_path (st_uuid S) i) s"

definition s3_GetKeyByVersion :: "('s, 'j) s3_storage \<Rightarrow> key_id \<Rightarrow> int \<Rightarrow> 's \<Rightarrow> (go_error + key) \<times> 's" where
  "s3_GetKeyByVersion S i v s = getKeyFromPath S (version_path (st_uuid S) i v) s"

definition s3_GetKeyMetadata ::
  "('s, 'j) s3_storage \<Rightarrow> key_id \<Rightarrow> 's \<Rightarrow> (go_error + key_metadata option) \<times> 's" where
  "s3_GetKeyMetadata S i s =
     (case s3_GetKey S i s of (Inl err, s1) \<Rightarrow> (Inl err, s1) | (Inr k, s1) \<Rightarrow> (Inr (k_Metadata k), s1))"

definition s3_GetKeyMetadataByVersion ::
  "('s, 'j) s3_storage \<Rightarrow> key_id \<Rightarrow> int \<Rightarrow> 's \<Rightarrow> (go_error + key_metadata option) \<times> 's" where
  "s3_GetKeyMetadataByVersion S i v s =
     (case s3_GetKeyByVersion S i v s of (Inl err, s1) \<Rightarrow> (Inl err, s1) | (Inr k, s1) \<Rightarrow> (Inr (k_Metadata k), s1))"

definition key_object :: "uuid_lib \<Rightarrow> status_enum \<Rightarrow> key \<Rightarrow> s3KeyObject" where
  "key_object L N k =
     \<lparr>o_ID = KeyID_String L (k_ID k), o_EncryptedDEK = k_EncryptedDEK k, o_Metadata = k_Metadata k,
      o_Version = k_Version k, o_Status = KeyStatus_value N (k_Status k),
      o_CreatedAt = unix_seconds (k_CreatedAt k), o_UpdatedAt = unix_seconds (k_UpdatedAt k)\<rparr>"

definition putKey :: "('s, 'j) s3_storage \<Rightarrow> key \<Rightarrow> 's \<Rightarrow> (go_error + unit) \<times> 's" where
  "putKey S k s =
     (case js_Marshal (st_json S) (key_object (st_uuid S) (st_status S) k) of
        Inl err \<Rightarrow> (Inl (wrapf ''failed to marshal key object'' err), s)
      | Inr data \<Rightarrow>
          (let versionPath = version_path (st_uuid S) (k_ID k) (k_Version k);
               latestPath = latest_path (st_uuid S) (k_ID k)
           in case s3_PutObject (st_client S) versionPath data s of
                (Inl err, s1) \<Rightarrow> (Inl (wrapf ''failed to put versioned key object to S3'' (s3_text err)), s1)
              | (Inr _, s1) \<Rightarrow>
                  (case s3_PutObject (st_client S) latestPath data s1 of
                     (Inl err, s2) \<Rightarrow>
                       (Inl (wrapf ''failed to put latest key object to S3'' (s3_text err)),
                        snd (s3_DeleteObject (st_client S) versionPath s2))
                   | (Inr _, s2) \<Rightarrow> (Inr (), s2))))"

definition s3_CreateKey :: "('s, 'j) s3_storage \<Rightarrow> key \<Rightarrow> 's \<Rightarrow> (go_error + unit) \<times> 's" where
  "s3_CreateKey S k s = putKey S k s"

fun s3_CreateBatchKeys :: "('s, 'j) s3_storage \<Rightarrow> key list \<Rightarrow> 's \<Rightarrow> (go_error + unit) \<times> 's" where
  "s3_CreateBatchKeys S [] s = (Inr (), s)"
| "s3_CreateBatchKeys S (k # ks) s =
     (case putKey S k s of (Inl err, s1) \<Rightarrow> (Inl err, s1) | (Inr _, s1) \<Rightarrow> s3_CreateBatchKeys S ks s1)"

text \<open>A loop that logs the items that fail and goes on with the next.\<close>

fun collect :: "('a \<Rightarrow> 's \<Rightarrow> (go_error + 'b) \<times> 's) \<Rightarrow> 'a list \<Rightarrow> 's \<Rightarrow> 'b list \<times> 's" where
  "collect f [] s = ([], s)"
| "collect f (x # xs) s =
     (case f x s of
        (Inl _, s1) \<Rightarrow> collect f xs s1
      | (Inr y, s1) \<Rightarrow> (case collect f xs s1 of (ys, s2) \<Rightarrow> (y # ys, s2)))"

text \<open>The pages of a listing: the first that fails ends it.\<close>

fun over_pages ::
  "string \<Rightarrow> ('a \<Rightarrow> 's \<Rightarrow> (go_error + 'b) \<times> 's) \<Rightarrow> (s3_error + 'a list) list \<Rightarrow> 's \<Rightarrow> (go_error + 'b list) \<times> 's" where
  "over_pages msg f [] s = (Inr [], s)"
| "over_pages msg f (Inl err # ps) s = (Inl (wrapf msg (s3_text err)), s)"
| "over_pages msg f (Inr xs # ps) s =
     (case collect f xs s of
        (ys, s1) \<Rightarrow>
          (case over_pages msg f ps s1 of
             (Inl err, s2) \<Rightarrow> (Inl err, s2)
           | (Inr zs, s2) \<Rightarrow> (Inr (ys @ zs), s2)))"

definition trim_prefix :: "string \<Rightarrow> string \<Rightarrow> string" where
  "trim_prefix p s = (if is_prefix p s then drop (length p) s else s)"

definition trim_suffix :: "string \<Rightarrow> string \<Rightarrow> string" where
  "trim_suffix p s = (if is_prefix (rev p) (rev s) then take (length s - length p) s else s)"

definition list_entry :: "('s, 'j) s3_storage \<Rightarrow> string \<Rightarrow> 's \<Rightarrow> (go_error + key) \<times> 's" where
  "list_entry S prefix s =
     (case KeyIDFromString (st_uuid S) (trim_suffix ''/'' (trim_prefix ''keys/'' prefix)) of
        Inl err \<Rightarrow> (Inl err, s)
      | Inr keyID \<Rightarrow> s3_GetKey S keyID s)"

text \<open>The cursor and the limit are not used.\<close>

definition s3_ListKeys ::
  "('s, 'j) s3_storage \<Rightarrow> time option \<Rightarrow> int \<Rightarrow> 's \<Rightarrow> (go_error + key list) \<times> 's" where
  "s3_ListKeys S lastCreatedAt limit s =
     over_pages ''failed to list objects from S3'' (list_entry S) (s3_ListPrefixes (st_client S) ''keys/'' s) s"

definition s3_UpdateKeyMetadata ::
  "('s, 'j) s3_storage \<Rightarrow> time \<Rightarrow> key_id \<Rightarrow> key_metadata option \<Rightarrow> 's \<Rightarrow> (go_error + unit) \<times> 's" where
  "s3_UpdateKeyMetadata S now i md s =
     (case s3_GetKey S i s of
        (Inl err, s1) \<Rightarrow> (Inl (wrapf ''failed to get key for update'' err), s1)
      | (Inr latestKey, s1) \<Rightarrow> putKey S (latestKey\<lparr>k_Metadata := md, k_UpdatedAt := now\<rparr>) s1)"

definition rotated_key :: "time \<Rightarrow> key_id \<Rightarrow> bytes \<Rightarrow> key \<Rightarrow> key" where
  "rotated_key now i dek latestKey =
     \<lparr>k_ID = i, k_Version = int32 (k_Version latestKey + 1), k_Metadata = k_Metadata latestKey,
      k_EncryptedDEK = dek, k_Status = KeyStatusActive, k_Tier = '''', k_CreatedAt = now, k_UpdatedAt = now,
      k_RevokedAt = None\<rparr>"

definition s3_RotateKey ::
  "('s, 'j) s3_storage \<Rightarrow> time \<Rightarrow> key_id \<Rightarrow> bytes \<Rightarrow> 's \<Rightarrow> (go_error + key) \<times> 's" where
  "s3_RotateKey S now i dek s =
     (case s3_GetKey S i s of
        (Inl err, s1) \<Rightarrow> (Inl (wrapf ''failed to get key for rotation'' err), s1)
      | (Inr latestKey, s1) \<Rightarrow>
          (let rotatedKey = rotated_key now i dek latestKey
           in case putKey S rotatedKey s1 of
                (Inl err, s2) \<Rightarrow> (Inl (wrapf ''failed to create new key version during rotation'' err), s2)
              | (Inr _, s2) \<Rightarrow> (Inr rotatedKey, s2)))"

definition s3_RevokeKey :: "('s, 'j) s3_storage \<Rightarrow> time \<Rightarrow> key_id \<Rightarrow> 's \<Rightarrow> (go_error + unit) \<times> 's" where
  "s3_RevokeKey S now i s =
     (case s3_GetKey S i s of
        (Inl err, s1) \<Rightarrow> (Inl (wrapf ''failed to get key for revocation'' err), s1)
      | (Inr latestKey, s1) \<Rightarrow> putKey S (latestKey\<lparr>k_Status := KeyStatusRevoked, k_UpdatedAt := now\<rparr>) s1)"

text \<open>\<^verbatim>\<open>sort.Slice\<close> leaves the order of equal versions open; here they keep the order of the listing.\<close>

definition s3_GetKeyVersions :: "('s, 'j) s3_storage \<Rightarrow> key_id \<Rightarrow> 's \<Rightarrow> (go_error + key list) \<times> 's" where
  "s3_GetKeyVersions S i s =
     (case over_pages ''failed to list objects from S3 for versions'' (getKeyFromPath S)
             (s3_ListContents (st_client S) (''keys/'' @ KeyID_String (st_uuid S) i @ ''/v'') s) s of
        (Inl err, s1) \<Rightarrow> (Inl err, s1)
      | (Inr versions, s1) \<Rightarrow> (Inr (sort_key (\<lambda>k. - k_Version k) versions), s1))"

definition s3_Exists :: "('s, 'j) s3_storage \<Rightarrow> key_id \<Rightarrow> 's \<Rightarrow> (go_error + bool) \<times> 's" where
  "s3_Exists S i s =
     (case s3_HeadObject (st_client S) (latest_path (st_uuid S) i) s of
        (Inl err, s1) \<Rightarrow> (if err = S3NoSuchKey then Inr False else Inl (s3_text err), s1)
      | (Inr _, s1) \<Rightarrow> (Inr True, s1))"

definition s3_GetBatchKeys :: "('s, 'j) s3_storage \<Rightarrow> key_id list \<Rightarrow> 's \<Rightarrow> (go_error + key list) \<times> 's" where
  "s3_GetBatchKeys S ids s = (case collect (s3_GetKey S) ids s of (ks, s1) \<Rightarrow> (Inr ks, s1))"

definition s3_GetBatchKeyMetadata ::
  "('s, 'j) s3_storage \<Rightarrow> key_id list \<Rightarrow> 's \<Rightarrow> (go_error + key_metadata option list) \<times> 's" where
  "s3_GetBatchKeyMetadata S ids s = (case collect (s3_GetKeyMetadata S) ids s of (ms, s1) \<Rightarrow> (Inr ms, s1))"

definition s3_RevokeBatchKeys :: "('s, 'j) s3_storage \<Rightarrow> time \<Rightarrow> key_id list \<Rightarrow> 's \<Rightarrow> (go_error + unit) \<times> 's" where
  "s3_RevokeBatchKeys S now ids s = (case collect (s3_RevokeKey S now) ids s of (_, s1) \<Rightarrow> (Inr (), s1))"

definition s3_UpdateBatchKeyMetadata ::
  "('s, 'j) s3_storage \<Rightarrow> time \<Rightarrow> key list \<Rightarrow> 's \<Rightarrow> (go_error + unit) \<times> 's" where
  "s3_UpdateBatchKeyMetadata S now updates s =
     (case collect (\<lambda>k. s3_UpdateKeyMetadata S now (k_ID k) (k_Metadata k)) updates s of (_, s1) \<Rightarrow> (Inr (), s1))"

definition s3_HealthCheck :: "('s, 'j) s3_storage \<Rightarrow> 's \<Rightarrow> go_error option \<times> 's" where
  "s3_HealthCheck S s =
     (case s3_HeadBucket (st_client S) s of
        (Inl err, s1) \<Rightarrow> (Some (wrapf ''S3 health check failed'' (s3_text err)), s1)
      | (Inr _, s1) \<Rightarrow> (None, s1))"

section \<open>Documented behaviour of the third-party parts\<close>

text \<open>
  S3 is strongly consistent.  A write that reports an error may or may not have taken effect.  A
  \<^verbatim>\<open>HeadObject\<close> of a missing object has no body to carry the code \<^verbatim>\<open>NoSuchKey\<close>: it fails with
  \<^verbatim>\<open>NotFound\<close>.  A complete listing names the stored paths with the prefix.
\<close>

definition s3_ok :: "('s, 'j) s3_client \<Rightarrow> ('s \<Rightarrow> string \<rightharpoonup> 'j) \<Rightarrow> bool" where
  "s3_ok L view \<longleftrightarrow>
     (\<forall>p s r s'. s3_GetObject L p s = (r, s') \<longrightarrow> view s' = view s \<and> (\<forall>b. r = Inr b \<longrightarrow> view s p = Some b)) \<and>
     (\<forall>p b s r s'. s3_PutObject L p b s = (r, s') \<longrightarrow> view s' \<in> {view s, (view s)(p \<mapsto> b)} \<and>
        (r = Inr () \<longrightarrow> view s' = (view s)(p \<mapsto> b))) \<and>
     (\<forall>p s r s'. s3_DeleteObject L p s = (r, s') \<longrightarrow> view s' \<in> {view s, (view s)(p := None)} \<and>
        (r = Inr () \<longrightarrow> view s' = (view s)(p := None))) \<and>
     (\<forall>p s r s'. s3_HeadObject L p s = (r, s') \<longrightarrow> view s' = view s \<and> r \<noteq> Inl S3NoSuchKey \<and>
        (r = Inr () \<longrightarrow> view s p \<noteq> None)) \<and>
     (\<forall>p s cs. s3_ListContents L p s = map Inr cs \<longrightarrow> set (concat cs) = {q \<in> dom (view s). is_prefix p q})"

lemma s3_okD:
  assumes "s3_ok L view"
  shows "s3_GetObject L p s = (g, s') \<Longrightarrow> view s' = view s \<and> (\<forall>b. g = Inr b \<longrightarrow> view s p = Some b)"
    "s3_PutObject L p b s = (r, s') \<Longrightarrow> view s' \<in> {view s, (view s)(p \<mapsto> b)} \<and> (r = Inr () \<longrightarrow> view s' = (view s)(p \<mapsto> b))"
    "s3_DeleteObject L p s = (r, s') \<Longrightarrow> view s' \<in> {view s, (view s)(p := None)} \<and> (r = Inr () \<longrightarrow> view s' = (view s)(p := None))"
    "s3_HeadObject L p s = (r, s') \<Longrightarrow> view s' = view s \<and> r \<noteq> Inl S3NoSuchKey \<and> (r = Inr () \<longrightarrow> view s p \<noteq> None)"
proof -
  note law = assms [unfolded s3_ok_def]
  show "s3_GetObject L p s = (g, s') \<Longrightarrow> view s' = view s \<and> (\<forall>b. g = Inr b \<longrightarrow> view s p = Some b)"
    using law [THEN conjunct1] by blast
  show "s3_PutObject L p b s = (r, s') \<Longrightarrow> view s' \<in> {view s, (view s)(p \<mapsto> b)} \<and> (r = Inr () \<longrightarrow> view s' = (view s)(p \<mapsto> b))"
    using law [THEN conjunct2, THEN conjunct1] by blast
  show "s3_DeleteObject L p s = (r, s') \<Longrightarrow> view s' \<in> {view s, (view s)(p := None)} \<and> (r = Inr () \<longrightarrow> view s' = (view s)(p := None))"
    using law [THEN conjunct2, THEN conjunct2, THEN conjunct1] by blast
  show "s3_HeadObject L p s = (r, s') \<Longrightarrow> view s' = view s \<and> r \<noteq> Inl S3NoSuchKey \<and> (r = Inr () \<longrightarrow> view s p \<noteq> None)"
    using law [THEN conjunct2, THEN conjunct2, THEN conjunct2, THEN conjunct1] by blast
qed

definition json_codec_ok :: "'j json_codec \<Rightarrow> bool" where
  "json_codec_ok J \<longleftrightarrow> (\<forall>obj b. js_Marshal J obj = Inr b \<longrightarrow> js_Decode J b = Inr obj)"

text \<open>
  The names of the generated enumeration all start with \<^verbatim>\<open>KEY_STATUS_\<close>; a map lookup that misses gives 0.
\<close>

definition status_enum_ok :: "status_enum \<Rightarrow> bool" where
  "status_enum_ok N \<longleftrightarrow> (\<forall>s. \<not> is_prefix ''KEY_STATUS_'' s \<longrightarrow> KeyStatus_value N s = 0) \<and>
     KeyStatus_name N 0 = ''KEY_STATUS_UNSPECIFIED''"

definition storage_ok :: "('s, 'j) s3_storage \<Rightarrow> ('s \<Rightarrow> string \<rightharpoonup> 'j) \<Rightarrow> bool" where
  "storage_ok S view \<longleftrightarrow> s3_ok (st_client S) view \<and> json_codec_ok (st_json S) \<and> uuid_lib_ok (st_uuid S)"

section \<open>Paths are unambiguous\<close>

lemma version_path_neq_latest: "uuid_lib_ok L \<Longrightarrow> version_path L i v \<noteq> latest_path L j"
  by (auto simp: version_path_def latest_path_def length_KeyID_String append_eq_append_conv)

lemma latest_path_inj: "uuid_lib_ok L \<Longrightarrow> latest_path L i = latest_path L j \<longleftrightarrow> i = j"
  by (auto simp: latest_path_def KeyID_String_inj)

lemma version_path_inj:
  assumes "uuid_lib_ok L"
  shows "version_path L i v = version_path L j u \<longleftrightarrow> i = j \<and> v = u"
proof
  assume eq: "version_path L i v = version_path L j u"
  have "length (KeyID_String L i) = length (KeyID_String L j)" using assms by (simp add: length_KeyID_String)
  with eq have "KeyID_String L i = KeyID_String L j" "itoa v = itoa u" by (auto simp: version_path_def)
  then show "i = j \<and> v = u" using assms itoa_inj by (simp add: KeyID_String_inj)
qed simp

section \<open>What is stored\<close>

text \<open>What reading back a stored key gives: whole seconds, no tier, and the status as the enumeration sees it.\<close>

definition stored_form :: "status_enum \<Rightarrow> key \<Rightarrow> key" where
  "stored_form N k = k\<lparr>k_Status := KeyStatus_name N (KeyStatus_value N (k_Status k)), k_Tier := '''',
     k_CreatedAt := unix_time (unix_seconds (k_CreatedAt k)), k_UpdatedAt := unix_time (unix_seconds (k_UpdatedAt k)),
     k_RevokedAt := None\<rparr>"

lemma decode_key_object: "uuid_lib_ok L \<Longrightarrow> decode_object L N (key_object L N k) = Inr (stored_form N k)"
  by (simp add: decode_object_def key_object_def stored_form_def KeyID_roundtrip)

text \<open>The key object at a path, as the repository reads it.\<close>

definition holds :: "('s, 'j) s3_storage \<Rightarrow> (string \<rightharpoonup> 'j) \<Rightarrow> string \<Rightarrow> key \<Rightarrow> bool" where
  "holds S m p k \<longleftrightarrow> (\<exists>b obj. m p = Some b \<and> js_Decode (st_json S) b = Inr obj \<and>
     decode_object (st_uuid S) (st_status S) obj = Inr k)"

lemma holds_unique: "holds S m p k \<Longrightarrow> holds S m p k' \<Longrightarrow> k = k'"
  by (auto simp: holds_def)

lemma getKeyFromPath_reads:
  assumes "storage_ok S view" "getKeyFromPath S p s = (r, s')"
  shows "view s' = view s \<and> (\<forall>k. r = Inr k \<longrightarrow> holds S (view s) p k)"
proof -
  obtain g s1 where g: "s3_GetObject (st_client S) p s = (g, s1)" by fastforce
  have "view s1 = view s \<and> (\<forall>b. g = Inr b \<longrightarrow> view s p = Some b)"
    using s3_okD(1) [where L = "st_client S" and view = view, OF _ g] assms(1) by (simp add: storage_ok_def)
  then show ?thesis using assms(2) g by (auto simp: getKeyFromPath_def holds_def split: sum.splits)
qed

text \<open>The outcomes of a write.\<close>

lemma putKey_cases:
  assumes ok: "storage_ok S view" and p: "putKey S k s = (r, s')"
  obtains (marshal) e where "r = Inl e" "s' = s"
  | (version) e b where "r = Inl e" "js_Marshal (st_json S) (key_object (st_uuid S) (st_status S) k) = Inr b"
      "view s' \<in> {view s, (view s)(version_path (st_uuid S) (k_ID k) (k_Version k) \<mapsto> b)}"
  | (latest) e b m where "r = Inl e" "js_Marshal (st_json S) (key_object (st_uuid S) (st_status S) k) = Inr b"
      "m \<in> {(view s)(version_path (st_uuid S) (k_ID k) (k_Version k) \<mapsto> b),
        (view s)(version_path (st_uuid S) (k_ID k) (k_Version k) \<mapsto> b, latest_path (st_uuid S) (k_ID k) \<mapsto> b)}"
      "view s' \<in> {m, m(version_path (st_uuid S) (k_ID k) (k_Version k) := None)}"
  | (stored) b where "r = Inr ()" "js_Marshal (st_json S) (key_object (st_uuid S) (st_status S) k) = Inr b"
      "view s' = (view s)(version_path (st_uuid S) (k_ID k) (k_Version k) \<mapsto> b, latest_path (st_uuid S) (k_ID k) \<mapsto> b)"
proof -
  let ?v = "version_path (st_uuid S) (k_ID k) (k_Version k)" and ?l = "latest_path (st_uuid S) (k_ID k)"
  have c: "s3_ok (st_client S) view" using ok by (simp add: storage_ok_def)
  show thesis
  proof (cases "js_Marshal (st_json S) (key_object (st_uuid S) (st_status S) k)")
    case (Inl e)
    then show thesis using p marshal by (auto simp: putKey_def)
  next
    case b: (Inr b)
    obtain r1 s1 where p1: "s3_PutObject (st_client S) ?v b s = (r1, s1)" by fastforce
    obtain r2 s2 where p2: "s3_PutObject (st_client S) ?l b s1 = (r2, s2)" by fastforce
    obtain r3 s3 where p3: "s3_DeleteObject (st_client S) ?v s2 = (r3, s3)" by fastforce
    note put1 = s3_okD(2) [OF c p1] and put2 = s3_okD(2) [OF c p2] and del = s3_okD(3) [OF c p3]
    show thesis
    proof (cases r1)
      case (Inl e)
      then show thesis using p b p1 put1 version [OF _ b] by (auto simp: putKey_def)
    next
      case r1: (Inr u)
      show thesis
      proof (cases r2)
        case (Inl e)
        then show thesis using p b p1 p2 p3 r1 put1 put2 del latest [OF _ b, of _ "view s2"]
          by (auto simp: putKey_def)
      next
        case (Inr u)
        then show thesis using p b p1 p2 r1 put1 put2 stored [OF _ b] by (auto simp: putKey_def)
      qed
    qed
  qed
qed

text \<open>A write that succeeded stored the key at both paths and left all others alone.\<close>

lemma putKey_done:
  assumes ok: "storage_ok S view" and p: "putKey S k s = (Inr u, s')"
  shows "holds S (view s') (version_path (st_uuid S) (k_ID k) (k_Version k)) (stored_form (st_status S) k)"
    "holds S (view s') (latest_path (st_uuid S) (k_ID k)) (stored_form (st_status S) k)"
    "q \<noteq> version_path (st_uuid S) (k_ID k) (k_Version k) \<Longrightarrow> q \<noteq> latest_path (st_uuid S) (k_ID k) \<Longrightarrow>
      view s' q = view s q"
proof -
  have L: "uuid_lib_ok (st_uuid S)" and J: "json_codec_ok (st_json S)" using ok by (simp_all add: storage_ok_def)
  from p obtain b where b: "js_Marshal (st_json S) (key_object (st_uuid S) (st_status S) k) = Inr b"
    "view s' = (view s)(version_path (st_uuid S) (k_ID k) (k_Version k) \<mapsto> b, latest_path (st_uuid S) (k_ID k) \<mapsto> b)"
    by (cases rule: putKey_cases [OF ok p]) auto
  have dec: "js_Decode (st_json S) b = Inr (key_object (st_uuid S) (st_status S) k)"
    using J b(1) by (simp add: json_codec_ok_def)
  show "holds S (view s') (version_path (st_uuid S) (k_ID k) (k_Version k)) (stored_form (st_status S) k)"
    "holds S (view s') (latest_path (st_uuid S) (k_ID k)) (stored_form (st_status S) k)"
    using b(2) dec decode_key_object [OF L] version_path_neq_latest [OF L] by (simp_all add: holds_def)
  show "q \<noteq> version_path (st_uuid S) (k_ID k) (k_Version k) \<Longrightarrow> q \<noteq> latest_path (st_uuid S) (k_ID k) \<Longrightarrow>
      view s' q = view s q"
    using b(2) by simp
qed

text \<open>Whatever the outcome, a write touches the two paths of its key only.\<close>

lemma putKey_frame:
  assumes "storage_ok S view" "putKey S k s = (r, s')"
    "q \<noteq> version_path (st_uuid S) (k_ID k) (k_Version k)" "q \<noteq> latest_path (st_uuid S) (k_ID k)"
  shows "view s' q = view s q"
  using assms(3,4) by (cases rule: putKey_cases [OF assms(1,2)]) auto

section \<open>The operations\<close>

lemma s3_GetKey_id:
  assumes "storage_ok S view" "s3_GetKey S i s = (Inr k, s1)"
  shows "view s1 = view s" "holds S (view s) (latest_path (st_uuid S) i) k"
  using getKeyFromPath_reads [OF assms(1) assms(2) [unfolded s3_GetKey_def]] by auto

text \<open>A rotation leaves the object of the previous version as it was.\<close>

lemma s3_rotate_done:
  assumes ok: "storage_ok S view" and r: "s3_RotateKey S now i dek s = (Inr k, s')"
    and old: "holds S (view s) (latest_path (st_uuid S) i) old" and v: "- (2 ^ 31) \<le> k_Version old" "k_Version old < 2 ^ 31 - 1"
  shows "k = rotated_key now i dek old \<and> k_Version k = k_Version old + 1 \<and>
    holds S (view s') (latest_path (st_uuid S) i) (stored_form (st_status S) k) \<and>
    holds S (view s') (version_path (st_uuid S) i (k_Version old + 1)) (stored_form (st_status S) k) \<and>
    view s' (version_path (st_uuid S) i (k_Version old)) = view s (version_path (st_uuid S) i (k_Version old))"
proof -
  have L: "uuid_lib_ok (st_uuid S)" using ok by (simp add: storage_ok_def)
  obtain cur s1 where g: "s3_GetKey S i s = (Inr cur, s1)" and p: "putKey S (rotated_key now i dek cur) s1 = (Inr (), s')"
    and k: "k = rotated_key now i dek cur"
    using r by (auto simp: s3_RotateKey_def Let_def split: prod.splits sum.splits)
  have cur: "cur = old" "view s1 = view s" using s3_GetKey_id [OF ok g] holds_unique old by auto
  have ver: "k_Version k = k_Version old + 1"
    using v by (simp add: k cur rotated_key_def int32_def signed_take_bit_int_eq_self)
  have id: "k_ID k = i" by (simp add: k rotated_key_def)
  note d = putKey_done [OF ok p, folded k, unfolded id ver]
  show ?thesis
    using d(1,2) d(3) [of "version_path (st_uuid S) i (k_Version old)"] k cur ver
      version_path_inj [OF L, of i "k_Version old" i "k_Version old + 1"] version_path_neq_latest [OF L] by simp
qed

text \<open>The domain's statuses are not names of the generated enumeration: they are all stored as 0.\<close>

lemma stored_status:
  assumes "status_enum_ok N" "k_Status k \<in> {KeyStatusActive, KeyStatusRotated, KeyStatusRevoked}"
  shows "k_Status (stored_form N k) = ''KEY_STATUS_UNSPECIFIED''"
  using assms by (auto simp: status_enum_ok_def stored_form_def is_prefix_def key_constants)

text \<open>
  The roll-back of a failed write removes the object of the version even if it was there before: a
  failed metadata update or revocation of version \<open>n\<close> loses \<^verbatim>\<open>v<n>.json\<close>.
\<close>

lemma s3_rollback_deletes:
  assumes ok: "storage_ok S view"
    and b: "js_Marshal (st_json S) (key_object (st_uuid S) (st_status S) k) = Inr b"
    and p1: "s3_PutObject (st_client S) (version_path (st_uuid S) (k_ID k) (k_Version k)) b s = (Inr (), s1)"
    and p2: "s3_PutObject (st_client S) (latest_path (st_uuid S) (k_ID k)) b s1 = (Inl e, s2)"
    and p3: "s3_DeleteObject (st_client S) (version_path (st_uuid S) (k_ID k) (k_Version k)) s2 = (Inr (), s3)"
  shows "(\<exists>err. putKey S k s = (Inl err, s3)) \<and> view s3 (version_path (st_uuid S) (k_ID k) (k_Version k)) = None"
proof -
  have c: "s3_ok (st_client S) view" using ok by (simp add: storage_ok_def)
  show ?thesis using s3_okD(3) [OF c p3] b p1 p2 p3 by (simp add: putKey_def Let_def)
qed

text \<open>A key that does not exist is reported as an error, never as \<open>False\<close>.\<close>

lemma s3_exists_never_false:
  assumes "storage_ok S view" "s3_Exists S i s = (r, s')"
  shows "r \<noteq> Inr False \<and> (r = Inr True \<longrightarrow> view s (latest_path (st_uuid S) i) \<noteq> None)"
proof -
  obtain h s1 where h: "s3_HeadObject (st_client S) (latest_path (st_uuid S) i) s = (h, s1)" by fastforce
  from s3_okD(4) [where L = "st_client S" and view = view, OF _ h] assms(1) have "h \<noteq> Inl S3NoSuchKey \<and> (h = Inr () \<longrightarrow> view s (latest_path (st_uuid S) i) \<noteq> None)"
    by (simp add: storage_ok_def)
  then show ?thesis using assms(2) h by (cases h) (auto simp: s3_Exists_def split: if_splits)
qed

text \<open>The versions come newest first.\<close>

lemma s3_versions_sorted:
  assumes "s3_GetKeyVersions S i s = (Inr ks, s')"
  shows "sorted (map (\<lambda>k. - k_Version k) ks)"
  using assms by (auto simp: s3_GetKeyVersions_def split: prod.splits sum.splits)

text \<open>Reading a path that holds a key fails only when the service does.\<close>

definition served :: "('s, 'j) s3_storage \<Rightarrow> string \<Rightarrow> key \<Rightarrow> 's \<Rightarrow> (go_error + key) \<times> 's" where
  "served S p k s =
     (case s3_GetObject (st_client S) p s of
        (Inl err, s1) \<Rightarrow> (Inl (wrapf ''failed to get key object from S3'' (s3_text err)), s1)
      | (Inr _, s1) \<Rightarrow> (Inr k, s1))"

lemma getKeyFromPath_served:
  assumes "storage_ok S view" "holds S (view s) p k"
  shows "getKeyFromPath S p s = served S p k s"
proof -
  obtain g s1 where g: "s3_GetObject (st_client S) p s = (g, s1)" by fastforce
  have "\<forall>b. g = Inr b \<longrightarrow> view s p = Some b"
    using s3_okD(1) [where L = "st_client S" and view = view, OF _ g] assms(1) by (simp add: storage_ok_def)
  then show ?thesis using g assms(2) by (cases g) (auto simp: getKeyFromPath_def served_def holds_def)
qed

text \<open>A revocation rewrites the two objects of the latest version with a status that is not \<open>revoked\<close>.\<close>

lemma s3_revoke_done:
  assumes ok: "storage_ok S view" and k: "holds S (view s) (latest_path (st_uuid S) i) old" "k_ID old = i"
    and r: "s3_RevokeKey S now i s = (Inr u, s1)"
  shows "holds S (view s1) (latest_path (st_uuid S) i)
    (stored_form (st_status S) (old\<lparr>k_Status := KeyStatusRevoked, k_UpdatedAt := now\<rparr>))"
proof -
  obtain cur s0 where c: "s3_GetKey S i s = (Inr cur, s0)"
    and p: "putKey S (cur\<lparr>k_Status := KeyStatusRevoked, k_UpdatedAt := now\<rparr>) s0 = (Inr u, s1)"
    using r by (auto simp: s3_RevokeKey_def split: prod.splits sum.splits)
  have "cur = old" using s3_GetKey_id(2) [OF ok c] k(1) holds_unique by blast
  then show ?thesis using putKey_done(2) [OF ok p] k(2) by simp
qed

end
