(* ===== verification/AuditTrail.thy ===== *)
theory AuditTrail
  imports Auth "HOL-Library.Multiset"
begin

text \<open>
  Auditing: the table and repository of audit events (\<^verbatim>\<open>persistence/audit_repository.go\<close>, migration
  003), the synchronous logger (\<^verbatim>\<open>infra/audit/audit_logger.go\<close>) and the structured logger
  (\<^verbatim>\<open>structured_logger.go\<close>, \<^verbatim>\<open>events.go\<close>).  What goes to \<^verbatim>\<open>log/slog\<close> is a list of log
  records.  SHA-256 and JSON are parameters of the checksum.
\<close>

section \<open>Events and log records\<close>

record audit_event =
  av_ID :: string
  av_ClientIdentity :: string
  av_Operation :: string
  av_KeyID :: string
  av_AuthDecisionID :: string
  av_Success :: bool
  av_Error :: string
  av_Timestamp :: time
  av_RequestMetadata :: "(string \<times> string) list"

datatype log_level = LevelInfo | LevelWarn | LevelError

datatype attr = AString string | ABool bool | ATime time | AInt int | AGroup "(string \<times> attr) list"

record log_record =
  lr_level :: log_level
  lr_msg :: string
  lr_attrs :: "(string \<times> attr) list"

section \<open>The table\<close>

text \<open>
  \<^verbatim>\<open>VARCHAR(255)\<close> counts characters; strings are UTF-8, whose continuation bytes are 128 to 191.  A
  zero byte is refused in any text column.
\<close>

definition char_length :: "string \<Rightarrow> nat" where
  "char_length s = length (filter (\<lambda>c. (of_char c :: nat) div 64 \<noteq> 2) s)"

definition varchar_error :: "string \<Rightarrow> go_error option" where
  "varchar_error s =
     (if CHR 0x00 \<in> set s then Some (PgError ''22021'' ''invalid byte sequence for encoding'')
      else if 255 < char_length s then Some (PgError ''22001'' ''value too long for type character varying(255)'')
      else None)"

definition row_error :: "audit_event \<Rightarrow> go_error option" where
  "row_error e =
     (case first_some varchar_error [av_ClientIdentity e, av_Operation e, av_KeyID e, av_AuthDecisionID e] of
        Some err \<Rightarrow> Some err
      | None \<Rightarrow> if CHR 0x00 \<in> set (av_Error e) then Some (PgError ''22021'' ''invalid byte sequence for encoding'') else None)"

text \<open>What the columns keep of an event.\<close>

definition audit_row :: "audit_event \<Rightarrow> audit_event" where
  "audit_row e = e\<lparr>av_Timestamp := timestamptz (av_Timestamp e), av_RequestMetadata := []\<rparr>"

type_synonym audit_table = "audit_event list"

definition sql_insert_events :: "audit_event list \<Rightarrow> audit_table \<Rightarrow> go_error + audit_table" where
  "sql_insert_events events t =
     (case first_some row_error events of
        Some err \<Rightarrow> Inl err
      | None \<Rightarrow>
          if distinct (map av_ID (t @ events)) then Inr (t @ map audit_row events)
          else Inl (PgError ''23505'' ''duplicate key value violates unique constraint''))"

definition sql_history :: "string \<Rightarrow> int \<Rightarrow> audit_table \<Rightarrow> go_error + audit_event list" where
  "sql_history keyID limit t =
     (if limit < 0 then Inl (PgError ''2201W'' ''LIMIT must not be negative'')
      else Inr (take (nat limit) (sort_key (\<lambda>e. - av_Timestamp e) (filter (\<lambda>e. av_KeyID e = keyID) t))))"

section \<open>The repository\<close>

record audit_db =
  ad_table :: audit_table
  ad_net :: "net list"

definition audit_exec :: "(audit_table \<Rightarrow> go_error + audit_table) \<Rightarrow> audit_db \<Rightarrow> go_error option \<times> audit_db" where
  "audit_exec f d =
     (let d1 = d\<lparr>ad_net := tl (ad_net d)\<rparr> in
      case (case ad_net d of [] \<Rightarrow> NetOk | n # _ \<Rightarrow> n) of
        NetErr e applied \<Rightarrow>
          (Some e, case f (ad_table d) of Inr t \<Rightarrow> if applied then d1\<lparr>ad_table := t\<rparr> else d1 | Inl _ \<Rightarrow> d1)
      | NetOk \<Rightarrow> (case f (ad_table d) of Inl e \<Rightarrow> (Some e, d1) | Inr t \<Rightarrow> (None, d1\<lparr>ad_table := t\<rparr>)))"

definition CreateAuditEvent :: "audit_event \<Rightarrow> audit_db \<Rightarrow> go_error option \<times> audit_db" where
  "CreateAuditEvent event = audit_exec (sql_insert_events [event])"

definition CreateAuditEventsBatch :: "audit_event list \<Rightarrow> audit_db \<Rightarrow> go_error option \<times> audit_db" where
  "CreateAuditEventsBatch events d =
     (if events = [] then (None, d) else audit_exec (sql_insert_events events) d)"

text \<open>
  \<open>broken\<close> is the number of rows after which the connection breaks, if it does: \<^verbatim>\<open>rows.Next\<close> then
  returns false, as at the end of the result, and \<^verbatim>\<open>rows.Err\<close> is not asked.
\<close>

definition GetAuditHistory :: "string \<Rightarrow> int \<Rightarrow> nat option \<Rightarrow> audit_db \<Rightarrow> (go_error + audit_event list) \<times> audit_db" where
  "GetAuditHistory keyID limit broken d =
     (let d1 = d\<lparr>ad_net := tl (ad_net d)\<rparr> in
      case (case ad_net d of [] \<Rightarrow> NetOk | n # _ \<Rightarrow> n) of
        NetErr e _ \<Rightarrow> (Inl e, d1)
      | NetOk \<Rightarrow>
          (case sql_history keyID limit (ad_table d) of
             Inl e \<Rightarrow> (Inl e, d1)
           | Inr rows \<Rightarrow> (Inr (case broken of None \<Rightarrow> rows | Some n \<Rightarrow> take n rows), d1)))"

section \<open>The synchronous logger\<close>

text \<open>The parts of the context the loggers read.\<close>

record audit_ctx =
  xc_UserAgent :: "string list option"  \<comment> \<open>the \<^verbatim>\<open>user-agent\<close> values; \<open>None\<close> without request metadata\<close>
  xc_PeerAddr :: "string option"
  xc_CorrelationID :: "string option"
  xc_User :: "user option"

definition extractUserAgent :: "audit_ctx \<Rightarrow> string" where
  "extractUserAgent cx = (case xc_UserAgent cx of None \<Rightarrow> ''unknown'' | Some [] \<Rightarrow> ''unknown'' | Some (ua # _) \<Rightarrow> ua)"

definition extractSourceIP :: "audit_ctx \<Rightarrow> string" where
  "extractSourceIP cx = (case xc_PeerAddr cx of None \<Rightarrow> ''unknown'' | Some a \<Rightarrow> a)"

definition CorrelationIDFromContext :: "audit_ctx \<Rightarrow> string" where
  "CorrelationIDFromContext cx = (case xc_CorrelationID cx of None \<Rightarrow> '''' | Some c \<Rightarrow> c)"

definition event_of :: "string \<Rightarrow> time \<Rightarrow> audit_entry \<Rightarrow> audit_event" where
  "event_of newID now c =
     \<lparr>av_ID = newID, av_ClientIdentity = ae_ClientIdentity c, av_Operation = ae_Operation c, av_KeyID = ae_KeyID c,
      av_AuthDecisionID = ae_AuthDecisionID c, av_Success = ae_Success c,
      av_Error = (case ae_Error c of None \<Rightarrow> '''' | Some err \<Rightarrow> error_string err), av_Timestamp = now,
      av_RequestMetadata = []\<rparr>"

definition audit_attrs :: "audit_ctx \<Rightarrow> audit_event \<Rightarrow> audit_entry \<Rightarrow> (string \<times> attr) list" where
  "audit_attrs cx event c =
     [(''audit_id'', AString (av_ID event)), (''correlation_id'', AString (CorrelationIDFromContext cx)),
      (''client_identity'', AString (ae_ClientIdentity c)), (''operation'', AString (ae_Operation c)),
      (''key_id'', AString (ae_KeyID c)), (''auth_decision_id'', AString (ae_AuthDecisionID c)),
      (''success'', ABool (ae_Success c)), (''timestamp'', ATime (av_Timestamp event))] @
     (case ae_Error c of None \<Rightarrow> [] | Some err \<Rightarrow> [(''error'', AString (error_string err))])"

record audit_sink =
  as_db :: "audit_db option"  \<comment> \<open>\<open>None\<close>: no repository\<close>
  as_log :: "log_record list"

definition Logger_AuditLog :: "audit_ctx \<Rightarrow> string \<Rightarrow> time \<Rightarrow> audit_entry \<Rightarrow> audit_sink \<Rightarrow> audit_sink" where
  "Logger_AuditLog cx newID now c a =
     (let event = (event_of newID now c)
            \<lparr>av_RequestMetadata := [(''user_agent'', extractUserAgent cx), (''source_ip'', extractSourceIP cx)]\<rparr>;
          a1 = a\<lparr>as_log := as_log a @
                 [\<lparr>lr_level = LevelInfo, lr_msg = ''audit_event'', lr_attrs = audit_attrs cx event c\<rparr>]\<rparr>
      in case as_db a of
           None \<Rightarrow> a1
         | Some d \<Rightarrow>
             (case CreateAuditEvent event d of
                (None, d1) \<Rightarrow> a1\<lparr>as_db := Some d1\<rparr>
              | (Some auditErr, d1) \<Rightarrow>
                  a1\<lparr>as_db := Some d1,
                     as_log := as_log a1 @
                       [\<lparr>lr_level = LevelError, lr_msg = ''failed to store audit event'',
                         lr_attrs = [(''audit_id'', AString (av_ID event)),
                           (''error'', AString (error_string auditErr))]\<rparr>]\<rparr>))"

section \<open>The logging interceptor\<close>

text \<open>
  \<^verbatim>\<open>UnaryLoggingInterceptor\<close> around a handler: a fresh correlation id goes into the handler's context, the
  answer is passed on as it is, and one record is logged.  \<open>elapsed\<close> is the time the handler took.
\<close>

fun status_in :: "go_error \<Rightarrow> grpc_code option" where
  "status_in (StatusError c m) = Some c"
| "status_in (Wrap m es) = first_some status_in es"
| "status_in _ = None"

definition status_of :: "go_error \<Rightarrow> grpc_code" where
  "status_of e = (case status_in e of Some c \<Rightarrow> c | None \<Rightarrow> Unknown)"

definition UnaryLoggingInterceptor ::
  "string \<Rightarrow> time \<Rightarrow> string \<Rightarrow> (audit_ctx \<Rightarrow> go_error + 'a) \<Rightarrow> audit_ctx \<Rightarrow> (go_error + 'a) \<times> log_record" where
  "UnaryLoggingInterceptor newID elapsed fullMethod handler cx =
     (let r = handler (cx\<lparr>xc_CorrelationID := Some newID\<rparr>);
          code = (case r of Inr _ \<Rightarrow> OK | Inl err \<Rightarrow> status_of err);
          attrs = [(''correlation_id'', AString newID), (''method'', AString fullMethod), (''duration'', ATime elapsed),
                   (''status_code'', AString (code_string code))]
      in (r, case r of
               Inl err \<Rightarrow> \<lparr>lr_level = LevelWarn, lr_msg = ''gRPC request failed'',
                           lr_attrs = attrs @ [(''error'', AString (error_string err))]\<rparr>
             | Inr _ \<Rightarrow> \<lparr>lr_level = LevelInfo, lr_msg = ''gRPC request completed'', lr_attrs = attrs\<rparr>))"

lemma logging_transparent:
  "fst (UnaryLoggingInterceptor newID elapsed m handler cx) = handler (cx\<lparr>xc_CorrelationID := Some newID\<rparr>)"
  by (simp add: UnaryLoggingInterceptor_def Let_def)

section \<open>The structured logger\<close>

record ActorInfo =
  ai_UserID :: string
  ai_ClientIP :: string
  ai_UserAgent :: string
  ai_SessionID :: string

record ResourceInfo =
  ri_Type :: string
  ri_ID :: string
  ri_Classification :: string
  ri_Attributes :: "(string \<times> string) list"

record 'v structured_event =
  se_ID :: string
  se_Timestamp :: time
  se_EventType :: string
  se_Actor :: "ActorInfo option"
  se_Action :: string
  se_Resource :: "ResourceInfo option"
  se_Result :: string
  se_Details :: "string \<rightharpoonup> 'v"
  se_SecurityLevel :: string
  se_Checksum :: string

record 'v KeyOperationRequest =
  ko_Operation :: string
  ko_KeyID :: string
  ko_DataClassification :: string
  ko_Result :: string
  ko_SessionID :: string
  ko_ClientIP :: string
  ko_UserAgent :: string
  ko_AdditionalContext :: "(string \<rightharpoonup> 'v) option"

definition to_lower :: "string \<Rightarrow> string" where
  "to_lower = map (\<lambda>c. let n = (of_char c :: nat) in if 65 \<le> n \<and> n \<le> 90 then char_of (n + 32) else c)"

definition determineSecurityLevel :: "string \<Rightarrow> string" where
  "determineSecurityLevel classification =
     (let c = to_lower classification in
      if c = ''restricted'' then ''high'' else if c = ''confidential'' then ''medium'' else ''low'')"

text \<open>The hash (SHA-256 in hexadecimal) of the JSON form of the fields the checksum covers.\<close>

definition checksum_fields :: "'v structured_event \<Rightarrow> (string \<times> attr) list" where
  "checksum_fields event =
     [(''id'', AString (se_ID event)), (''timestamp'', AInt (se_Timestamp event div second)),
      (''event_type'', AString (se_EventType event)), (''action'', AString (se_Action event)),
      (''result'', AString (se_Result event)), (''security_level'', AString (se_SecurityLevel event))]"

definition generateChecksum :: "((string \<times> attr) list \<Rightarrow> string) \<Rightarrow> 'v structured_event \<Rightarrow> string" where
  "generateChecksum hash_json event = hash_json (checksum_fields event)"

definition addOperationDetails :: "'v structured_event \<Rightarrow> 'v KeyOperationRequest \<Rightarrow> 'v structured_event" where
  "addOperationDetails event req =
     (case ko_AdditionalContext req of None \<Rightarrow> event | Some m \<Rightarrow> event\<lparr>se_Details := se_Details event ++ m\<rparr>)"

definition SanitizeEvent :: "'v structured_event \<Rightarrow> 'v structured_event" where
  "SanitizeEvent event = event"

definition structured_attrs :: "'v structured_event \<Rightarrow> (string \<times> attr) list" where
  "structured_attrs event =
     [(''audit_id'', AString (se_ID event)), (''event_type'', AString (se_EventType event)),
      (''action'', AString (se_Action event)), (''result'', AString (se_Result event)),
      (''security_level'', AString (se_SecurityLevel event)), (''timestamp'', ATime (se_Timestamp event))] @
     (case se_Actor event of None \<Rightarrow> []
      | Some a \<Rightarrow> [(''actor'', AGroup [(''user_id'', AString (ai_UserID a)), (''client_ip'', AString (ai_ClientIP a)),
                     (''user_agent'', AString (ai_UserAgent a))])]) @
     (case se_Resource event of None \<Rightarrow> []
      | Some r \<Rightarrow> [(''resource'', AGroup [(''type'', AString (ri_Type r)), (''id'', AString (ri_ID r)),
                     (''classification'', AString (ri_Classification r))])])"

definition logToStructuredLogger :: "'v structured_event \<Rightarrow> audit_sink \<Rightarrow> audit_sink" where
  "logToStructuredLogger event a =
     a\<lparr>as_log := as_log a @ [\<lparr>lr_level = LevelInfo, lr_msg = ''audit_event'', lr_attrs = structured_attrs event\<rparr>]\<rparr>"

definition key_operation_event ::
  "((string \<times> attr) list \<Rightarrow> string) \<Rightarrow> audit_ctx \<Rightarrow> string \<Rightarrow> time \<Rightarrow> 'v KeyOperationRequest \<Rightarrow> 'v structured_event" where
  "key_operation_event hash_json cx newID now req =
     (let event = \<lparr>se_ID = newID, se_Timestamp = now, se_EventType = ''key_operation'',
            se_Actor =
              (case xc_User cx of None \<Rightarrow> None
               | Some u \<Rightarrow> Some \<lparr>ai_UserID = u_ID u, ai_ClientIP = ko_ClientIP req, ai_UserAgent = ko_UserAgent req,
                                  ai_SessionID = ko_SessionID req\<rparr>),
            se_Action = ko_Operation req,
            se_Resource =
              (if ko_KeyID req \<noteq> ''''
               then Some \<lparr>ri_Type = ''cryptographic_key'', ri_ID = ko_KeyID req,
                          ri_Classification = ko_DataClassification req, ri_Attributes = []\<rparr>
               else None),
            se_Result = ko_Result req, se_Details = Map.empty,
            se_SecurityLevel =
              (if ko_KeyID req \<noteq> '''' then determineSecurityLevel (ko_DataClassification req) else ''''),
            se_Checksum = ''''\<rparr>;
          event1 = SanitizeEvent (addOperationDetails event req)
      in event1\<lparr>se_Checksum := generateChecksum hash_json event1\<rparr>)"

definition LogKeyOperation ::
  "((string \<times> attr) list \<Rightarrow> string) \<Rightarrow> audit_ctx \<Rightarrow> string \<Rightarrow> time \<Rightarrow> 'v KeyOperationRequest \<Rightarrow> audit_sink \<Rightarrow>
   (go_error + unit) \<times> audit_sink" where
  "LogKeyOperation hash_json cx newID now req a =
     (Inr (), logToStructuredLogger (key_operation_event hash_json cx newID now req) a)"

section \<open>The table's invariant\<close>

definition audit_table_ok :: "audit_table \<Rightarrow> bool" where
  "audit_table_ok t \<longleftrightarrow> distinct (map av_ID t) \<and> (\<forall>e \<in> set t. row_error e = None \<and> audit_row e = e)"

lemma audit_row_idem [simp]: "audit_row (audit_row e) = audit_row e"
  by (simp add: audit_row_def timestamptz_def)

lemma av_ID_audit_row [simp]: "av_ID (audit_row e) = av_ID e" "av_KeyID (audit_row e) = av_KeyID e"
  "row_error (audit_row e) = row_error e"
  by (simp_all add: audit_row_def row_error_def)

lemma first_some_None: "first_some f xs = None \<longleftrightarrow> (\<forall>x \<in> set xs. f x = None)"
  by (induction xs) (auto split: option.splits)

lemma map_av_ID_rows [simp]: "map (av_ID \<circ> audit_row) es = map av_ID es"
  by simp

lemma sql_insert_events_Inr:
  assumes "sql_insert_events events t = Inr t'"
  shows "t' = t @ map audit_row events" "\<forall>e \<in> set events. row_error e = None" "distinct (map av_ID (t @ events))"
proof -
  have "first_some row_error events = None"
    using assms by (cases "first_some row_error events") (simp_all add: sql_insert_events_def)
  then show "t' = t @ map audit_row events" "distinct (map av_ID (t @ events))"
    "\<forall>e \<in> set events. row_error e = None"
    using assms by (simp_all only: first_some_None [symmetric]) (auto simp: sql_insert_events_def split: if_splits)
qed

lemma sql_insert_events_ok:
  assumes "sql_insert_events events t = Inr t'" "audit_table_ok t"
  shows "audit_table_ok t'"
  using sql_insert_events_Inr [OF assms(1)] assms(2) by (auto simp: audit_table_ok_def)

text \<open>A write either appends all its events or leaves the table alone; a write that reports no error appended.\<close>

lemma audit_exec_table:
  assumes "audit_exec f d = (r, d')"
  shows "(ad_table d' = ad_table d \<and> r \<noteq> None) \<or> f (ad_table d) = Inr (ad_table d')"
  using assms by (cases "f (ad_table d)") (auto simp: audit_exec_def Let_def split: list.splits net.splits if_splits)

lemma audit_exec_atomic:
  assumes "audit_exec (sql_insert_events events) d = (r, d')"
  shows "(ad_table d' = ad_table d \<and> r \<noteq> None) \<or> ad_table d' = ad_table d @ map audit_row events"
    "r = None \<Longrightarrow> ad_table d' = ad_table d @ map audit_row events"
    "audit_table_ok (ad_table d) \<Longrightarrow> audit_table_ok (ad_table d')"
proof -
  note tab = audit_exec_table [OF assms] and ins = sql_insert_events_Inr(1) [of events "ad_table d" "ad_table d'"]
    and ok = sql_insert_events_ok [of events "ad_table d" "ad_table d'"]
  show "(ad_table d' = ad_table d \<and> r \<noteq> None) \<or> ad_table d' = ad_table d @ map audit_row events" using tab ins by blast
  show "r = None \<Longrightarrow> ad_table d' = ad_table d @ map audit_row events" using tab ins by blast
  show "audit_table_ok (ad_table d) \<Longrightarrow> audit_table_ok (ad_table d')" using tab ok by auto
qed

lemma CreateAuditEventsBatch_atomic:
  assumes "CreateAuditEventsBatch events d = (r, d')"
  shows "(ad_table d' = ad_table d \<and> r \<noteq> None) \<or> ad_table d' = ad_table d @ map audit_row events"
    "r = None \<Longrightarrow> ad_table d' = ad_table d @ map audit_row events"
    "audit_table_ok (ad_table d) \<Longrightarrow> audit_table_ok (ad_table d')"
proof -
  have "(events = [] \<and> r = None \<and> d' = d) \<or> audit_exec (sql_insert_events events) d = (r, d')"
    using assms by (simp add: CreateAuditEventsBatch_def split: if_splits)
  then show "(ad_table d' = ad_table d \<and> r \<noteq> None) \<or> ad_table d' = ad_table d @ map audit_row events"
    "r = None \<Longrightarrow> ad_table d' = ad_table d @ map audit_row events"
    "audit_table_ok (ad_table d) \<Longrightarrow> audit_table_ok (ad_table d')"
    using audit_exec_atomic [of events d r d'] by (elim disjE conjE; simp)+
qed

text \<open>One event the table refuses keeps its whole batch out.\<close>

lemma oversized_event_loses_batch:
  assumes "e \<in> set events" "row_error e \<noteq> None" "CreateAuditEventsBatch events d = (r, d')"
  shows "r \<noteq> None" "ad_table d' = ad_table d"
proof -
  have "first_some row_error events \<noteq> None" using assms(1,2) by (simp add: first_some_None) blast
  then obtain err where "sql_insert_events events (ad_table d) = Inl err"
    by (cases "first_some row_error events") (simp_all add: sql_insert_events_def)
  moreover have "audit_exec (sql_insert_events events) d = (r, d')"
    using assms(1,3) by (cases events) (simp_all add: CreateAuditEventsBatch_def)
  ultimately show "r \<noteq> None" "ad_table d' = ad_table d"
    using audit_exec_table [of "sql_insert_events events" d r d'] by simp_all
qed

text \<open>The history of a key: its events only, the most recent ones, newest first.\<close>

lemma GetAuditHistory_reads:
  assumes "GetAuditHistory keyID limit None d = (Inr es, d')"
  shows "ad_table d' = ad_table d" "sorted (map (\<lambda>e. - av_Timestamp e) es)" "int (length es) \<le> limit"
    "\<forall>e \<in> set es. e \<in> set (ad_table d) \<and> av_KeyID e = keyID"
    "int (length (filter (\<lambda>e. av_KeyID e = keyID) (ad_table d))) \<le> limit \<Longrightarrow>
       mset es = filter_mset (\<lambda>e. av_KeyID e = keyID) (mset (ad_table d))"
proof -
  have es: "0 \<le> limit" "ad_table d' = ad_table d"
    "es = take (nat limit) (sort_key (\<lambda>e. - av_Timestamp e) (filter (\<lambda>e. av_KeyID e = keyID) (ad_table d)))"
    using assms by (auto simp: GetAuditHistory_def sql_history_def Let_def split: list.splits net.splits if_splits)
  show "ad_table d' = ad_table d" "sorted (map (\<lambda>e. - av_Timestamp e) es)" "int (length es) \<le> limit"
    "\<forall>e \<in> set es. e \<in> set (ad_table d) \<and> av_KeyID e = keyID"
    using es by (auto simp: take_map [symmetric] sorted_wrt_take dest: in_set_takeD)
  show "int (length (filter (\<lambda>e. av_KeyID e = keyID) (ad_table d))) \<le> limit \<Longrightarrow>
       mset es = filter_mset (\<lambda>e. av_KeyID e = keyID) (mset (ad_table d))"
    using es by (simp add: mset_filter)
qed

text \<open>An event that was stored is in the history of its key.\<close>

lemma stored_event_in_history:
  assumes "CreateAuditEvent event d = (None, d1)"
    and "GetAuditHistory (av_KeyID event) limit None d2 = (Inr es, d3)" "ad_table d2 = ad_table d1"
    and "int (length (filter (\<lambda>e. av_KeyID e = av_KeyID event) (ad_table d2))) \<le> limit"
  shows "audit_row event \<in> set es"
proof -
  have "audit_row event \<in> set (ad_table d2)"
    using audit_exec_atomic(2) [of "[event]" d None d1] assms(1,3) by (simp add: CreateAuditEvent_def)
  then have "audit_row event \<in># mset es" using GetAuditHistory_reads(5) [OF assms(2,4)] by simp
  then show ?thesis by simp
qed

text \<open>The synchronous logger always leaves a log record of the call, whatever the database does.\<close>

lemma Logger_AuditLog_logs:
  "\<exists>more. as_log (Logger_AuditLog cx newID now c a) = as_log a @
     [\<lparr>lr_level = LevelInfo, lr_msg = ''audit_event'', lr_attrs = audit_attrs cx (event_of newID now c) c\<rparr>] @ more"
proof -
  let ?e = "(event_of newID now c)\<lparr>av_RequestMetadata := [(''user_agent'', extractUserAgent cx), (''source_ip'', extractSourceIP cx)]\<rparr>"
  have same: "audit_attrs cx ?e c = audit_attrs cx (event_of newID now c) c" by (simp add: audit_attrs_def)
  show ?thesis
  proof (cases "as_db a")
    case None
    then show ?thesis by (simp add: Logger_AuditLog_def Let_def same)
  next
    case (Some d)
    obtain r d1 where "CreateAuditEvent ?e d = (r, d1)" by fastforce
    then show ?thesis using Some by (cases r) (simp_all add: Logger_AuditLog_def Let_def same)
  qed
qed

text \<open>
  The checksum covers the six fields only: two events that differ in who acted, on what, or in the
  details have the same checksum.
\<close>

lemma checksum_ignores_actor:
  "generateChecksum h (event\<lparr>se_Actor := a, se_Resource := r, se_Details := m\<rparr>) = generateChecksum h event"
  by (simp add: generateChecksum_def checksum_fields_def)

lemma security_levels: "determineSecurityLevel c \<in> {''high'', ''medium'', ''low''}"
  by (simp add: determineSecurityLevel_def Let_def)

end
