(* ===== verification/AsyncAudit.thy ===== *)
theory AsyncAudit
  imports AuditTrail Steps
begin

text \<open>
  The asynchronous audit logger of \<^verbatim>\<open>infra/audit/async_audit_logger.go\<close>: a bounded channel of events
  and workers that write them to the repository in batches.  Callers, workers and the ticker run
  concurrently; \<open>async_step\<close> is their step relation, in which one turn of a worker's loop is a step.
\<close>

section \<open>State\<close>

record async_config =
  ChannelBufferSize :: int
  WorkerCount :: int
  BatchSize :: int
  BatchTimeout :: time

text \<open>A worker that has returned is \<open>None\<close>; a running one has the batch it is collecting.\<close>

record async_logger =
  al_channel :: "audit_event list"
  al_closed :: bool
  al_workers :: "audit_event list option list"
  al_db :: audit_db
  al_log :: "log_record list"

text \<open>The panics of \<^verbatim>\<open>make\<close>, \<^verbatim>\<open>WaitGroup.Add\<close> and \<^verbatim>\<open>NewTicker\<close> on sizes out of range.\<close>

definition NewAsyncAuditLogger :: "async_config \<Rightarrow> audit_db \<Rightarrow> go_error + async_logger" where
  "NewAsyncAuditLogger cfg d =
     (if ChannelBufferSize cfg < 0 then Inl (Panicked ''makechan: size out of range'')
      else Inr \<lparr>al_channel = [], al_closed = False, al_workers = [], al_db = d, al_log = []\<rparr>)"

definition async_Start :: "async_config \<Rightarrow> async_logger \<Rightarrow> go_error + async_logger" where
  "async_Start cfg l =
     (if WorkerCount cfg < 0 then Inl (Panicked ''sync: negative WaitGroup counter'')
      else if WorkerCount cfg = 0 then Inr l
      else if BatchTimeout cfg \<le> 0 then Inl (Panicked ''non-positive interval for NewTicker'')
      else if BatchSize cfg < 0 then Inl (Panicked ''makeslice: cap out of range'')
      else Inr (l\<lparr>al_workers := al_workers l @ replicate (nat (WorkerCount cfg)) (Some [])\<rparr>))"

definition log_line :: "log_level \<Rightarrow> string \<Rightarrow> (string \<times> attr) list \<Rightarrow> async_logger \<Rightarrow> async_logger" where
  "log_line lv msg attrs l = l\<lparr>al_log := al_log l @ [\<lparr>lr_level = lv, lr_msg = msg, lr_attrs = attrs\<rparr>]\<rparr>"

section \<open>Callers\<close>

datatype log_outcome = Queued | Full | SendOnClosed

text \<open>
  The \<^verbatim>\<open>select\<close> of \<^verbatim>\<open>AuditLog\<close> on a channel with a buffer.  A send on a closed channel panics, with a
  \<^verbatim>\<open>default\<close> branch or without.
\<close>

definition async_AuditLog :: "async_config \<Rightarrow> audit_event \<Rightarrow> async_logger \<Rightarrow> log_outcome \<times> async_logger" where
  "async_AuditLog cfg event l =
     (if al_closed l then (SendOnClosed, l)
      else if int (length (al_channel l)) < ChannelBufferSize cfg
      then (Queued, l\<lparr>al_channel := al_channel l @ [event]\<rparr>)
      else (Full, log_line LevelWarn ''audit event channel is full, event dropped''
              [(''operation'', AString (av_Operation event)), (''keyID'', AString (av_KeyID event))] l))"

text \<open>\<^verbatim>\<open>Stop\<close> up to its wait, which is over when every worker has returned.\<close>

definition async_Stop :: "async_logger \<Rightarrow> go_error + async_logger" where
  "async_Stop l =
     (if al_closed l then Inl (Panicked ''close of closed channel'')
      else Inr (log_line LevelInfo ''shutting down audit logger'' [] (l\<lparr>al_closed := True\<rparr>)))"

definition stopped :: "async_logger \<Rightarrow> bool" where
  "stopped l \<longleftrightarrow> al_closed l \<and> list_all (\<lambda>b. b = None) (al_workers l)"

section \<open>Workers\<close>

type_synonym batch_write = "(audit_event list \<times> go_error option) option"
  \<comment> \<open>the batch a worker wrote in a step, if it wrote one, and the error\<close>

definition writeBatchToDB :: "audit_event list \<Rightarrow> async_logger \<Rightarrow> batch_write \<times> async_logger" where
  "writeBatchToDB batch l =
     (if batch = [] then (None, l)
      else (case CreateAuditEventsBatch batch (al_db l) of
              (None, d) \<Rightarrow> (Some (batch, None), l\<lparr>al_db := d\<rparr>)
            | (Some err, d) \<Rightarrow>
                (Some (batch, Some err),
                 log_line LevelError ''failed to write audit event batch to database''
                   [(''error'', AString (error_string err)), (''batch_size'', AInt (int (length batch)))]
                   (l\<lparr>al_db := d\<rparr>))))"

definition set_worker :: "nat \<Rightarrow> audit_event list option \<Rightarrow> async_logger \<Rightarrow> async_logger" where
  "set_worker i b l = l\<lparr>al_workers := (al_workers l)[i := b]\<rparr>"

text \<open>An event arrives at a worker, the ticker fires, the channel is closed and empty.\<close>

definition worker_event ::
  "async_config \<Rightarrow> nat \<Rightarrow> audit_event list \<Rightarrow> audit_event \<Rightarrow> async_logger \<Rightarrow> batch_write \<times> async_logger" where
  "worker_event cfg i batch event l =
     (let batch' = batch @ [event] in
      if int (length batch') \<ge> BatchSize cfg
      then (case writeBatchToDB batch' l of (wr, l1) \<Rightarrow> (wr, set_worker i (Some []) l1))
      else (None, set_worker i (Some batch') l))"

definition worker_tick :: "nat \<Rightarrow> audit_event list \<Rightarrow> async_logger \<Rightarrow> batch_write \<times> async_logger" where
  "worker_tick i batch l = (case writeBatchToDB batch l of (wr, l1) \<Rightarrow> (wr, set_worker i (Some []) l1))"

definition worker_exit :: "nat \<Rightarrow> audit_event list \<Rightarrow> async_logger \<Rightarrow> batch_write \<times> async_logger" where
  "worker_exit i batch l = (case writeBatchToDB batch l of (wr, l1) \<Rightarrow> (wr, set_worker i None l1))"

section \<open>Steps\<close>

datatype audit_act =
    Logged audit_event batch_write
  | Dropped audit_event
  | PanickedLog audit_event
  | Took batch_write
  | Ticked batch_write
  | Exited batch_write
  | Stopping

text \<open>On a channel without a buffer an event goes straight to a worker that waits for one.\<close>

inductive async_step :: "async_config \<Rightarrow> async_logger \<Rightarrow> audit_act \<Rightarrow> async_logger \<Rightarrow> bool" for cfg where
  log: "async_AuditLog cfg e l = (Queued, l') \<Longrightarrow> async_step cfg l (Logged e None) l'"
| handoff: "ChannelBufferSize cfg = 0 \<Longrightarrow> \<not> al_closed l \<Longrightarrow> i < length (al_workers l) \<Longrightarrow> al_workers l ! i = Some b \<Longrightarrow>
    worker_event cfg i b e l = (wr, l') \<Longrightarrow> async_step cfg l (Logged e wr) l'"
| drop: "async_AuditLog cfg e l = (Full, l') \<Longrightarrow> async_step cfg l (Dropped e) l'"
| panic: "async_AuditLog cfg e l = (SendOnClosed, l') \<Longrightarrow> async_step cfg l (PanickedLog e) l'"
| take: "i < length (al_workers l) \<Longrightarrow> al_workers l ! i = Some b \<Longrightarrow> al_channel l = e # es \<Longrightarrow>
    worker_event cfg i b e (l\<lparr>al_channel := es\<rparr>) = (wr, l') \<Longrightarrow> async_step cfg l (Took wr) l'"
| tick: "i < length (al_workers l) \<Longrightarrow> al_workers l ! i = Some b \<Longrightarrow>
    worker_tick i b l = (wr, l') \<Longrightarrow> async_step cfg l (Ticked wr) l'"
| exit: "i < length (al_workers l) \<Longrightarrow> al_workers l ! i = Some b \<Longrightarrow> al_closed l \<Longrightarrow> al_channel l = [] \<Longrightarrow>
    worker_exit i b l = (wr, l') \<Longrightarrow> async_step cfg l (Exited wr) l'"
| stop: "async_Stop l = Inr l' \<Longrightarrow> async_step cfg l Stopping l'"

abbreviation async_run :: "async_config \<Rightarrow> async_logger \<Rightarrow> audit_act list \<Rightarrow> async_logger \<Rightarrow> bool" where
  "async_run cfg \<equiv> steps (async_step cfg)"

section \<open>What an execution accepted and wrote\<close>

fun act_write :: "audit_act \<Rightarrow> batch_write" where
  "act_write (Logged e wr) = wr"
| "act_write (Took wr) = wr"
| "act_write (Ticked wr) = wr"
| "act_write (Exited wr) = wr"
| "act_write _ = None"

fun act_accepted :: "audit_act \<Rightarrow> audit_event list" where
  "act_accepted (Logged e wr) = [e]"
| "act_accepted _ = []"

definition written :: "batch_write \<Rightarrow> audit_event list" where
  "written wr = (case wr of Some (b, None) \<Rightarrow> b | _ \<Rightarrow> [])"

definition failed :: "batch_write \<Rightarrow> audit_event list" where
  "failed wr = (case wr of Some (b, Some _) \<Rightarrow> b | _ \<Rightarrow> [])"

definition all_accepted :: "audit_act list \<Rightarrow> audit_event list" where
  "all_accepted es = concat (map act_accepted es)"

definition all_written :: "audit_act list \<Rightarrow> audit_event list" where
  "all_written es = concat (map (written \<circ> act_write) es)"

definition all_failed :: "audit_act list \<Rightarrow> audit_event list" where
  "all_failed es = concat (map (failed \<circ> act_write) es)"

lemmas all_defs = all_accepted_def all_written_def all_failed_def

definition batch_of :: "audit_event list option \<Rightarrow> audit_event list" where
  "batch_of b = (case b of None \<Rightarrow> [] | Some es \<Rightarrow> es)"

text \<open>The events inside the logger.\<close>

definition pending :: "async_logger \<Rightarrow> audit_event multiset" where
  "pending l = mset (al_channel l) + (\<Sum>b \<in># mset (al_workers l). mset (batch_of b))"

definition running_workers :: "async_logger \<Rightarrow> nat" where
  "running_workers l = length (filter (\<lambda>b. b \<noteq> None) (al_workers l))"

section \<open>One turn of a worker\<close>

lemma writeBatchToDB_frame:
  assumes "writeBatchToDB b l = (wr, l')"
  shows "al_channel l' = al_channel l" "al_closed l' = al_closed l" "al_workers l' = al_workers l"
    "mset (written wr) + mset (failed wr) = mset b"
proof -
  obtain r d where "CreateAuditEventsBatch b (al_db l) = (r, d)" by fastforce
  then show "al_channel l' = al_channel l" "al_closed l' = al_closed l" "al_workers l' = al_workers l"
    "mset (written wr) + mset (failed wr) = mset b"
    using assms by (cases r; auto simp: writeBatchToDB_def log_line_def written_def failed_def split: if_splits)+
qed

lemma writeBatchToDB_table:
  assumes "writeBatchToDB b l = (wr, l')"
  shows "\<exists>m. ad_table (al_db l') = ad_table (al_db l) @ map audit_row (written wr) @ m \<and>
    (m = [] \<or> m = map audit_row (failed wr))"
    "audit_table_ok (ad_table (al_db l)) \<Longrightarrow> audit_table_ok (ad_table (al_db l'))"
proof -
  obtain r d where c: "CreateAuditEventsBatch b (al_db l) = (r, d)" by fastforce
  note at = CreateAuditEventsBatch_atomic [OF c]
  show "\<exists>m. ad_table (al_db l') = ad_table (al_db l) @ map audit_row (written wr) @ m \<and>
    (m = [] \<or> m = map audit_row (failed wr))"
    "audit_table_ok (ad_table (al_db l)) \<Longrightarrow> audit_table_ok (ad_table (al_db l'))"
    using assms c at by (cases r; auto simp: writeBatchToDB_def log_line_def written_def failed_def split: if_splits)+
qed

text \<open>\<open>turn i b b' l wr l'\<close>: worker \<open>i\<close> went from batch \<open>b\<close> to \<open>b'\<close>, having written \<open>wr\<close>, the channel apart.\<close>

definition turn ::
  "nat \<Rightarrow> audit_event list option \<Rightarrow> async_logger \<Rightarrow> batch_write \<Rightarrow> async_logger \<Rightarrow> bool" where
  "turn i b' l wr l' \<longleftrightarrow> al_channel l' = al_channel l \<and> al_closed l' = al_closed l \<and>
     al_workers l' = (al_workers l)[i := b'] \<and>
     (\<exists>m. ad_table (al_db l') = ad_table (al_db l) @ map audit_row (written wr) @ m \<and>
       (m = [] \<or> m = map audit_row (failed wr))) \<and>
     (audit_table_ok (ad_table (al_db l)) \<longrightarrow> audit_table_ok (ad_table (al_db l')))"

lemma write_turn:
  assumes "writeBatchToDB b l = (wr, l1)"
  shows "turn i b' l wr (set_worker i b' l1)"
  using writeBatchToDB_frame [OF assms] writeBatchToDB_table [OF assms] by (simp add: turn_def set_worker_def)

lemma worker_event_turn:
  assumes "worker_event cfg i b e l = (wr, l')"
  obtains b' where "turn i (Some b') l wr l'" "mset b' + mset (written wr) + mset (failed wr) = mset (b @ [e])"
    "0 < BatchSize cfg \<Longrightarrow> int (length b') < BatchSize cfg"
proof (cases "int (length (b @ [e])) \<ge> BatchSize cfg")
  case True
  obtain w l1 where w: "writeBatchToDB (b @ [e]) l = (w, l1)" by fastforce
  then have "wr = w" "l' = set_worker i (Some []) l1" using assms True by (simp_all add: worker_event_def Let_def)
  then show thesis using that [of "[]"] write_turn [OF w, of i "Some []"] writeBatchToDB_frame(4) [OF w] by simp
next
  case False
  then have "wr = None" "l' = set_worker i (Some (b @ [e])) l" using assms by (simp_all add: worker_event_def Let_def)
  then show thesis using that [of "b @ [e]"] False by (simp add: turn_def set_worker_def written_def failed_def)
qed

lemma worker_tick_turn:
  assumes "worker_tick i b l = (wr, l')"
  shows "turn i (Some []) l wr l'" "mset (written wr) + mset (failed wr) = mset b"
proof -
  obtain w l1 where w: "writeBatchToDB b l = (w, l1)" by fastforce
  then show "turn i (Some []) l wr l'" "mset (written wr) + mset (failed wr) = mset b"
    using assms write_turn [OF w] writeBatchToDB_frame(4) [OF w] by (auto simp: worker_tick_def)
qed

lemma worker_exit_turn:
  assumes "worker_exit i b l = (wr, l')"
  shows "turn i None l wr l'" "mset (written wr) + mset (failed wr) = mset b"
proof -
  obtain w l1 where w: "writeBatchToDB b l = (w, l1)" by fastforce
  then show "turn i None l wr l'" "mset (written wr) + mset (failed wr) = mset b"
    using assms write_turn [OF w] writeBatchToDB_frame(4) [OF w] by (auto simp: worker_exit_def)
qed

text \<open>A turn replaces one batch.\<close>

lemma sum_mset_update:
  fixes f :: "'a \<Rightarrow> 'b multiset"
  assumes "i < length xs"
  shows "(\<Sum>x \<in># mset (xs[i := y]). f x) + f (xs ! i) = (\<Sum>x \<in># mset xs. f x) + f y"
  using assms
proof (induction xs arbitrary: i)
  case (Cons x xs)
  then show ?case by (cases i) (simp_all add: ac_simps)
qed simp

lemma pending_turn:
  assumes "turn i b' l wr l'" "i < length (al_workers l)" "al_workers l ! i = b"
  shows "pending l' + mset (batch_of b) = pending l + mset (batch_of b')"
  using assms sum_mset_update [OF assms(2), of "\<lambda>b. mset (batch_of b)" b']
  by (simp add: turn_def pending_def ac_simps)

section \<open>Conservation\<close>

lemma mset_balance:
  fixes p :: "'a multiset"
  assumes "p' + b = p + b'" "b' + w + f = b + e"
  shows "p' + w + f = p + e"
proof -
  have "(p' + b) + (b' + w + f) = (p + b') + (b + e)" using assms by simp
  then have "(p' + w + f) + (b + b') = (p + e) + (b + b')" by (simp only: ac_simps)
  then show ?thesis by simp
qed

lemma async_step_conserves:
  assumes "async_step cfg l a l'"
  shows "pending l' + mset (written (act_write a)) + mset (failed (act_write a)) = pending l + mset (act_accepted a)"
  using assms
proof (cases rule: async_step.cases)
  case (log e)
  then show ?thesis by (auto simp: async_AuditLog_def pending_def written_def failed_def split: if_splits)
next
  case (handoff i b e wr)
  obtain b' where "turn i (Some b') l wr l'" "mset b' + mset (written wr) + mset (failed wr) = mset (b @ [e])"
    using worker_event_turn [OF handoff(6)] by blast
  then have "pending l' + mset b = pending l + mset b'"
    using pending_turn [of i "Some b'" l wr l' "Some b"] handoff by (simp add: batch_of_def)
  from mset_balance [OF this] show ?thesis using \<open>mset b' + _ + _ = _\<close> handoff(1) by simp
next
  case (drop e)
  then show ?thesis by (auto simp: async_AuditLog_def pending_def log_line_def written_def failed_def split: if_splits)
next
  case (panic e)
  then show ?thesis by (auto simp: async_AuditLog_def written_def failed_def split: if_splits)
next
  case (take i b e es wr)
  let ?l = "l\<lparr>al_channel := es\<rparr>"
  obtain b' where "turn i (Some b') ?l wr l'" "mset b' + mset (written wr) + mset (failed wr) = mset (b @ [e])"
    using worker_event_turn [OF take(5)] by blast
  then have "pending l' + mset b = pending ?l + mset b'"
    using pending_turn [of i "Some b'" ?l wr l' "Some b"] take by (simp add: batch_of_def)
  moreover have "pending l = pending ?l + {#e#}" using take by (simp add: pending_def)
  ultimately show ?thesis
    using mset_balance [of "pending l'" "mset b" "pending ?l" "mset b'"] \<open>mset b' + _ + _ = _\<close> take(1) by simp
next
  case (tick i b wr)
  then show ?thesis
    using worker_tick_turn [OF tick(4)] pending_turn [of i "Some []" l wr l' "Some b"] by (simp add: batch_of_def ac_simps)
next
  case (exit i b wr)
  then show ?thesis
    using worker_exit_turn [OF exit(6)] pending_turn [of i None l wr l' "Some b"] by (simp add: batch_of_def ac_simps)
next
  case stop
  then show ?thesis by (auto simp: async_Stop_def pending_def log_line_def written_def failed_def split: if_splits)
qed

interpretation audit_flow: conserving "async_step cfg" pending "\<lambda>a. mset (act_accepted a)"
    "\<lambda>a. mset (written (act_write a)) + mset (failed (act_write a))" for cfg
  by unfold_locales (simp add: async_step_conserves add.assoc [symmetric])

lemma async_run_conserves:
  assumes "async_run cfg l es l'"
  shows "pending l' + mset (all_written es) + mset (all_failed es) = pending l + mset (all_accepted es)"
  using audit_flow.steps_balance [OF assms]
  by (simp add: sum_list_addf sum_mset_concat all_defs comp_def add.assoc)

text \<open>The table holds what was written, and perhaps batches whose write took effect though it reported an error.\<close>

lemma async_step_table:
  assumes "async_step cfg l a l'"
  shows "(\<exists>m. ad_table (al_db l') = ad_table (al_db l) @ map audit_row (written (act_write a)) @ m \<and>
      (m = [] \<or> m = map audit_row (failed (act_write a)))) \<and>
    (audit_table_ok (ad_table (al_db l)) \<longrightarrow> audit_table_ok (ad_table (al_db l')))"
  using assms
proof (cases rule: async_step.cases)
  case (handoff i b e wr)
  then show ?thesis using worker_event_turn [OF handoff(6)] by (auto simp: turn_def)
next
  case (take i b e es wr)
  obtain b' where "turn i (Some b') (l\<lparr>al_channel := es\<rparr>) wr l'" using worker_event_turn [OF take(5)] by blast
  then show ?thesis using take(1) by (simp add: turn_def)
next
  case (tick i b wr)
  then show ?thesis using worker_tick_turn(1) [OF tick(4)] by (simp add: turn_def)
next
  case (exit i b wr)
  then show ?thesis using worker_exit_turn(1) [OF exit(6)] by (simp add: turn_def)
qed (auto simp: async_AuditLog_def async_Stop_def log_line_def written_def failed_def split: if_splits)

lemma async_run_table:
  assumes "async_run cfg l es l'"
  shows "mset (ad_table (al_db l)) + image_mset audit_row (mset (all_written es)) \<subseteq># mset (ad_table (al_db l'))"
    "mset (ad_table (al_db l')) \<subseteq># mset (ad_table (al_db l)) + image_mset audit_row (mset (all_written es) + mset (all_failed es))"
    "audit_table_ok (ad_table (al_db l)) \<Longrightarrow> audit_table_ok (ad_table (al_db l'))"
  using assms
proof (induction rule: steps.induct)
  case (Snoc l es l' e l'')
  obtain m where m: "ad_table (al_db l'') = ad_table (al_db l') @ map audit_row (written (act_write e)) @ m"
    "m = [] \<or> m = map audit_row (failed (act_write e))"
    using async_step_table [OF Snoc(2)] by blast
  have up: "mset m \<subseteq># image_mset audit_row (mset (failed (act_write e)))" using m(2) by auto
  {
    case 1
    show ?case using Snoc(3) m(1) by (simp add: all_defs subset_mset.add_mono subset_mset.add_increasing2 add.assoc [symmetric])
  next
    case 2
    show ?case using subset_mset.add_mono [OF Snoc(4) up] m(1) by (simp add: all_defs ac_simps)
  next
    case 3
    then show ?case using Snoc(5) async_step_table [OF Snoc(2)] by blast
  }
qed (simp_all add: all_defs)

section \<open>Bounds\<close>

text \<open>
  The channel never exceeds its buffer, a batch never reaches the batch size between steps, and a
  worker has returned only after the channel was closed and emptied.
\<close>

definition async_ok :: "async_config \<Rightarrow> async_logger \<Rightarrow> bool" where
  "async_ok cfg l \<longleftrightarrow> int (length (al_channel l)) \<le> ChannelBufferSize cfg \<and>
     length (al_workers l) = nat (WorkerCount cfg) \<and>
     (0 < BatchSize cfg \<longrightarrow> list_all (\<lambda>b. int (length (batch_of b)) < BatchSize cfg) (al_workers l)) \<and>
     (None \<in> set (al_workers l) \<longrightarrow> al_closed l \<and> al_channel l = [])"

lemma list_all_update: "list_all P xs \<Longrightarrow> P y \<Longrightarrow> list_all P (xs[i := y])"
  by (auto simp: list_all_iff dest!: set_update_subset_insert [THEN subsetD])

lemma in_set_update: "x \<in> set (xs[i := y]) \<Longrightarrow> x \<noteq> y \<Longrightarrow> x \<in> set xs"
  by (auto dest!: set_update_subset_insert [THEN subsetD])

lemma async_ok_turn:
  assumes "async_ok cfg l" "turn i b' l wr l'" "0 < BatchSize cfg \<Longrightarrow> int (length (batch_of b')) < BatchSize cfg"
    "b' = None \<Longrightarrow> al_closed l \<and> al_channel l = []"
  shows "async_ok cfg l'"
  using assms in_set_update [of None "al_workers l" i b'] by (auto simp: async_ok_def turn_def list_all_update)

lemma async_step_ok:
  assumes "async_step cfg l a l'" "async_ok cfg l"
  shows "async_ok cfg l'"
  using assms(1)
proof (cases rule: async_step.cases)
  case (handoff i b e wr)
  obtain b' where "turn i (Some b') l wr l'" "0 < BatchSize cfg \<Longrightarrow> int (length b') < BatchSize cfg"
    using worker_event_turn [OF handoff(6)] by metis
  then show ?thesis using async_ok_turn [OF assms(2), of i "Some b'" wr l'] by (simp add: batch_of_def)
next
  case (take i b e es wr)
  obtain b' where "turn i (Some b') (l\<lparr>al_channel := es\<rparr>) wr l'" "0 < BatchSize cfg \<Longrightarrow> int (length b') < BatchSize cfg"
    using worker_event_turn [OF take(5)] by metis
  moreover have "async_ok cfg (l\<lparr>al_channel := es\<rparr>)" using assms(2) take by (auto simp: async_ok_def)
  ultimately show ?thesis using async_ok_turn [of cfg "l\<lparr>al_channel := es\<rparr>" i "Some b'" wr l'] by (simp add: batch_of_def)
next
  case (tick i b wr)
  then show ?thesis using async_ok_turn [OF assms(2) worker_tick_turn(1) [OF tick(4)]] by (simp add: batch_of_def)
next
  case (exit i b wr)
  then show ?thesis using async_ok_turn [OF assms(2) worker_exit_turn(1) [OF exit(6)]] by (simp add: batch_of_def)
qed (use assms(2) in \<open>auto simp: async_ok_def async_AuditLog_def async_Stop_def log_line_def split: if_splits\<close>)

lemma async_run_ok: "async_run cfg l es l' \<Longrightarrow> async_ok cfg l \<Longrightarrow> async_ok cfg l'"
  by (erule steps_invariant) (auto intro: async_step_ok)

text \<open>A started logger is empty and within its bounds.\<close>

lemma started_ok:
  assumes "NewAsyncAuditLogger cfg d = Inr l0" "async_Start cfg l0 = Inr l"
  shows "async_ok cfg l" "pending l = {#}" "al_db l = d" "\<not> al_closed l" "running_workers l = nat (WorkerCount cfg)"
  using assms
  by (auto simp: NewAsyncAuditLogger_def async_Start_def async_ok_def pending_def running_workers_def batch_of_def list_all_iff
      split: if_splits)

section \<open>Shutdown\<close>

text \<open>When every worker has returned nothing is left inside.\<close>

lemma stopped_empty:
  assumes "stopped l" "async_ok cfg l" "0 < WorkerCount cfg"
  shows "pending l = {#}"
proof -
  have all: "\<forall>b \<in> set (al_workers l). b = None" and "al_workers l \<noteq> []"
    using assms by (auto simp: stopped_def list_all_iff async_ok_def)
  then have "al_channel l = []" using assms(2) by (cases "al_workers l") (auto simp: async_ok_def)
  moreover have "(\<Sum>b \<in># mset (al_workers l). mset (batch_of b)) = {#}"
    using all by (auto intro!: sum_mset.neutral simp: batch_of_def)
  ultimately show ?thesis by (simp add: pending_def)
qed

text \<open>After the channel is closed, every receive and every return of a worker brings the end nearer \<dots>\<close>

definition is_shutdown :: "audit_act \<Rightarrow> bool" where
  "is_shutdown a \<longleftrightarrow> (\<exists>wr. a = Took wr \<or> a = Exited wr)"

definition remaining :: "async_logger \<Rightarrow> nat" where
  "remaining l = length (al_channel l) + running_workers l"

lemma running_workers_update:
  assumes "i < length (al_workers l)" "al_workers l ! i = Some b" "turn i b' l wr l'"
  shows "running_workers l' + (if b' = None then 1 else 0) = running_workers l"
proof -
  let ?P = "\<lambda>b. b \<noteq> None"
  have "length (filter ?P (xs[i := b'])) + (if b' = None then 1 else 0) = length (filter ?P xs)"
    if "i < length xs" "xs ! i = Some b" for xs :: "audit_event list option list" and i
    using that
  proof (induction xs arbitrary: i)
    case (Cons x xs)
    then show ?case by (cases i) auto
  qed simp
  then show ?thesis using assms by (simp add: running_workers_def turn_def)
qed

lemma shutdown_decreases:
  assumes "async_step cfg l a l'" "is_shutdown a"
  shows "Suc (remaining l') = remaining l \<and> al_closed l' = al_closed l"
  using assms(1)
proof (cases rule: async_step.cases)
  case (take i b e es wr)
  obtain b' where t: "turn i (Some b') (l\<lparr>al_channel := es\<rparr>) wr l'" using worker_event_turn [OF take(5)] by blast
  then have "running_workers l' = running_workers l" using running_workers_update [OF _ _ t] take by (simp add: running_workers_def)
  then show ?thesis
    using t take by (simp add: remaining_def turn_def)
next
  case (exit i b wr)
  note t = worker_exit_turn(1) [OF exit(6)]
  have "running_workers l' + 1 = running_workers l" using running_workers_update [OF exit(2,3) t] by simp
  then show ?thesis
    using t exit by (simp add: remaining_def turn_def)
qed (use assms(2) in \<open>auto simp: is_shutdown_def\<close>)

text \<open>\<dots> and such a step is possible until every worker has returned.\<close>

lemma shutdown_progress:
  assumes "al_closed l" "\<not> stopped l"
  shows "\<exists>a l'. is_shutdown a \<and> async_step cfg l a l'"
proof -
  obtain i b where i: "i < length (al_workers l)" "al_workers l ! i = Some b"
    using assms by (auto simp: stopped_def list_all_length)
  show ?thesis
  proof (cases "al_channel l")
    case Nil
    obtain wr l' where "worker_exit i b l = (wr, l')" by fastforce
    then have "async_step cfg l (Exited wr) l'" by (rule async_step.exit [OF i assms(1) Nil])
    then show ?thesis by (auto simp: is_shutdown_def)
  next
    case (Cons e es)
    obtain wr l' where "worker_event cfg i b e (l\<lparr>al_channel := es\<rparr>) = (wr, l')" by fastforce
    then have "async_step cfg l (Took wr) l'" by (rule async_step.take [OF i Cons])
    then show ?thesis by (auto simp: is_shutdown_def)
  qed
qed

interpretation audit_shutdown: draining "async_step cfg" is_shutdown al_closed stopped remaining for cfg
proof
  show "\<exists>a l'. is_shutdown a \<and> async_step cfg l a l'" if "al_closed l" "\<not> stopped l" for l
    using shutdown_progress that by blast
  show "remaining l' < remaining l \<and> al_closed l'" if "async_step cfg l a l'" "is_shutdown a" "al_closed l" for l a l'
    using shutdown_decreases [OF that(1,2)] that(3) by auto
qed

end
