(* ===== verification/WorkerPool.thy ===== *)
theory WorkerPool
  imports GoErrors Steps
begin

text \<open>
  The generic worker pool of \<^verbatim>\<open>pkg/patterns/concurrency/worker_pool.go\<close>: a bounded channel of jobs, a
  fixed number of workers and a bounded channel of results.  Callers, workers and readers run
  concurrently; \<open>pool_step\<close> is their step relation.  The processor is a parameter; its first argument
  says whether the pool's context is done.
\<close>

section \<open>State\<close>

record 't Job =
  j_Data :: 't

record 'r Result =
  r_Value :: 'r
  r_Err :: "go_error option"

text \<open>
  \<open>wp_idle\<close> counts the workers at their \<^verbatim>\<open>select\<close>; \<open>wp_sending\<close> holds the results of those that have
  processed a job and not yet sent its result; \<open>wp_returned\<close> counts those that have returned.
\<close>

record ('t, 'r) pool =
  wp_jobs :: "'t Job list"
  wp_jobsClosed :: bool
  wp_results :: "'r Result list"
  wp_resultsClosed :: bool
  wp_cancelled :: bool
  wp_idle :: nat
  wp_sending :: "'r Result list"
  wp_returned :: nat
  wp_workerCount :: nat
  wp_queueDepth :: nat

type_synonym ('t, 'r) processor = "bool \<Rightarrow> 't \<Rightarrow> 'r \<times> go_error option"

definition NewWorkerPool :: "bool \<Rightarrow> nat \<Rightarrow> nat \<Rightarrow> ('t, 'r) pool" where
  "NewWorkerPool parentDone workerCount queueDepth =
     \<lparr>wp_jobs = [], wp_jobsClosed = False, wp_results = [], wp_resultsClosed = False, wp_cancelled = parentDone,
      wp_idle = 0, wp_sending = [], wp_returned = 0, wp_workerCount = workerCount, wp_queueDepth = queueDepth\<rparr>"

definition pool_Start :: "('t, 'r) pool \<Rightarrow> ('t, 'r) pool" where
  "pool_Start p = p\<lparr>wp_idle := wp_idle p + wp_workerCount p\<rparr>"

section \<open>Operations\<close>

text \<open>
  On a channel with a buffer.  \<open>None\<close> is the panic of a send on a closed channel, which the
  \<^verbatim>\<open>default\<close> branch does not prevent.
\<close>

definition pool_Submit :: "'t \<Rightarrow> ('t, 'r) pool \<Rightarrow> bool option \<times> ('t, 'r) pool" where
  "pool_Submit x p =
     (if wp_jobsClosed p then (None, p)
      else if length (wp_jobs p) < wp_queueDepth p then (Some True, p\<lparr>wp_jobs := wp_jobs p @ [\<lparr>j_Data = x\<rparr>]\<rparr>)
      else (Some False, p))"

definition process :: "('t, 'r) processor \<Rightarrow> 't Job \<Rightarrow> ('t, 'r) pool \<Rightarrow> 'r Result" where
  "process f job p = (case f (wp_cancelled p) (j_Data job) of (v, err) \<Rightarrow> \<lparr>r_Value = v, r_Err = err\<rparr>)"

definition pool_work :: "'r Result \<Rightarrow> ('t, 'r) pool \<Rightarrow> ('t, 'r) pool" where
  "pool_work r p = p\<lparr>wp_idle := wp_idle p - 1, wp_sending := wp_sending p @ [r]\<rparr>"

definition pool_sent :: "nat \<Rightarrow> ('t, 'r) pool \<Rightarrow> ('t, 'r) pool" where
  "pool_sent i p = p\<lparr>wp_idle := wp_idle p + 1, wp_sending := take i (wp_sending p) @ drop (Suc i) (wp_sending p)\<rparr>"

definition pool_return :: "('t, 'r) pool \<Rightarrow> ('t, 'r) pool" where
  "pool_return p = p\<lparr>wp_idle := wp_idle p - 1, wp_returned := wp_returned p + 1\<rparr>"

text \<open>\<^verbatim>\<open>Stop\<close> before and after its wait for the workers.\<close>

definition pool_Stop :: "('t, 'r) pool \<Rightarrow> go_error + ('t, 'r) pool" where
  "pool_Stop p =
     (if wp_jobsClosed p then Inl (Panicked ''close of closed channel'') else Inr (p\<lparr>wp_jobsClosed := True\<rparr>))"

definition pool_Stop_end :: "('t, 'r) pool \<Rightarrow> ('t, 'r) pool" where
  "pool_Stop_end p = p\<lparr>wp_resultsClosed := True, wp_cancelled := True\<rparr>"

section \<open>Steps\<close>

datatype ('t, 'r) pool_act =
    Submitted 't | Refused 't | SubmitPanic 't
  | Handed 't "'r Result" | Processed "'t Job" "'r Result"
  | SentResult | PassedResult "'r Result" | ReceivedResult "'r Result"
  | ReturnedClosed | ReturnedCancelled | ParentCancelled | StopCalled | StopReturned

text \<open>On channels without a buffer a job or a result passes directly.\<close>

inductive pool_step ::
  "('t, 'r) processor \<Rightarrow> ('t, 'r) pool \<Rightarrow> ('t, 'r) pool_act \<Rightarrow> ('t, 'r) pool \<Rightarrow> bool" for f where
  submit: "pool_Submit x p = (Some True, p') \<Longrightarrow> pool_step f p (Submitted x) p'"
| refuse: "pool_Submit x p = (Some False, p') \<Longrightarrow> pool_step f p (Refused x) p'"
| panic: "pool_Submit x p = (None, p') \<Longrightarrow> pool_step f p (SubmitPanic x) p'"
| hand: "wp_queueDepth p = 0 \<Longrightarrow> \<not> wp_jobsClosed p \<Longrightarrow> 0 < wp_idle p \<Longrightarrow> r = process f \<lparr>j_Data = x\<rparr> p \<Longrightarrow>
    pool_step f p (Handed x r) (pool_work r p)"
| work: "wp_jobs p = job # jobs \<Longrightarrow> 0 < wp_idle p \<Longrightarrow> r = process f job p \<Longrightarrow>
    pool_step f p (Processed job r) (pool_work r (p\<lparr>wp_jobs := jobs\<rparr>))"
| send: "i < length (wp_sending p) \<Longrightarrow> length (wp_results p) < wp_queueDepth p \<Longrightarrow>
    pool_step f p SentResult (pool_sent i (p\<lparr>wp_results := wp_results p @ [wp_sending p ! i]\<rparr>))"
| pass: "i < length (wp_sending p) \<Longrightarrow> wp_queueDepth p = 0 \<Longrightarrow>
    pool_step f p (PassedResult (wp_sending p ! i)) (pool_sent i p)"
| receive: "wp_results p = r # rs \<Longrightarrow> pool_step f p (ReceivedResult r) (p\<lparr>wp_results := rs\<rparr>)"
| return_closed: "0 < wp_idle p \<Longrightarrow> wp_jobsClosed p \<Longrightarrow> wp_jobs p = [] \<Longrightarrow>
    pool_step f p ReturnedClosed (pool_return p)"
| return_cancelled: "0 < wp_idle p \<Longrightarrow> wp_cancelled p \<Longrightarrow> pool_step f p ReturnedCancelled (pool_return p)"
| parent: "pool_step f p ParentCancelled (p\<lparr>wp_cancelled := True\<rparr>)"
| stop: "pool_Stop p = Inr p' \<Longrightarrow> pool_step f p StopCalled p'"
| stop_end: "wp_jobsClosed p \<Longrightarrow> \<not> wp_resultsClosed p \<Longrightarrow> wp_idle p = 0 \<Longrightarrow> wp_sending p = [] \<Longrightarrow>
    pool_step f p StopReturned (pool_Stop_end p)"

abbreviation pool_run ::
  "('t, 'r) processor \<Rightarrow> ('t, 'r) pool \<Rightarrow> ('t, 'r) pool_act list \<Rightarrow> ('t, 'r) pool \<Rightarrow> bool" where
  "pool_run f \<equiv> steps (pool_step f)"

section \<open>Jobs and results are conserved\<close>

fun accepted_job :: "('t, 'r) pool_act \<Rightarrow> 't list" where
  "accepted_job (Submitted x) = [x]"
| "accepted_job (Handed x r) = [x]"
| "accepted_job _ = []"

fun processed_job :: "('t, 'r) pool_act \<Rightarrow> ('t \<times> 'r Result) list" where
  "processed_job (Handed x r) = [(x, r)]"
| "processed_job (Processed job r) = [(j_Data job, r)]"
| "processed_job _ = []"

fun received_result :: "('t, 'r) pool_act \<Rightarrow> 'r Result list" where
  "received_result (PassedResult r) = [r]"
| "received_result (ReceivedResult r) = [r]"
| "received_result _ = []"

definition accepted_jobs :: "('t, 'r) pool_act list \<Rightarrow> 't list" where
  "accepted_jobs es = concat (map accepted_job es)"

definition processed_jobs :: "('t, 'r) pool_act list \<Rightarrow> ('t \<times> 'r Result) list" where
  "processed_jobs es = concat (map processed_job es)"

definition received_results :: "('t, 'r) pool_act list \<Rightarrow> 'r Result list" where
  "received_results es = concat (map received_result es)"

lemmas job_counts = accepted_jobs_def processed_jobs_def received_results_def

lemma mset_take_out: "i < length xs \<Longrightarrow> add_mset (xs ! i) (mset (take i xs) + mset (drop (Suc i) xs)) = mset xs"
  by (metis Cons_nth_drop_Suc append_take_drop_id mset.simps(2) mset_append union_mset_add_mset_right)

lemma pool_step_jobs:
  assumes "pool_step f p e p'"
  shows "mset (map j_Data (wp_jobs p')) + image_mset fst (mset (processed_job e)) =
    mset (map j_Data (wp_jobs p)) + mset (accepted_job e)"
  using assms by (cases rule: pool_step.cases)
    (auto simp: pool_Submit_def pool_work_def pool_sent_def pool_return_def pool_Stop_def pool_Stop_end_def split: if_splits)

lemma pool_step_results:
  assumes "pool_step f p e p'"
  shows "mset (wp_sending p') + mset (wp_results p') + mset (received_result e) =
    mset (wp_sending p) + mset (wp_results p) + image_mset snd (mset (processed_job e))"
  using assms by (cases rule: pool_step.cases)
    (auto simp: pool_Submit_def pool_work_def pool_sent_def pool_return_def pool_Stop_def pool_Stop_end_def
        mset_take_out split: if_splits)

interpretation job_flow: conserving "pool_step f" "\<lambda>p. mset (map j_Data (wp_jobs p))" "\<lambda>e. mset (accepted_job e)"
    "\<lambda>e. image_mset fst (mset (processed_job e))" for f
  by unfold_locales (rule pool_step_jobs)

interpretation result_flow: conserving "pool_step f" "\<lambda>p. mset (wp_sending p) + mset (wp_results p)"
    "\<lambda>e. image_mset snd (mset (processed_job e))" "\<lambda>e. mset (received_result e)" for f
  by unfold_locales (rule pool_step_results)

lemma sum_image_concat: "(\<Sum>e\<leftarrow>es. image_mset g (mset (h e))) = image_mset g (mset (concat (map h es)))"
  by (induction es) auto



lemma pool_run_jobs:
  assumes "pool_run f p es p'"
  shows "mset (map j_Data (wp_jobs p')) + image_mset fst (mset (processed_jobs es)) =
    mset (map j_Data (wp_jobs p)) + mset (accepted_jobs es)"
  using job_flow.steps_balance [OF assms] by (simp only: sum_image_concat sum_mset_concat job_counts)

lemma pool_run_results:
  assumes "pool_run f p es p'"
  shows "mset (wp_sending p') + mset (wp_results p') + mset (received_results es) =
    mset (wp_sending p) + mset (wp_results p) + image_mset snd (mset (processed_jobs es))"
  using result_flow.steps_balance [OF assms] by (simp only: sum_image_concat sum_mset_concat job_counts)

section \<open>Workers\<close>

text \<open>
  Every worker is at its \<^verbatim>\<open>select\<close>, sending or returned; the channels keep within their depth; without
  a cancelled context a worker returns only when the jobs are closed and gone.
\<close>

definition worker_pool_ok :: "('t, 'r) pool \<Rightarrow> bool" where
  "worker_pool_ok p \<longleftrightarrow> wp_idle p + length (wp_sending p) + wp_returned p = wp_workerCount p \<and>
     length (wp_jobs p) \<le> wp_queueDepth p \<and> length (wp_results p) \<le> wp_queueDepth p \<and>
     (0 < wp_returned p \<longrightarrow> (wp_jobsClosed p \<and> wp_jobs p = []) \<or> wp_cancelled p) \<and>
     (wp_resultsClosed p \<longrightarrow> wp_jobsClosed p \<and> wp_idle p = 0 \<and> wp_sending p = [])"

lemma worker_pool_started_ok: "worker_pool_ok (pool_Start (NewWorkerPool parentDone n d))"
  by (simp add: worker_pool_ok_def pool_Start_def NewWorkerPool_def)

lemma pool_step_ok:
  assumes "pool_step f p e p'" "worker_pool_ok p"
  shows "worker_pool_ok p'"
  using assms by (cases rule: pool_step.cases)
    (auto simp: worker_pool_ok_def pool_Submit_def pool_work_def pool_sent_def pool_return_def pool_Stop_def pool_Stop_end_def
        split: if_splits)

lemma pool_run_ok: "pool_run f p es p' \<Longrightarrow> worker_pool_ok p \<Longrightarrow> worker_pool_ok p'"
  by (erule steps_invariant) (auto intro: pool_step_ok)

section \<open>Stopping\<close>

text \<open>
  With a reader that takes results \<^verbatim>\<open>Stop\<close> returns: while it waits some step of a worker or the reader
  is possible, and each brings the end nearer.
\<close>

definition drains :: "('t, 'r) pool_act \<Rightarrow> bool" where
  "drains e \<longleftrightarrow> (case e of Processed _ _ \<Rightarrow> True | SentResult \<Rightarrow> True | PassedResult _ \<Rightarrow> True
     | ReceivedResult _ \<Rightarrow> True | ReturnedClosed \<Rightarrow> True | _ \<Rightarrow> False)"

definition pool_work_left :: "('t, 'r) pool \<Rightarrow> nat" where
  "pool_work_left p = 4 * length (wp_jobs p) + 3 * length (wp_sending p) + length (wp_results p) + wp_idle p"

lemma drain_decreases:
  assumes "pool_step f p e p'" "drains e"
  shows "pool_work_left p' < pool_work_left p \<and> wp_jobsClosed p' = wp_jobsClosed p \<and> wp_resultsClosed p' = wp_resultsClosed p \<and>
    wp_queueDepth p' = wp_queueDepth p"
  using assms by (cases rule: pool_step.cases)
    (auto simp: pool_work_left_def drains_def pool_work_def pool_sent_def pool_return_def)

lemma drain_progress:
  assumes "wp_jobsClosed p" "worker_pool_ok p" "wp_idle p \<noteq> 0 \<or> wp_sending p \<noteq> []"
  shows "\<exists>e p'. drains e \<and> pool_step f p e p'"
proof (cases "wp_sending p = []")
  case True
  then have idle: "0 < wp_idle p" using assms(3) by simp
  show ?thesis
  proof (cases "wp_jobs p")
    case Nil
    have "pool_step f p ReturnedClosed (pool_return p)" by (rule pool_step.return_closed [OF idle assms(1) Nil])
    then show ?thesis by (force simp: drains_def)
  next
    case (Cons job jobs)
    have "pool_step f p (Processed job (process f job p)) (pool_work (process f job p) (p\<lparr>wp_jobs := jobs\<rparr>))"
      by (rule pool_step.work [OF Cons idle refl])
    then show ?thesis by (force simp: drains_def)
  qed
next
  case False
  then have i: "0 < length (wp_sending p)" by simp
  consider "wp_queueDepth p = 0" | "length (wp_results p) < wp_queueDepth p" | r rs where "wp_results p = r # rs"
    by (cases "wp_results p") auto
  then show ?thesis
  proof cases
    case 1
    show ?thesis using pool_step.pass [OF i 1] by (force simp: drains_def)
  next
    case 2
    show ?thesis using pool_step.send [OF i 2] by (force simp: drains_def)
  next
    case 3
    show ?thesis using pool_step.receive [OF 3] by (force simp: drains_def)
  qed
qed

interpretation pool_drain: draining "pool_step f" drains "\<lambda>p. wp_jobsClosed p \<and> worker_pool_ok p"
    "\<lambda>p. wp_idle p = 0 \<and> wp_sending p = []" pool_work_left for f
proof
  show "\<exists>e p'. drains e \<and> pool_step f p e p'"
    if "wp_jobsClosed p \<and> worker_pool_ok p" "\<not> (wp_idle p = 0 \<and> wp_sending p = [])" for p
    using drain_progress that by blast
  show "pool_work_left p' < pool_work_left p \<and> wp_jobsClosed p' \<and> worker_pool_ok p'"
    if "pool_step f p e p'" "drains e" "wp_jobsClosed p \<and> worker_pool_ok p" for p e p'
    using drain_decreases [OF that(1,2)] pool_step_ok [OF that(1)] that(3) by simp
qed

text \<open>
  Without a reader it may never return: once the results channel is full, a worker that has a result
  to send keeps \<^verbatim>\<open>Stop\<close> waiting for as long as nobody receives.
\<close>

definition blocked :: "('t, 'r) pool \<Rightarrow> bool" where
  "blocked p \<longleftrightarrow> length (wp_results p) = wp_queueDepth p \<and> wp_sending p \<noteq> []"

lemma blocked_step:
  assumes "pool_step f p e p'" "blocked p" "received_result e = []"
  shows "blocked p' \<and> e \<noteq> StopReturned"
  using assms by (cases rule: pool_step.cases)
    (auto simp: blocked_def pool_Submit_def pool_work_def pool_sent_def pool_return_def pool_Stop_def split: if_splits)

lemma blocked_run:
  assumes "pool_run f p es p'" "blocked p" "received_results es = []"
  shows "blocked p' \<and> StopReturned \<notin> set es"
  using assms
proof (induction rule: steps.induct)
  case (Snoc p es p' e p'')
  then show ?case using blocked_step [OF Snoc(2)] by (auto simp: received_results_def)
qed simp

section \<open>What a stopped pool delivered\<close>

text \<open>The results the processor gives for the jobs, one by one, in a live context.\<close>

definition run_job :: "('t, 'r) processor \<Rightarrow> 't \<Rightarrow> 'r Result" where
  "run_job f x = (case f False x of (v, err) \<Rightarrow> \<lparr>r_Value = v, r_Err = err\<rparr>)"

definition live :: "('t, 'r) pool_act list \<Rightarrow> bool" where
  "live es \<longleftrightarrow> ParentCancelled \<notin> set es \<and> StopReturned \<notin> set es"

lemma pool_step_live:
  assumes "pool_step f p e p'" "live [e]" "\<not> wp_cancelled p"
  shows "\<not> wp_cancelled p' \<and> wp_workerCount p' = wp_workerCount p \<and>
    image_mset snd (mset (processed_job e)) = image_mset (run_job f \<circ> fst) (mset (processed_job e))"
  using assms by (cases rule: pool_step.cases)
    (auto simp: live_def process_def run_job_def pool_Submit_def pool_work_def pool_sent_def pool_return_def pool_Stop_def
        split: if_splits)

lemma pool_run_live:
  assumes "pool_run f p es p'" "live es" "\<not> wp_cancelled p"
  shows "\<not> wp_cancelled p' \<and> wp_workerCount p' = wp_workerCount p \<and>
    image_mset snd (mset (processed_jobs es)) = image_mset (run_job f) (image_mset fst (mset (processed_jobs es)))"
  using assms
proof (induction rule: steps.induct)
  case (Snoc p es p' e p'')
  then show ?case using pool_step_live [OF Snoc(2)] by (auto simp: live_def job_counts image_mset.compositionality)
qed (simp add: job_counts)

lemma pool_stop_complete:
  assumes run: "pool_run f (pool_Start (NewWorkerPool False n d)) es p" and live: "live es" and n: "0 < n"
    and stop: "pool_step f p StopReturned p'"
  shows "mset (wp_results p') + mset (received_results es) = image_mset (run_job f) (mset (accepted_jobs es))"
proof -
  let ?p0 = "pool_Start (NewWorkerPool False n d) :: ('a, 'b) pool"
  have p0: "wp_jobs ?p0 = []" "wp_sending ?p0 = []" "wp_results ?p0 = []" "wp_workerCount ?p0 = n" "\<not> wp_cancelled ?p0"
    by (simp_all add: pool_Start_def NewWorkerPool_def)
  have p: "wp_idle p = 0" "wp_sending p = []" "wp_results p' = wp_results p"
    using stop by (cases rule: pool_step.cases; simp add: pool_Stop_end_def)+
  note ok = pool_run_ok [OF run worker_pool_started_ok] and lv = pool_run_live [OF run live p0(5)]
  have "wp_jobs p = []" using ok lv p n p0 by (auto simp: worker_pool_ok_def)
  then have "image_mset fst (mset (processed_jobs es)) = mset (accepted_jobs es)"
    using pool_run_jobs [OF run] p0 by simp
  then show ?thesis using pool_run_results [OF run] lv p p0 by simp
qed

end
