(* ===== verification/Optimizer.thy ===== *)
theory Optimizer
  imports Memory GoErrors
begin

text \<open>
  The pooled string builders and the marshalling helper of \<^verbatim>\<open>persistence/query_optimizer.go\<close>, and the
  statement preparation of \<^verbatim>\<open>pkg/postgres/client.go\<close>.
\<close>

section \<open>Builders and the shared buffer\<close>

text \<open>A builder is the text it holds.\<close>

record QueryOptimizer =
  qo_builders :: "string list"
  qo_metaBuffer :: bytes

definition NewQueryOptimizer :: QueryOptimizer where
  "NewQueryOptimizer = \<lparr>qo_builders = [], qo_metaBuffer = []\<rparr>"

definition GetBuilder :: "nat option \<Rightarrow> QueryOptimizer \<Rightarrow> string \<times> QueryOptimizer" where
  "GetBuilder pick q =
     (case sync_pool_Get '''' pick (qo_builders q) of (sb, rest) \<Rightarrow> (sb, q\<lparr>qo_builders := rest\<rparr>))"

definition PutBuilder :: "string \<Rightarrow> QueryOptimizer \<Rightarrow> QueryOptimizer" where
  "PutBuilder sb q = q\<lparr>qo_builders := '''' # qo_builders q\<rparr>"

text \<open>\<^verbatim>\<open>json.Marshal\<close> is an argument; the buffer is emptied and not used.\<close>

definition MarshalWithBuffer ::
  "('a \<Rightarrow> go_error + bytes) \<Rightarrow> 'a \<Rightarrow> QueryOptimizer \<Rightarrow> (go_error + bytes) \<times> QueryOptimizer" where
  "MarshalWithBuffer marshal v q =
     (case marshal v of
        Inl err \<Rightarrow> (Inl err, q\<lparr>qo_metaBuffer := []\<rparr>)
      | Inr data \<Rightarrow> (Inr data, q\<lparr>qo_metaBuffer := []\<rparr>))"

section \<open>Prepared statements\<close>

text \<open>
  The connection that the pool hands out is prepared statement by statement; the map is visited in
  some order and the first failure ends the loop.  \<open>prepare\<close> is the answer of the server.
\<close>

fun prepare_all ::
  "(string \<Rightarrow> string \<Rightarrow> go_error option) \<Rightarrow> (string \<times> string) list \<Rightarrow> string list \<Rightarrow> go_error option \<times> string list" where
  "prepare_all prepare [] done_names = (None, done_names)"
| "prepare_all prepare ((name, sql) # rest) done_names =
     (case prepare name sql of
        Some err \<Rightarrow> (Some (wrapf (''failed to prepare statement '' @ name) err), done_names)
      | None \<Rightarrow> prepare_all prepare rest (done_names @ [name]))"

definition PrepareStatements ::
  "go_error option \<Rightarrow> (string \<Rightarrow> string \<Rightarrow> go_error option) \<Rightarrow> (string \<times> string) list \<Rightarrow> go_error option \<times> string list" where
  "PrepareStatements acquire prepare statements =
     (case acquire of
        Some err \<Rightarrow> (Some (wrapf ''failed to acquire connection for statement preparation'' err), [])
      | None \<Rightarrow> prepare_all prepare statements [])"

section \<open>What holds\<close>

text \<open>Builders come out of the pool empty, whatever was put back.\<close>

definition builders_clean :: "QueryOptimizer \<Rightarrow> bool" where
  "builders_clean q \<longleftrightarrow> list_all (\<lambda>sb. sb = '''') (qo_builders q)"

lemma builders_clean_ops:
  "builders_clean NewQueryOptimizer"
  "builders_clean q \<Longrightarrow> builders_clean (PutBuilder sb q)"
  "builders_clean q \<Longrightarrow> builders_clean (snd (MarshalWithBuffer marshal v q))"
  by (simp_all add: builders_clean_def NewQueryOptimizer_def PutBuilder_def MarshalWithBuffer_def split: sum.splits)

lemma GetBuilder_clean:
  assumes "builders_clean q" "GetBuilder pick q = (sb, q')"
  shows "sb = '''' \<and> builders_clean q'"
proof -
  obtain rest where "sync_pool_Get '''' pick (qo_builders q) = (sb, rest)" "q' = q\<lparr>qo_builders := rest\<rparr>"
    using assms(2) by (auto simp: GetBuilder_def split: prod.splits)
  then show ?thesis using sync_pool_Get_all [of "''''" pick "qo_builders q" sb rest "\<lambda>sb. sb = ''''"] assms(1)
    by (simp add: builders_clean_def)
qed

text \<open>Success prepares every statement; an error names the first that was refused.\<close>

lemma prepare_all_outcome:
  "case prepare_all prepare stmts ns of
     (None, ds) \<Rightarrow> ds = ns @ map fst stmts \<and> (\<forall>(n, s) \<in> set stmts. prepare n s = None)
   | (Some e, ds) \<Rightarrow> \<exists>pre n s post err. stmts = pre @ (n, s) # post \<and> prepare n s = Some err \<and> ds = ns @ map fst pre \<and>
       (\<forall>(n, s) \<in> set pre. prepare n s = None)"
proof (induction stmts arbitrary: ns)
  case (Cons x stmts)
  obtain n s where x: "x = (n, s)" by (cases x)
  show ?case
  proof (cases "prepare n s")
    case None
    note IH = Cons [of "ns @ [n]"]
    show ?thesis
    proof (cases "prepare_all prepare stmts (ns @ [n])")
      case (Pair r ds)
      show ?thesis
      proof (cases r)
        case None': None
        then show ?thesis using IH Pair None x by simp
      next
        case (Some e)
        then obtain pre m t post err where "stmts = pre @ (m, t) # post" "prepare m t = Some err" "ds = ns @ n # map fst pre"
          "\<forall>(n, s) \<in> set pre. prepare n s = None" using IH Pair by auto
        then have "x # stmts = ((n, s) # pre) @ (m, t) # post \<and> prepare m t = Some err \<and> ds = ns @ map fst ((n, s) # pre) \<and>
            (\<forall>(n, s) \<in> set ((n, s) # pre). prepare n s = None)" using None x by simp
        then have "\<exists>pre n s post err. x # stmts = pre @ (n, s) # post \<and> prepare n s = Some err \<and> ds = ns @ map fst pre \<and>
            (\<forall>(n, s) \<in> set pre. prepare n s = None)" by (intro exI)
        moreover have "prepare_all prepare (x # stmts) ns = (Some e, ds)" using Some Pair None x by simp
        ultimately show ?thesis by (simp only: prod.case option.case)
      qed
    qed
  next
    case (Some err)
    then show ?thesis using x by (auto intro!: exI [of _ "[]"])
  qed
qed simp

end
