(* ===== verification/Wiring.thy ===== *)
theory Wiring
  imports KeyService AsyncAudit Config
begin

text \<open>
  How the server is put together: the connection pool (\<^verbatim>\<open>persistence/connection.go\<close>), the TLS settings
  (\<^verbatim>\<open>wiring/tls.go\<close>), the container that builds the dependencies one after the other
  (\<^verbatim>\<open>wiring/wire_prod.go\<close>), the gRPC server object (\<^verbatim>\<open>app/grpc/server.go\<close>) and the start of
  \<^verbatim>\<open>cmd/polykey/main.go\<close>.  The libraries behind them are the parameter \<open>platform\<close>.
\<close>

section \<open>The platform\<close>

record tls_conf =
  tc_ServerName :: string
  tc_InsecureSkipVerify :: bool
  tc_MinVersion :: nat

definition VersionTLS12 :: nat where "VersionTLS12 = 0x0303"

record pool_conf =
  po_Host :: string
  po_RuntimeParams :: "(string \<rightharpoonup> string) option"
  po_TLSConfig :: "tls_conf option"
  po_MaxConns :: int
  po_MinConns :: int
  po_MaxConnIdleTime :: time
  po_MaxConnLifetime :: time
  po_HealthCheckPeriod :: time

record platform =
  pf_env :: env
  pf_crypto :: crypto_lib
  pf_aws :: aws_lib
  pf_names :: "proto_enum \<Rightarrow> string"
  pf_ParseConfig :: "string \<Rightarrow> go_error + pool_conf"
  pf_NewWithConfig :: "pool_conf \<Rightarrow> go_error option"
  pf_Ping :: "pool_conf \<Rightarrow> go_error option"
  pf_LoadDefaultConfig :: "string \<Rightarrow> go_error option"
  pf_ReadFile :: "string \<Rightarrow> go_error + string"
  pf_yaml_clients :: "string \<Rightarrow> go_error + (string \<times> client_data) list"
  pf_ParseRSAPrivateKeyFromPEM :: "string \<Rightarrow> go_error option"
  pf_X509KeyPair :: "string \<Rightarrow> string \<Rightarrow> go_error option"
  pf_AppendCertsFromPEM :: "string \<Rightarrow> bool"
  pf_Listen :: "int \<Rightarrow> go_error + int"  \<comment> \<open>the port\<close>
  pf_audit_db :: audit_db  \<comment> \<open>the audit table behind the pool\<close>

section \<open>The connection pool\<close>

text \<open>\<^verbatim>\<open>strings.SplitN(host, ".", 2)\<close>.\<close>

fun split_dot :: "string \<Rightarrow> string \<times> string option" where
  "split_dot [] = ([], None)"
| "split_dot (c # s) =
     (if c = CHR ''.'' then ([], Some s) else (case split_dot s of (a, b) \<Rightarrow> (c # a, b)))"

definition pooler_host :: "string \<Rightarrow> string" where
  "pooler_host host =
     (if str_contains host ''-pooler'' then host
      else case split_dot host of (a, Some b) \<Rightarrow> a @ ''-pooler.'' @ b | (_, None) \<Rightarrow> host)"

definition NewSecureConnectionPool ::
  "platform \<Rightarrow> string \<Rightarrow> ServerConfig \<Rightarrow> PersistenceConfig \<Rightarrow> go_error + pool_conf" where
  "NewSecureConnectionPool pf url serverConfig persistenceConfig =
     (case pf_ParseConfig pf url of
        Inl err \<Rightarrow> Inl (wrapf ''failed to parse db config'' err)
      | Inr poolConfig \<Rightarrow>
          if sc_Mode serverConfig = ''production'' \<and> \<not> dbc_TLS_Enabled (pc_Database persistenceConfig)
          then Inl (Plain ''database connection must use TLS in production mode'')
          else
            (let conn = dbc_Connection (pc_Database persistenceConfig);
                 host = pooler_host (po_Host poolConfig);
                 params = (case po_RuntimeParams poolConfig of None \<Rightarrow> Map.empty | Some m \<Rightarrow> m);
                 poolConfig1 = poolConfig
                   \<lparr>po_Host := host,
                    po_RuntimeParams := Some (params(''prefer_simple_protocol'' \<mapsto> ''true'')),
                    po_TLSConfig :=
                      (if dbc_TLS_Enabled (pc_Database persistenceConfig)
                       then Some \<lparr>tc_ServerName = host, tc_InsecureSkipVerify = False, tc_MinVersion = VersionTLS12\<rparr>
                       else po_TLSConfig poolConfig),
                    po_MaxConns := dc_MaxConns conn, po_MinConns := dc_MinConns conn,
                    po_MaxConnIdleTime := dc_MaxConnIdleTime conn, po_MaxConnLifetime := dc_MaxConnLifetime conn,
                    po_HealthCheckPeriod := dc_HealthCheckPeriod conn\<rparr>
             in case pf_NewWithConfig pf poolConfig1 of
                  Some err \<Rightarrow> Inl (wrapf ''failed to create connection pool'' err)
                | None \<Rightarrow>
                    (case pf_Ping pf poolConfig1 of
                       Some err \<Rightarrow> Inl (wrapf ''failed to ping database'' err)
                     | None \<Rightarrow> Inr poolConfig1)))"

section \<open>TLS of the server\<close>

datatype client_auth = NoClientCert | RequestClientCert | RequireAnyClientCert | VerifyClientCertIfGiven
  | RequireAndVerifyClientCert

record server_tls =
  st_Certificate :: "string \<times> string"
  st_MinVersion :: nat
  st_ClientCAs :: "string option"
  st_ClientAuth :: client_auth

definition client_auth_of :: "string \<Rightarrow> client_auth option" where
  "client_auth_of s =
     (if s = ''RequestClientCert'' then Some RequestClientCert
      else if s = ''RequireAnyClientCert'' then Some RequireAnyClientCert
      else if s = ''VerifyClientCertIfGiven'' then Some VerifyClientCertIfGiven
      else if s = ''RequireAndVerifyClientCert'' then Some RequireAndVerifyClientCert
      else if s = ''NoClientCert'' \<or> s = '''' then Some NoClientCert
      else None)"

definition ConfigureTLS :: "platform \<Rightarrow> TLS \<Rightarrow> BootstrapSecrets \<Rightarrow> go_error + server_tls option" where
  "ConfigureTLS pf cfg secrets =
     (if \<not> tls_Enabled cfg then Inr None
      else case pf_X509KeyPair pf (bs_TLSServerCert secrets) (bs_TLSServerKey secrets) of
        Some err \<Rightarrow> Inl (wrapf ''failed to load server TLS key pair'' err)
      | None \<Rightarrow>
          if bs_SpoungeCA secrets \<noteq> '''' \<and> \<not> pf_AppendCertsFromPEM pf (bs_SpoungeCA secrets)
          then Inl (Plain ''failed to add client CA certificate'')
          else case client_auth_of (tls_ClientAuth cfg) of
                 None \<Rightarrow> Inl (Plain (''unsupported client_auth type: '' @ tls_ClientAuth cfg))
               | Some auth \<Rightarrow>
                   Inr (Some \<lparr>st_Certificate = (bs_TLSServerCert secrets, bs_TLSServerKey secrets),
                              st_MinVersion = VersionTLS12,
                              st_ClientCAs = (if bs_SpoungeCA secrets \<noteq> '''' then Some (bs_SpoungeCA secrets) else None),
                              st_ClientAuth = auth\<rparr>))"

section \<open>TLS of a client\<close>

record ClientTLSConfig =
  ct_CertFile :: string
  ct_KeyFile :: string
  ct_CAFile :: string

record client_tls =
  cl_Certificate :: "string \<times> string"
  cl_RootCAs :: string
  cl_MinVersion :: nat

text \<open>The YAML decoder and \<^verbatim>\<open>tls.LoadX509KeyPair\<close> are arguments.\<close>

definition ConfigureClientTLS ::
  "platform \<Rightarrow> (string \<Rightarrow> go_error + ClientTLSConfig) \<Rightarrow> (string \<Rightarrow> string \<Rightarrow> go_error option) \<Rightarrow> string \<Rightarrow> go_error + client_tls" where
  "ConfigureClientTLS pf yaml_Unmarshal loadPair path =
     (case pf_ReadFile pf path of
        Inl err \<Rightarrow> Inl (wrapf (''failed to read client TLS config '' @ path) err)
      | Inr data \<Rightarrow>
          (case yaml_Unmarshal data of
             Inl err \<Rightarrow> Inl (wrapf ''failed to unmarshal client TLS config'' err)
           | Inr f \<Rightarrow>
               (case loadPair (ct_CertFile f) (ct_KeyFile f) of
                  Some err \<Rightarrow> Inl (wrapf ''failed to load client key pair'' err)
                | None \<Rightarrow>
                    (case pf_ReadFile pf (ct_CAFile f) of
                       Inl err \<Rightarrow> Inl (wrapf ''failed to read server CA file'' err)
                     | Inr caCert \<Rightarrow>
                         if \<not> pf_AppendCertsFromPEM pf caCert then Inl (Plain ''failed to add server CA certificate'')
                         else Inr \<lparr>cl_Certificate = (ct_CertFile f, ct_KeyFile f), cl_RootCAs = caCert,
                                   cl_MinVersion = VersionTLS12\<rparr>))))"

section \<open>The container\<close>

datatype audit_logger = SyncLogger audit_db | AsyncLogger async_config async_logger

text \<open>
  A nil field is \<open>None\<close>.  The client store is an interface: the nil pointer of a failed
  \<^verbatim>\<open>NewFileClientStore\<close> makes it \<open>Some None\<close>, which is not nil.  The token manager is known by its
  private key, the authorizer by its inputs.
\<close>

type_synonym client_store = "(string \<times> client) list option"

record Container =
  c_config :: Config
  c_pgxPool :: "pool_conf option"
  c_pgxPoolOnce :: bool
  c_poolClosed :: bool
  c_kmsProviders :: "(string \<times> kms_provider) list option"
  c_keyRepo :: "(key_repo \<times> breaker option) option"
  c_auditRepo :: "audit_db option"
  c_clientStore :: "client_store option"
  c_tokenManager :: "string option"
  c_tokenStore :: "token_store option"
  c_auditLogger :: "audit_logger option"
  c_authorizer :: "(auth_config \<times> key_repo) option"
  c_keyService :: "service option"
  c_authService :: "(client_store \<times> time) option"

definition NewContainer :: "Config \<Rightarrow> Container" where
  "NewContainer cfg =
     \<lparr>c_config = cfg, c_pgxPool = None, c_pgxPoolOnce = False, c_poolClosed = False, c_kmsProviders = None,
      c_keyRepo = None, c_auditRepo = None, c_clientStore = None, c_tokenManager = None, c_tokenStore = None,
      c_auditLogger = None, c_authorizer = None, c_keyService = None, c_authService = None\<rparr>"

type_synonym init = "Container \<Rightarrow> go_error option \<times> Container"

definition initPgxPool :: "platform \<Rightarrow> init" where
  "initPgxPool pf c =
     (if c_pgxPoolOnce c then (None, c)
      else case NewSecureConnectionPool pf (bs_NeonDBURL (g_BootstrapSecrets (c_config c))) (g_Server (c_config c))
                  (g_Persistence (c_config c)) of
             Inl err \<Rightarrow> (Some err, c\<lparr>c_pgxPoolOnce := True, c_pgxPool := None\<rparr>)
           | Inr pool \<Rightarrow> (None, c\<lparr>c_pgxPoolOnce := True, c_pgxPool := Some pool\<rparr>))"

definition GetPgxPool :: "platform \<Rightarrow> Container \<Rightarrow> (go_error + pool_conf option) \<times> Container" where
  "GetPgxPool pf c =
     (case initPgxPool pf c of (Some err, c1) \<Rightarrow> (Inl err, c1) | (None, c1) \<Rightarrow> (Inr (c_pgxPool c1), c1))"

text \<open>The local provider, which may fail after the map was made.\<close>

definition add_local_provider :: "platform \<Rightarrow> init" where
  "add_local_provider pf c =
     (let key = bs_PolykeyMasterKey (g_BootstrapSecrets (c_config c)) in
      if key = '''' then (None, c)
      else case NewLocalKMSProvider key of
             Inl err \<Rightarrow> (Some (wrapf ''failed to create local KMS provider'' err), c)
           | Inr (mk, _) \<Rightarrow>
               (None, c\<lparr>c_kmsProviders :=
                  map_option (\<lambda>ps. ps @ [(''local'', LocalKMSProvider (pf_env pf) (pf_crypto pf) mk)]) (c_kmsProviders c)\<rparr>))"

definition add_aws_provider :: "platform \<Rightarrow> init" where
  "add_aws_provider pf c =
     (let arn = bs_AWSKMSKeyARN (g_BootstrapSecrets (c_config c)) in
      case g_AWS (c_config c) of
        None \<Rightarrow> (Some (Panicked ''invalid memory address or nil pointer dereference''), c)
      | Some a \<Rightarrow>
          if awc_Enabled a \<and> arn \<noteq> '''' then
            (case pf_LoadDefaultConfig pf (awc_Region a) of
               Some err \<Rightarrow> (Some (wrapf ''failed to load AWS config'' err), c)
             | None \<Rightarrow>
                 (None, c\<lparr>c_kmsProviders :=
                    map_option (\<lambda>ps. ps @ [(''aws'', NewAWSKMSProvider (pf_env pf) (pf_aws pf) arn)]) (c_kmsProviders c)\<rparr>))
          else (None, c))"

definition set_client_ca :: "Container \<Rightarrow> Container" where
  "set_client_ca c =
     (let cfg = c_config c; srv = g_Server cfg; ca = bs_SpoungeCA (g_BootstrapSecrets cfg) in
      if tls_Enabled (sc_TLS srv) \<and> ca \<noteq> ''''
      then c\<lparr>c_config := cfg\<lparr>g_Server := srv\<lparr>sc_TLS := (sc_TLS srv)\<lparr>tls_ClientCAFile := ca\<rparr>\<rparr>\<rparr>\<rparr>
      else c)"

definition container_initKMSProviders :: "platform \<Rightarrow> init" where
  "container_initKMSProviders pf c =
     (if c_kmsProviders c \<noteq> None then (None, c)
      else case add_local_provider pf (c\<lparr>c_kmsProviders := Some []\<rparr>) of
        (Some err, c1) \<Rightarrow> (Some err, c1)
      | (None, c1) \<Rightarrow>
          (case add_aws_provider pf c1 of
             (Some err, c2) \<Rightarrow> (Some err, c2)
           | (None, c2) \<Rightarrow>
               (let c3 = set_client_ca c2
                in (if c_kmsProviders c3 = Some [] then Some (Plain ''no KMS provider configured'') else None, c3))))"

definition initTokenStore :: init where
  "initTokenStore c =
     (if c_tokenStore c \<noteq> None then (None, c) else (None, c\<lparr>c_tokenStore := Some NewInMemoryTokenStore\<rparr>))"

definition container_initKeyRepository :: "platform \<Rightarrow> init" where
  "container_initKeyRepository pf c =
     (if c_keyRepo c \<noteq> None then (None, c)
      else case c_pgxPool c of
        None \<Rightarrow> (Some (Plain ''database pool not initialized''), c)
      | Some _ \<Rightarrow>
          (let cb = pc_CircuitBreaker (g_Persistence (c_config c))
           in (None, c\<lparr>c_keyRepo := Some
                 (initKeyRepository (pf_env pf) (cbc_Enabled cb),
                  if cbc_Enabled cb then Some (breaker_New (cbc_MaxFailures cb) [WithResetTimeout (cbc_ResetTimeout cb)])
                  else None)\<rparr>)))"

definition initAuditRepository :: "platform \<Rightarrow> init" where
  "initAuditRepository pf c =
     (if c_auditRepo c \<noteq> None then (None, c)
      else case c_pgxPool c of
        None \<Rightarrow> (Some (Plain ''database pool not initialized''), c)
      | Some _ \<Rightarrow> (None, c\<lparr>c_auditRepo := Some (pf_audit_db pf)\<rparr>))"

definition async_config_of :: "AsynchronousAuditingConfig \<Rightarrow> async_config" where
  "async_config_of a =
     \<lparr>ChannelBufferSize = aac_ChannelBufferSize a, WorkerCount = aac_WorkerCount a, BatchSize = aac_BatchSize a,
      BatchTimeout = aac_BatchTimeout a\<rparr>"

definition make_audit_logger :: "AsynchronousAuditingConfig \<Rightarrow> audit_db \<Rightarrow> go_error + audit_logger" where
  "make_audit_logger a d =
     (if aac_Enabled a then
        (case NewAsyncAuditLogger (async_config_of a) d of
           Inl p \<Rightarrow> Inl p
         | Inr l \<Rightarrow>
             (case async_Start (async_config_of a) l of
                Inl p \<Rightarrow> Inl p
              | Inr l1 \<Rightarrow> Inr (AsyncLogger (async_config_of a) l1)))
      else Inr (SyncLogger d))"

definition initAuditLogger :: init where
  "initAuditLogger c =
     (if c_auditLogger c \<noteq> None then (None, c)
      else case c_auditRepo c of
        None \<Rightarrow> (Some (Plain ''audit repository not initialized''), c)
      | Some d \<Rightarrow>
          (case make_audit_logger (g_Auditing (c_config c)) d of
             Inl p \<Rightarrow> (Some p, c)
           | Inr l \<Rightarrow> (None, c\<lparr>c_auditLogger := Some l\<rparr>)))"

definition initClientStore :: "platform \<Rightarrow> init" where
  "initClientStore pf c =
     (if c_clientStore c \<noteq> None then (None, c)
      else (let path = g_ClientCredentialsPath (c_config c)
            in case NewFileClientStore (pf_yaml_clients pf) path (pf_ReadFile pf path) of
                 Inl err \<Rightarrow> (Some err, c\<lparr>c_clientStore := Some None\<rparr>)
               | Inr cs \<Rightarrow> (None, c\<lparr>c_clientStore := Some (Some cs)\<rparr>)))"

definition NewTokenManager :: "platform \<Rightarrow> string \<Rightarrow> go_error + string" where
  "NewTokenManager pf privateKeyPEM =
     (case pf_ParseRSAPrivateKeyFromPEM pf privateKeyPEM of
        Some err \<Rightarrow> Inl (wrapf ''failed to parse RSA private key'' err)
      | None \<Rightarrow> Inr privateKeyPEM)"

definition initTokenManager :: "platform \<Rightarrow> init" where
  "initTokenManager pf c =
     (if c_tokenManager c \<noteq> None then (None, c)
      else if c_tokenStore c = None then (Some (Plain ''token store not initialized''), c)
      else case NewTokenManager pf (bs_JWTRSAPrivateKey (g_BootstrapSecrets (c_config c))) of
             Inl err \<Rightarrow> (Some err, c)
           | Inr tm \<Rightarrow> (None, c\<lparr>c_tokenManager := Some tm\<rparr>))"

definition initAuthorizer :: init where
  "initAuthorizer c =
     (if c_authorizer c \<noteq> None then (None, c)
      else case c_keyRepo c of
        None \<Rightarrow> (Some (Plain ''key repository not initialized''), c)
      | Some (R, _) \<Rightarrow>
          if c_auditLogger c = None then (Some (Plain ''audit logger not initialized''), c)
          else (None, c\<lparr>c_authorizer := Some (g_Authorization (c_config c), R)\<rparr>))"

definition initKeyService :: "platform \<Rightarrow> init" where
  "initKeyService pf c =
     (if c_keyService c \<noteq> None then (None, c)
      else case c_keyRepo c of
        None \<Rightarrow> (Some (Plain ''key repository not initialized''), c)
      | Some (R, _) \<Rightarrow>
          (case c_kmsProviders c of
             None \<Rightarrow> (Some (Plain ''kms providers not initialized''), c)
           | Some ps \<Rightarrow>
               if c_auditLogger c = None then (Some (Plain ''audit logger not initialized''), c)
               else (None, c\<lparr>c_keyService := Some (NewKeyService (pf_env pf) (pf_crypto pf) (pf_names pf) R ps
                      (g_DefaultKMSProvider (c_config c)))\<rparr>)))"

definition initAuthService :: init where
  "initAuthService c =
     (if c_authService c \<noteq> None then (None, c)
      else case c_clientStore c of
        None \<Rightarrow> (Some (Plain ''client store not initialized''), c)
      | Some cs \<Rightarrow>
          if c_tokenManager c = None then (Some (Plain ''token manager not initialized''), c)
          else (None, c\<lparr>c_authService := Some (cs, hour)\<rparr>))"

fun run_inits :: "init list \<Rightarrow> init" where
  "run_inits [] c = (None, c)"
| "run_inits (f # fs) c = (case f c of (Some err, c1) \<Rightarrow> (Some err, c1) | (None, c1) \<Rightarrow> run_inits fs c1)"

definition initializers :: "platform \<Rightarrow> init list" where
  "initializers pf =
     [initPgxPool pf, container_initKMSProviders pf, initTokenStore, container_initKeyRepository pf,
      initAuditRepository pf, initAuditLogger, initClientStore pf, initTokenManager pf, initAuthorizer,
      initKeyService pf, initAuthService]"

definition initializeAll :: "platform \<Rightarrow> init" where
  "initializeAll pf = run_inits (initializers pf)"

record Dependencies =
  d_KMSProviders :: "(string \<times> kms_provider) list option"
  d_KeyRepo :: "(key_repo \<times> breaker option) option"
  d_AuditRepo :: "audit_db option"
  d_AuditLogger :: "audit_logger option"
  d_ClientStore :: "client_store option"
  d_TokenManager :: "string option"
  d_Authorizer :: "(auth_config \<times> key_repo) option"
  d_KeyService :: "service option"
  d_AuthService :: "(client_store \<times> time) option"

definition dependencies_of :: "Container \<Rightarrow> Dependencies" where
  "dependencies_of c =
     \<lparr>d_KMSProviders = c_kmsProviders c, d_KeyRepo = c_keyRepo c, d_AuditRepo = c_auditRepo c,
      d_AuditLogger = c_auditLogger c, d_ClientStore = c_clientStore c, d_TokenManager = c_tokenManager c,
      d_Authorizer = c_authorizer c, d_KeyService = c_keyService c, d_AuthService = c_authService c\<rparr>"

definition GetDependencies :: "platform \<Rightarrow> Container \<Rightarrow> (go_error + Dependencies) \<times> Container" where
  "GetDependencies pf c =
     (case initializeAll pf c of
        (Some err, c1) \<Rightarrow> (Inl (wrapf ''failed to initialize dependencies'' err), c1)
      | (None, c1) \<Rightarrow> (Inr (dependencies_of c1), c1))"

text \<open>
  \<^verbatim>\<open>Close\<close>: the synchronous logger has no \<^verbatim>\<open>Stop\<close> and no KMS provider has a \<^verbatim>\<open>Close\<close>.  The wait in
  \<^verbatim>\<open>Stop\<close> is the matter of \<open>async_step\<close>.
\<close>

definition Close :: "Container \<Rightarrow> go_error option \<times> Container" where
  "Close c =
     (let close_pool = (\<lambda>c. if c_pgxPool c \<noteq> None then c\<lparr>c_poolClosed := True\<rparr> else c) in
      case c_auditLogger c of
        Some (AsyncLogger cfg l) \<Rightarrow>
          (case async_Stop l of
             Inl p \<Rightarrow> (Some p, c)
           | Inr l1 \<Rightarrow> (None, close_pool (c\<lparr>c_auditLogger := Some (AsyncLogger cfg l1)\<rparr>)))
      | _ \<Rightarrow> (None, close_pool c))"

definition GetS3KeyRepository :: "platform \<Rightarrow> Container \<Rightarrow> go_error + string" where
  "GetS3KeyRepository pf c =
     (case g_AWS (c_config c) of
        None \<Rightarrow> Inl (Panicked ''invalid memory address or nil pointer dereference'')
      | Some a \<Rightarrow>
          (case pf_LoadDefaultConfig pf (awc_Region a) of Some err \<Rightarrow> Inl err | None \<Rightarrow> Inr (awc_S3Bucket a)))"

text \<open>The legacy entry point: its deferred \<^verbatim>\<open>Close\<close> runs before the caller gets the dependencies.\<close>

definition ProvideDependencies :: "platform \<Rightarrow> Config \<Rightarrow> (go_error + Dependencies) \<times> Container" where
  "ProvideDependencies pf cfg =
     (case GetDependencies pf (NewContainer cfg) of
        (r, c1) \<Rightarrow>
          (case Close c1 of
             (Some (Panicked p), c2) \<Rightarrow> (Inl (Panicked p), c2)
           | (_, c2) \<Rightarrow> (r, c2)))"

section \<open>The server object and the start of the program\<close>

datatype serving = NoStatus | SERVING | NOT_SERVING

record Server =
  sv_port :: int
  sv_tls :: "server_tls option"
  sv_tokenManager :: string
  sv_tokens :: token_store
  sv_limit :: "float64 \<times> int"
  sv_interceptors :: "string list"
  sv_status :: serving

definition grpc_New :: "platform \<Rightarrow> Config \<Rightarrow> server_tls option \<Rightarrow> go_error + Server" where
  "grpc_New pf cfg tlsConfig =
     (case pf_Listen pf (sc_Port (g_Server cfg)) of
        Inl err \<Rightarrow> Inl (wrapf ''failed to listen'' err)
      | Inr port \<Rightarrow>
          (case NewTokenManager pf (bs_JWTRSAPrivateKey (g_BootstrapSecrets cfg)) of
             Inl err \<Rightarrow> Inl (wrapf ''failed to create token manager for interceptor'' err)
           | Inr tm \<Rightarrow>
               Inr \<lparr>sv_port = port, sv_tls = tlsConfig, sv_tokenManager = tm, sv_tokens = NewInMemoryTokenStore,
                    sv_limit = (rlc_Rate (sc_RateLimiter (g_Server cfg)), rlc_Burst (sc_RateLimiter (g_Server cfg))),
                    sv_interceptors = [''UnaryLoggingInterceptor'', ''AuthenticationInterceptor'', ''UnaryValidationInterceptor''],
                    sv_status = NoStatus\<rparr>))"

definition Server_Start :: "Server \<Rightarrow> Server" where
  "Server_Start s = s\<lparr>sv_status := SERVING\<rparr>"

definition Server_Stop :: "Server \<Rightarrow> Server" where
  "Server_Stop s = s\<lparr>sv_status := NOT_SERVING\<rparr>"

definition Server_Health :: "Server \<Rightarrow> bool \<times> string" where
  "Server_Health s = (True, ''gRPC server is running'')"

text \<open>\<^verbatim>\<open>main\<close> up to the server: \<open>Inl\<close> is the message and error of an exit with status 1.\<close>

definition main_start ::
  "'v loader \<Rightarrow> platform \<Rightarrow> string \<Rightarrow> (string \<times> go_error) + (Server \<times> Dependencies \<times> Container)" where
  "main_start P pf path =
     (case Load P path of
        Inl err \<Rightarrow> Inl (''failed to load config'', err)
      | Inr cfg \<Rightarrow>
          (case ConfigureTLS pf (sc_TLS (g_Server cfg)) (g_BootstrapSecrets cfg) of
             Inl err \<Rightarrow> Inl (''failed to configure TLS'', err)
           | Inr tlsConfig \<Rightarrow>
               (case GetDependencies pf (NewContainer cfg) of
                  (Inl err, _) \<Rightarrow> Inl (''failed to get dependencies'', err)
                | (Inr deps, c) \<Rightarrow>
                    (case grpc_New pf (c_config c) tlsConfig of
                       Inl err \<Rightarrow> Inl (''failed to create server'', err)
                     | Inr srv \<Rightarrow> Inr (srv, deps, c)))))"

text \<open>
  The end of \<^verbatim>\<open>main\<close>: the resources stop in reverse order, then the deferred \<^verbatim>\<open>Close\<close> of the container
  runs.
\<close>

definition main_shutdown :: "Server \<Rightarrow> Container \<Rightarrow> Server \<times> go_error option \<times> Container" where
  "main_shutdown srv c = (Server_Stop srv, Close c)"

section \<open>The pool's host\<close>

lemma split_dot_Some: "split_dot s = (a, Some b) \<Longrightarrow> s = a @ ''.'' @ b"
  by (induction s arbitrary: a) (auto split: if_splits prod.splits)

lemma split_dot_None: "split_dot s = (a, None) \<Longrightarrow> CHR ''.'' \<notin> set s"
  by (induction s arbitrary: a) (auto split: if_splits prod.splits)

text \<open>A host with a domain ends up on the pooler, and applying the rewriting again changes nothing.\<close>

lemma pooler_host_pooled: "CHR ''.'' \<in> set h \<Longrightarrow> str_contains (pooler_host h) ''-pooler''"
proof (cases "split_dot h")
  case (Pair a b)
  assume dot: "CHR ''.'' \<in> set h"
  then obtain b' where b: "b = Some b'" using Pair split_dot_None [of h a] by (cases b) auto
  have "a @ ''-pooler.'' @ b' = a @ ''-pooler'' @ (''.'' @ b')" by simp
  then show ?thesis using Pair b by (auto simp: pooler_host_def str_contains_iff)
qed

lemma pooler_host_idem: "pooler_host (pooler_host h) = pooler_host h"
proof (cases "CHR ''.'' \<in> set h")
  case True
  then show ?thesis using pooler_host_pooled [OF True] by (simp add: pooler_host_def [of "pooler_host h"])
next
  case False
  then have "pooler_host h = h"
    using split_dot_Some [of h] by (cases "split_dot h"; cases "snd (split_dot h)") (auto simp: pooler_host_def split: prod.splits option.splits)
  then show ?thesis by simp
qed

text \<open>In production a pool is built with verified TLS only.\<close>

lemma production_pool_uses_tls:
  assumes "NewSecureConnectionPool pf url s p = Inr pool" "sc_Mode s = ''production''"
  shows "po_TLSConfig pool = Some \<lparr>tc_ServerName = po_Host pool, tc_InsecureSkipVerify = False, tc_MinVersion = VersionTLS12\<rparr>"
  using assms by (auto simp: NewSecureConnectionPool_def Let_def split: sum.splits if_splits option.splits)

section \<open>The container builds what it should\<close>

text \<open>The dependencies of a configuration, without the container's fields and guards.\<close>

definition kms_of :: "platform \<Rightarrow> Config \<Rightarrow> go_error + (string \<times> kms_provider) list" where
  "kms_of pf cfg =
     (let s = g_BootstrapSecrets cfg;
          finish = (\<lambda>ps. if ps = [] then Inl (Plain ''no KMS provider configured'') else Inr ps)
      in case (if bs_PolykeyMasterKey s = '''' then Inr []
               else case NewLocalKMSProvider (bs_PolykeyMasterKey s) of
                      Inl err \<Rightarrow> Inl (wrapf ''failed to create local KMS provider'' err)
                    | Inr (mk, _) \<Rightarrow> Inr [(''local'', LocalKMSProvider (pf_env pf) (pf_crypto pf) mk)]) of
           Inl err \<Rightarrow> Inl err
         | Inr ps \<Rightarrow>
             (case g_AWS cfg of
                None \<Rightarrow> Inl (Panicked ''invalid memory address or nil pointer dereference'')
              | Some a \<Rightarrow>
                  if awc_Enabled a \<and> bs_AWSKMSKeyARN s \<noteq> '''' then
                    (case pf_LoadDefaultConfig pf (awc_Region a) of
                       Some err \<Rightarrow> Inl (wrapf ''failed to load AWS config'' err)
                     | None \<Rightarrow> finish (ps @ [(''aws'', NewAWSKMSProvider (pf_env pf) (pf_aws pf) (bs_AWSKMSKeyARN s))]))
                  else finish ps))"

definition repo_of :: "platform \<Rightarrow> Config \<Rightarrow> key_repo \<times> breaker option" where
  "repo_of pf cfg =
     (let cb = pc_CircuitBreaker (g_Persistence cfg)
      in (initKeyRepository (pf_env pf) (cbc_Enabled cb),
          if cbc_Enabled cb then Some (breaker_New (cbc_MaxFailures cb) [WithResetTimeout (cbc_ResetTimeout cb)]) else None))"

definition wired :: "platform \<Rightarrow> Config \<Rightarrow> go_error + Dependencies" where
  "wired pf cfg =
     (case NewSecureConnectionPool pf (bs_NeonDBURL (g_BootstrapSecrets cfg)) (g_Server cfg) (g_Persistence cfg) of
        Inl err \<Rightarrow> Inl err
      | Inr _ \<Rightarrow>
      case kms_of pf cfg of
        Inl err \<Rightarrow> Inl err
      | Inr ps \<Rightarrow>
      case make_audit_logger (g_Auditing cfg) (pf_audit_db pf) of
        Inl p \<Rightarrow> Inl p
      | Inr logger \<Rightarrow>
      case NewFileClientStore (pf_yaml_clients pf) (g_ClientCredentialsPath cfg) (pf_ReadFile pf (g_ClientCredentialsPath cfg)) of
        Inl err \<Rightarrow> Inl err
      | Inr clients \<Rightarrow>
      case NewTokenManager pf (bs_JWTRSAPrivateKey (g_BootstrapSecrets cfg)) of
        Inl err \<Rightarrow> Inl err
      | Inr tm \<Rightarrow>
        Inr \<lparr>d_KMSProviders = Some ps, d_KeyRepo = Some (repo_of pf cfg), d_AuditRepo = Some (pf_audit_db pf),
             d_AuditLogger = Some logger, d_ClientStore = Some (Some clients), d_TokenManager = Some tm,
             d_Authorizer = Some (g_Authorization cfg, fst (repo_of pf cfg)),
             d_KeyService = Some (NewKeyService (pf_env pf) (pf_crypto pf) (pf_names pf) (fst (repo_of pf cfg)) ps
               (g_DefaultKMSProvider cfg)),
             d_AuthService = Some (Some clients, hour)\<rparr>)"

lemma set_client_ca_frame [simp]:
  "c_kmsProviders (set_client_ca c) = c_kmsProviders c"
  "g_BootstrapSecrets (c_config (set_client_ca c)) = g_BootstrapSecrets (c_config c)"
  by (simp_all add: set_client_ca_def Let_def)

definition ca_config :: "Config \<Rightarrow> Config" where
  "ca_config cfg = c_config (set_client_ca (NewContainer cfg))"

lemma ca_config_simps [simp]:
  "g_Persistence (ca_config cfg) = g_Persistence cfg" "g_Auditing (ca_config cfg) = g_Auditing cfg"
  "g_ClientCredentialsPath (ca_config cfg) = g_ClientCredentialsPath cfg"
  "g_BootstrapSecrets (ca_config cfg) = g_BootstrapSecrets cfg" "g_Authorization (ca_config cfg) = g_Authorization cfg"
  "g_DefaultKMSProvider (ca_config cfg) = g_DefaultKMSProvider cfg" "g_AWS (ca_config cfg) = g_AWS cfg"
  by (simp_all add: ca_config_def set_client_ca_def NewContainer_def Let_def)

lemma set_client_ca_config: "set_client_ca c = c\<lparr>c_config := ca_config (c_config c)\<rparr>"
  by (simp add: ca_config_def set_client_ca_def NewContainer_def Let_def)

text \<open>The KMS step of a fresh container.\<close>

lemma initKMSProviders_fresh:
  assumes "c_kmsProviders c = None"
  shows "kms_of pf (c_config c) = Inr ps \<Longrightarrow>
      container_initKMSProviders pf c = (None, c\<lparr>c_kmsProviders := Some ps, c_config := ca_config (c_config c)\<rparr>)"
    "kms_of pf (c_config c) = Inl err \<Longrightarrow> \<exists>c1. container_initKMSProviders pf c = (Some err, c1) \<and>
      c_kmsProviders c1 \<noteq> None"
  using assms
  by (auto simp: kms_of_def container_initKMSProviders_def add_local_provider_def add_aws_provider_def Let_def
      set_client_ca_config split: if_splits option.splits sum.splits prod.splits)

lemma kms_of_initKMSProviders:
  assumes "g_AWS cfg = Some a" "pf_LoadDefaultConfig pf (awc_Region a) = None"
  shows "kms_of pf cfg = initKMSProviders (pf_env pf) (pf_crypto pf) (pf_aws pf) (bs_PolykeyMasterKey (g_BootstrapSecrets cfg))
    (awc_Enabled a) (bs_AWSKMSKeyARN (g_BootstrapSecrets cfg))"
  using assms by (auto simp: kms_of_def initKMSProviders_def Let_def split: sum.splits)

text \<open>The steps after the pool and the providers, on a container that has both.\<close>

definition later_inits :: "platform \<Rightarrow> init list" where
  "later_inits pf =
     [initTokenStore, container_initKeyRepository pf, initAuditRepository pf, initAuditLogger, initClientStore pf,
      initTokenManager pf, initAuthorizer, initKeyService pf, initAuthService]"

lemmas init_defs = initTokenStore_def container_initKeyRepository_def initAuditRepository_def initAuditLogger_def
  initClientStore_def initTokenManager_def initAuthorizer_def initKeyService_def initAuthService_def

definition pooled :: "pool_conf \<Rightarrow> (string \<times> kms_provider) list \<Rightarrow> Config \<Rightarrow> Container" where
  "pooled pool ps cfg =
     (NewContainer (ca_config cfg))\<lparr>c_pgxPoolOnce := True, c_pgxPool := Some pool, c_kmsProviders := Some ps\<rparr>"

lemma later_inits_wired:
  assumes pool: "NewSecureConnectionPool pf (bs_NeonDBURL (g_BootstrapSecrets cfg)) (g_Server cfg) (g_Persistence cfg) = Inr pool"
    and kms: "kms_of pf cfg = Inr ps"
  shows "case run_inits (later_inits pf) (pooled pool ps cfg) of
      (Some err, c1) \<Rightarrow> wired pf cfg = Inl err
    | (None, c1) \<Rightarrow> wired pf cfg = Inr (dependencies_of c1) \<and> c_config c1 = ca_config cfg \<and> c_pgxPool c1 = Some pool"
proof (cases "make_audit_logger (g_Auditing cfg) (pf_audit_db pf)")
  case (Inl p)
  then show ?thesis using pool kms by (simp add: later_inits_def pooled_def NewContainer_def init_defs wired_def Let_def)
next
  case log: (Inr logger)
  show ?thesis
  proof (cases "NewFileClientStore (pf_yaml_clients pf) (g_ClientCredentialsPath cfg) (pf_ReadFile pf (g_ClientCredentialsPath cfg))")
    case (Inl err)
    then show ?thesis using pool kms log by (simp add: later_inits_def pooled_def NewContainer_def init_defs wired_def Let_def)
  next
    case cs: (Inr clients)
    show ?thesis
      using pool kms log cs
      by (cases "NewTokenManager pf (bs_JWTRSAPrivateKey (g_BootstrapSecrets cfg))")
        (simp_all add: later_inits_def pooled_def NewContainer_def init_defs wired_def repo_of_def dependencies_of_def Let_def)
  qed
qed

lemma initializeAll_fresh:
  "case initializeAll pf (NewContainer cfg) of
      (Some err, c1) \<Rightarrow> wired pf cfg = Inl err
    | (None, c1) \<Rightarrow> wired pf cfg = Inr (dependencies_of c1) \<and> c_config c1 = ca_config cfg \<and> c_pgxPool c1 \<noteq> None"
proof (cases "NewSecureConnectionPool pf (bs_NeonDBURL (g_BootstrapSecrets cfg)) (g_Server cfg) (g_Persistence cfg)")
  case (Inl err)
  then show ?thesis by (simp add: initializeAll_def initializers_def initPgxPool_def NewContainer_def wired_def)
next
  case pool: (Inr pool)
  define c0 where "c0 = (NewContainer cfg)\<lparr>c_pgxPoolOnce := True, c_pgxPool := Some pool\<rparr>"
  have first: "initPgxPool pf (NewContainer cfg) = (None, c0)"
    using pool by (simp add: initPgxPool_def NewContainer_def c0_def)
  have c0: "c_kmsProviders c0 = None" "c_config c0 = cfg" by (simp_all add: c0_def NewContainer_def)
  note fresh = initKMSProviders_fresh [OF c0(1), of pf, unfolded c0(2)]
  have all: "initializeAll pf (NewContainer cfg) = run_inits (container_initKMSProviders pf # later_inits pf) c0"
    using first by (simp add: initializeAll_def initializers_def later_inits_def)
  show ?thesis
  proof (cases "kms_of pf cfg")
    case (Inl err)
    then show ?thesis using fresh(2) all pool by (auto simp: wired_def)
  next
    case (Inr ps)
    then have "initializeAll pf (NewContainer cfg) = run_inits (later_inits pf) (pooled pool ps cfg)"
      using fresh(1) all by (simp add: pooled_def c0_def NewContainer_def)
    then show ?thesis using later_inits_wired [OF pool Inr] by (auto split: prod.splits option.splits)
  qed
qed

text \<open>A fresh container gives the dependencies of its configuration, or the error that stopped them.\<close>

lemma GetDependencies_wired:
  "fst (GetDependencies pf (NewContainer cfg)) =
     (case wired pf cfg of
        Inl err \<Rightarrow> Inl (wrapf ''failed to initialize dependencies'' err)
      | Inr deps \<Rightarrow> Inr deps)"
  using initializeAll_fresh [of pf cfg] by (auto simp: GetDependencies_def split: prod.splits option.splits)

section \<open>Retries\<close>

text \<open>
  \<^verbatim>\<open>sync.Once\<close> runs once: when the pool could not be opened, every later attempt with the same
  container fails, whatever the database does by then.
\<close>

lemma pool_failure_sticks:
  assumes "initPgxPool pf c = (Some err, c1)" "c_keyRepo c = None"
  shows "initPgxPool pf' c1 = (None, c1)" "\<exists>e. fst (initializeAll pf' c1) = Some e" "c_keyRepo c1 = None"
proof -
  have c1: "c_pgxPoolOnce c1" "c_pgxPool c1 = None" "c_keyRepo c1 = None"
    using assms by (auto simp: initPgxPool_def split: if_splits sum.splits)
  then show once: "initPgxPool pf' c1 = (None, c1)" "c_keyRepo c1 = None" by (simp_all add: initPgxPool_def)
  obtain r c2 where k: "container_initKMSProviders pf' c1 = (r, c2)" by fastforce
  have c2: "c_pgxPool c2 = None" "c_keyRepo c2 = None"
    using k c1 by (auto simp: container_initKMSProviders_def add_local_provider_def add_aws_provider_def set_client_ca_def
        Let_def split: if_splits option.splits sum.splits prod.splits)
  obtain c3 where t: "initTokenStore c2 = (None, c3)" "c_pgxPool c3 = None" "c_keyRepo c3 = None"
    using c2 by (cases "c_tokenStore c2") (auto simp: initTokenStore_def)
  show "\<exists>e. fst (initializeAll pf' c1) = Some e"
    using once(1) k t by (cases r) (simp_all add: initializeAll_def initializers_def container_initKeyRepository_def)
qed

text \<open>
  A container whose providers could not be built keeps an empty map, and a second attempt takes it
  for initialized: the key service then has no provider at all.
\<close>

lemma kms_failure_forgotten:
  assumes "c_kmsProviders c = None" "bs_PolykeyMasterKey (g_BootstrapSecrets (c_config c)) \<noteq> ''''"
    and "NewLocalKMSProvider (bs_PolykeyMasterKey (g_BootstrapSecrets (c_config c))) = Inl e"
  shows "\<exists>c1. container_initKMSProviders pf c = (Some (wrapf ''failed to create local KMS provider'' e), c1) \<and>
    container_initKMSProviders pf' c1 = (None, c1) \<and> c_kmsProviders c1 = Some []"
  using assms by (simp add: container_initKMSProviders_def add_local_provider_def Let_def)

text \<open>
  After a failed \<^verbatim>\<open>NewFileClientStore\<close> the field holds a nil pointer in an interface: a second attempt
  passes the guards and the authentication service works on a store that is not there.
\<close>

lemma client_store_failure_forgotten:
  assumes "initClientStore pf c = (Some err, c1)" "c_tokenManager c1 = Some tm" "c_authService c1 = None"
  shows "initClientStore pf' c1 = (None, c1) \<and> initAuthService c1 = (None, c1\<lparr>c_authService := Some (None, hour)\<rparr>)"
proof -
  have "c_clientStore c1 = Some None"
    using assms(1) by (auto simp: initClientStore_def Let_def split: if_splits sum.splits)
  then show ?thesis using assms(2,3) by (simp add: initClientStore_def initAuthService_def)
qed

section \<open>Closing\<close>

text \<open>\<^verbatim>\<open>ProvideDependencies\<close> hands out dependencies whose pool is closed and whose audit logger is stopped.\<close>

lemma Close_cases:
  assumes "Close c = (None, c1)"
  shows "(c_pgxPool c \<noteq> None \<longrightarrow> c_poolClosed c1) \<and>
    (\<forall>cfg l. c_auditLogger c = Some (AsyncLogger cfg l) \<longrightarrow>
       (\<exists>l1. c_auditLogger c1 = Some (AsyncLogger cfg l1) \<and> al_closed l1))"
  using assms
  by (auto simp: Close_def Let_def async_Stop_def log_line_def split: option.splits audit_logger.splits if_splits)

lemma provided_dependencies_closed:
  assumes "ProvideDependencies pf cfg = (Inr deps, c)"
  shows "c_poolClosed c"
    "c_auditLogger c = Some (AsyncLogger a l) \<Longrightarrow> fst (async_AuditLog a e l) = SendOnClosed"
proof -
  obtain r c1 where g: "GetDependencies pf (NewContainer cfg) = (r, c1)" by fastforce
  then have r: "r = Inr deps" "Close c1 = (None, c)" using assms
    by (auto simp: ProvideDependencies_def Close_def Let_def async_Stop_def split: prod.splits option.splits go_error.splits
        audit_logger.splits if_splits)
  then have "c_pgxPool c1 \<noteq> None"
    using g initializeAll_fresh [of pf cfg] by (auto simp: GetDependencies_def split: prod.splits option.splits)
  then show "c_poolClosed c" using Close_cases [OF r(2)] by simp
  assume l: "c_auditLogger c = Some (AsyncLogger a l)"
  then have "al_closed l"
    using r(2) by (auto simp: Close_def Let_def async_Stop_def log_line_def split: option.splits audit_logger.splits if_splits)
  then show "fst (async_AuditLog a e l) = SendOnClosed" by (simp add: async_AuditLog_def)
qed

section \<open>From a loaded configuration\<close>

text \<open>The persistence type is validated and then not used: the dependencies do not depend on it.\<close>

lemma persistence_type_ignored:
  "fst (GetDependencies pf (NewContainer (cfg\<lparr>g_Persistence := (g_Persistence cfg)\<lparr>pc_Type := t\<rparr>\<rparr>))) =
   fst (GetDependencies pf (NewContainer cfg))"
proof -
  let ?cfg = "cfg\<lparr>g_Persistence := (g_Persistence cfg)\<lparr>pc_Type := t\<rparr>\<rparr>"
  have sel: "g_BootstrapSecrets ?cfg = g_BootstrapSecrets cfg" "g_AWS ?cfg = g_AWS cfg" "g_Server ?cfg = g_Server cfg"
    "g_Auditing ?cfg = g_Auditing cfg" "g_ClientCredentialsPath ?cfg = g_ClientCredentialsPath cfg"
    "g_Authorization ?cfg = g_Authorization cfg" "g_DefaultKMSProvider ?cfg = g_DefaultKMSProvider cfg"
    "g_Persistence ?cfg = (g_Persistence cfg)\<lparr>pc_Type := t\<rparr>" by simp_all
  have kms: "kms_of pf ?cfg = kms_of pf cfg" unfolding kms_of_def sel ..
  have repo: "repo_of pf ?cfg = repo_of pf cfg" by (simp add: repo_of_def)
  have pool: "NewSecureConnectionPool pf url s ((g_Persistence cfg)\<lparr>pc_Type := t\<rparr>) = NewSecureConnectionPool pf url s (g_Persistence cfg)"
    for url s by (cases "pf_ParseConfig pf url") (simp_all add: NewSecureConnectionPool_def)
  have "wired pf ?cfg = wired pf cfg" unfolding wired_def kms repo sel pool ..
  then show ?thesis by (simp add: GetDependencies_wired)
qed

text \<open>
  A configuration that was loaded passes \<^verbatim>\<open>ConfigureTLS\<close> but for a CA the X.509 library refuses and a
  client authentication type it does not know.
\<close>

lemma loaded_tls:
  assumes "config_valid P cfg" "ld_X509KeyPair P = pf_X509KeyPair pf"
  shows "(\<exists>t. ConfigureTLS pf (sc_TLS (g_Server cfg)) (g_BootstrapSecrets cfg) = Inr t) \<longleftrightarrow>
    \<not> tls_Enabled (sc_TLS (g_Server cfg)) \<or>
    (pf_AppendCertsFromPEM pf (bs_SpoungeCA (g_BootstrapSecrets cfg)) \<and> client_auth_of (tls_ClientAuth (sc_TLS (g_Server cfg))) \<noteq> None)"
  using assms pem_shape_nonempty [of "bs_SpoungeCA (g_BootstrapSecrets cfg)"]
  by (auto simp: ConfigureTLS_def config_valid_def Let_def split: option.splits)

text \<open>An asynchronous logger starts exactly for sizes in range, which validation does not check.\<close>

lemma make_audit_logger_ok:
  "(\<exists>l. make_audit_logger a d = Inr l) \<longleftrightarrow>
    \<not> aac_Enabled a \<or> (0 \<le> aac_ChannelBufferSize a \<and> 0 \<le> aac_WorkerCount a \<and>
      (0 < aac_WorkerCount a \<longrightarrow> 0 < aac_BatchTimeout a \<and> 0 \<le> aac_BatchSize a))"
  by (auto simp: make_audit_logger_def NewAsyncAuditLogger_def async_Start_def async_config_of_def)

text \<open>
  With the circuit breaker on, the key service of the container is the service whose properties the
  rest of the development is about.
\<close>

lemma wired_polykey_service:
  assumes "wired pf cfg = Inr deps" "cbc_Enabled (pc_CircuitBreaker (g_Persistence cfg))"
    and "g_AWS cfg = Some a" "pf_LoadDefaultConfig pf (awc_Region a) = None"
    and "base64_DecodeString (bs_PolykeyMasterKey (g_BootstrapSecrets cfg)) = Inr mk"
  shows "d_KeyService deps = Some (polykey_service (pf_env pf) (pf_crypto pf) (pf_aws pf) (pf_names pf) mk
    (bs_PolykeyMasterKey (g_BootstrapSecrets cfg) \<noteq> '''')
    (awc_Enabled a \<and> bs_AWSKMSKeyARN (g_BootstrapSecrets cfg) \<noteq> '''') (bs_AWSKMSKeyARN (g_BootstrapSecrets cfg))
    (g_DefaultKMSProvider cfg))"
proof -
  obtain ps where ps: "kms_of pf cfg = Inr ps" and svc: "d_KeyService deps = Some (NewKeyService (pf_env pf) (pf_crypto pf)
      (pf_names pf) (fst (repo_of pf cfg)) ps (g_DefaultKMSProvider cfg))"
    using assms(1) by (auto simp: wired_def split: sum.splits)
  have "fst (repo_of pf cfg) = initKeyRepository (pf_env pf) True" using assms(2) by (simp add: repo_of_def Let_def)
  then show ?thesis
    using svc ps initKMSProviders_map [OF _ assms(5)] kms_of_initKMSProviders [OF assms(3,4)]
    by (simp add: polykey_service_def)
qed

section \<open>From start to end\<close>

text \<open>
  A program that started has a valid configuration and the wired dependencies, and its shut-down
  stops the server, closes the pool and closes the channel of the audit logger.
\<close>

lemma main_start_cases:
  assumes "main_start P pf path = Inr (srv, deps, c)"
  obtains cfg tls where "Load P path = Inr cfg" "ConfigureTLS pf (sc_TLS (g_Server cfg)) (g_BootstrapSecrets cfg) = Inr tls"
    "GetDependencies pf (NewContainer cfg) = (Inr deps, c)" "grpc_New pf (c_config c) tls = Inr srv"
  using assms by (auto simp: main_start_def split: sum.splits prod.splits)

lemma GetDependencies_container:
  assumes "GetDependencies pf (NewContainer cfg) = (Inr deps, c)"
  shows "wired pf cfg = Inr deps" "deps = dependencies_of c" "c_config c = ca_config cfg" "c_pgxPool c \<noteq> None"
  using assms initializeAll_fresh [of pf cfg] by (auto simp: GetDependencies_def split: prod.splits option.splits)

lemma wired_logger:
  assumes "wired pf cfg = Inr deps"
  shows "\<exists>l. d_AuditLogger deps = Some l \<and> make_audit_logger (g_Auditing cfg) (pf_audit_db pf) = Inr l"
  using assms by (auto simp: wired_def split: sum.splits)

lemma make_audit_logger_open: "make_audit_logger a d = Inr (AsyncLogger cfg l) \<Longrightarrow> \<not> al_closed l"
  by (auto simp: make_audit_logger_def NewAsyncAuditLogger_def async_Start_def split: if_splits sum.splits)

lemma main_lifecycle:
  assumes "main_start P pf path = Inr (srv, deps, c)" "validator_ok P"
  shows "\<exists>cfg. Load P path = Inr cfg \<and> config_valid P cfg \<and> wired pf cfg = Inr deps"
    "\<exists>c'. main_shutdown srv c = (srv\<lparr>sv_status := NOT_SERVING\<rparr>, None, c') \<and> c_poolClosed c'"
proof -
  obtain cfg tls where m: "Load P path = Inr cfg" "GetDependencies pf (NewContainer cfg) = (Inr deps, c)"
    using main_start_cases [OF assms(1)] by metis
  note g = GetDependencies_container [OF m(2)]
  show "\<exists>cfg. Load P path = Inr cfg \<and> config_valid P cfg \<and> wired pf cfg = Inr deps"
    using m(1) g(1) Load_valid [OF assms(2)] by blast
  obtain l where l: "c_auditLogger c = Some l" "make_audit_logger (g_Auditing cfg) (pf_audit_db pf) = Inr l"
    using wired_logger [OF g(1)] g(2) by (auto simp: dependencies_of_def)
  have "\<exists>c'. Close c = (None, c')"
    using l make_audit_logger_open by (cases l) (auto simp: Close_def Let_def async_Stop_def)
  then show "\<exists>c'. main_shutdown srv c = (srv\<lparr>sv_status := NOT_SERVING\<rparr>, None, c') \<and> c_poolClosed c'"
    using Close_cases g(4) by (fastforce simp: main_shutdown_def Server_Stop_def)
qed

end
