(* ===== verification/StorageProperties.thy ===== *)
theory StorageProperties
  imports Sample
begin

text \<open>
  The properties of the storage side: errors, domain types, cache, circuit breaker, key table and
  the stack of repositories built from them.
\<close>

section \<open>The repository\<close>







text \<open>
  C33.  A cached key survives a batch revocation: after \<^verbatim>\<open>RevokeBatchKeys\<close> reported success, a
  \<^verbatim>\<open>GetKey\<close> on a healthy server still returns the cached object, with the status it had.
\<close>

theorem batch_revocation_leaves_cache:
  assumes "healthy w" and "cache_lookup E i 0 w = Some p" and "i \<in> set ids"
  shows "\<exists>w1 w2. repo_RevokeBatchKeys (initKeyRepository E True) ids w = (Inr (), w1) \<and>
    repo_GetKey (initKeyRepository E True) i w1 = (Inr p, w2) \<and> deref w2 p = deref w p \<and>
    (\<forall>r. sql_latest i (w_keys w1) = Some r \<longrightarrow> r_status r = KeyStatusRevoked)"
  using batch_revocation_stale [OF assms] .

theorem batch_revocation_leaves_cache_witness:
  "\<exists>w1 w2. repo_RevokeBatchKeys (initKeyRepository sample_env True) [sample_id] sample_cached = (Inr (), w1) \<and>
    repo_GetKey (initKeyRepository sample_env True) sample_id w1 = (Inr 0, w2)"
  using batch_revocation_leaves_cache [OF sample_cached_facts, of "[sample_id]"] by auto

text \<open>
  C32.  Rotation revives a revoked key: the repository does not look at the status, so after a
  revocation a successful rotation makes an active version the latest one.
\<close>

theorem rotation_revives_revoked:
  assumes "repo_inv E w" and "repo_RevokeKey (initKeyRepository E True) i w = (Inr u, w1)"
    and "repo_RotateKey (initKeyRepository E True) i dek w1 = (Inr k, w2)"
  shows "k_Status k = KeyStatusActive \<and> (\<exists>r. sql_latest i (w_keys w2) = Some r \<and> r_status r = KeyStatusActive)"
proof -
  have inv: "repo_inv E w1" using keyRepo.revoke_keeps [OF assms(1,2)] by blast
  obtain new where n: "rotate_effect (w_dbnow w1) i dek (w_keys w1) = Some (w_keys w2, new)" "row_key new = Some k"
    using keyRepo.rotate_done [OF inv assms(3)] by blast
  show ?thesis using rotate_effect_active [OF keyRepo.inv_table [OF inv] n(1)] row_key_fields [OF n(2)] by simp
qed

theorem rotation_revives_revoked_witness:
  "\<exists>w1 k w2. repo_RevokeKey (initKeyRepository sample_env True) sample_id sample_created = (Inr (), w1) \<and>
    repo_RotateKey (initKeyRepository sample_env True) sample_id [1] w1 = (Inr k, w2) \<and> k_Status k = KeyStatusActive"
proof -
  have inv: "repo_inv sample_env sample_created" using sample_created_facts(2) by (simp add: service_inv_def)
  obtain r where r: "sql_latest sample_id (w_keys sample_created) = Some r" "r_version r = 1" using sample_row by blast
  then obtain w1 where w1: "repo_RevokeKey (initKeyRepository sample_env True) sample_id sample_created = (Inr (), w1)" "healthy w1"
    using repo_RevokeKey_live [OF sample_created_facts(3)] by blast
  have inv1: "repo_inv sample_env w1" using keyRepo.revoke_keeps [OF inv w1(1)] by blast
  obtain r1 where "sql_latest sample_id (w_keys w1) = Some r1" "r_version r1 = 1"
    using keyRepo.revoke_done [OF inv w1(1)] r by (auto simp: revoke_effect_def sql_revoke_latest)
  then obtain k w2 where k: "repo_RotateKey (initKeyRepository sample_env True) sample_id [1] w1 = (Inr k, w2)"
    using repo_RotateKey_live [OF w1(2) inv1, of sample_id r1 "[1]"] by (auto simp: int4_max_def)
  show ?thesis using w1(1) k rotation_revives_revoked [OF inv w1(1) k] by blast
qed

section \<open>Errors and domain types\<close>

text \<open>
  What a client sees of a failed call is a function of the classified sentinels in the error:
  two errors that wrap the same ones of them give the same status and message, whatever else they
  carry and whatever is left in the pool of error objects.
\<close>

theorem sanitized_response_depends_on_sentinels:
  assumes "\<And>t. t \<in> set rule_targets \<Longrightarrow> errors_is e t = errors_is e' t"
  shows "fst (sanitizeError pick m e pool) = fst (sanitizeError pick' m' e' pool')"
  using assms by (rule sanitizeError_depends_on_sentinels)

theorem sanitized_response_depends_on_sentinels_witness:
  "fst (sanitizeError None ''GetKey'' (wrapf ''a'' (Sentinel ErrKeyNotFound)) []) =
   fst (sanitizeError (Some 0) ''RotateKey'' (Sentinel ErrKeyNotFound) [blank_error])"
  by (rule sanitized_response_depends_on_sentinels) simp



text \<open>
  A key identifier survives printing and parsing, and no two identifiers share a cache entry:
  the cache key determines the identifier and the version.
\<close>

theorem key_id_roundtrip:
  assumes "uuid_lib_ok (e_uuid E)"
  shows "KeyIDFromString (e_uuid E) (KeyID_String (e_uuid E) i) = Inr i \<and>
    (getCacheKey E i v = getCacheKey E j u \<longleftrightarrow> i = j \<and> v = u)"
  using KeyID_roundtrip [OF assms] getCacheKey_inj [OF assms] by simp

theorem key_id_roundtrip_witness:
  "KeyIDFromString canonical_uuid_lib (KeyID_String canonical_uuid_lib (KeyID 5)) = Inr (KeyID 5) \<and>
   getCacheKey sample_env (KeyID 5) 0 \<noteq> getCacheKey sample_env (KeyID 5) 1"
  using key_id_roundtrip [OF sample_libs_ok(4), of "KeyID 5" 0 "KeyID 5" 1] by (simp add: sample_env_def)



text \<open>
  The tier rules: a hardened profile is open to the professional and enterprise tiers only, a
  tier may use every profile below one it may use, and the profile assigned to a tier is one it may use.
\<close>

theorem tier_rules:
  "(ValidateTierForProfile f (FromProtoTier t) STORAGE_PROFILE_HARDENED = None) =
     (t = CLIENT_TIER_PRO \<or> t = CLIENT_TIER_ENTERPRISE) \<and>
   (ValidateTierForProfile f tier p = None \<longrightarrow> p' \<le> p \<longrightarrow> ValidateTierForProfile f tier p' = None) \<and>
   ValidateTierForProfile f tier (GetStorageProfileForTier tier) = None"
  using ValidateTierForProfile_hardened_iff ValidateTierForProfile_downward ValidateTierForProfile_own_profile by metis

theorem tier_rules_witness:
  "ValidateTierForProfile (\<lambda>_. '''') TierPro STORAGE_PROFILE_HARDENED = None \<and>
   ValidateTierForProfile (\<lambda>_. '''') TierPro STORAGE_PROFILE_STANDARD = None"
proof -
  have "ValidateTierForProfile (\<lambda>_. '''') TierPro STORAGE_PROFILE_HARDENED = None" by code_simp
  moreover have "STORAGE_PROFILE_STANDARD \<le> STORAGE_PROFILE_HARDENED"
    by (simp add: STORAGE_PROFILE_STANDARD_def STORAGE_PROFILE_HARDENED_def)
  ultimately show ?thesis
    using tier_rules [of "\<lambda>_. ''''" CLIENT_TIER_PRO TierPro STORAGE_PROFILE_HARDENED STORAGE_PROFILE_STANDARD] by blast
qed

section \<open>Cache, breaker, retries\<close>

text \<open>
  C19.  The cache refines a map with deadlines: after any history of writes, deletions, clearing,
  waiting and clean-up ticks, a read at any later time returns what the map of the same history
  returns.  Cleaning up is invisible.
\<close>

theorem cache_refines_map:
  assumes "cache_run es (t, cache_New opts) = (t', c')" and "c_items (cache_New opts) = []"
    and "ref_run es (c_defaultTTL (cache_New opts)) (t, Map.empty) = (t'', m')"
  shows "t'' = t' \<and> (\<forall>u k. t' \<le> u \<longrightarrow> cache_Get u k c' = ref_get u k m')"
proof -
  have "cache_ok (cache_New opts)" "cache_sim t (cache_New opts) Map.empty"
    using assms(2) by (simp_all add: cache_ok_def cache_sim_def cache_Get_def ref_get_def)
  from cache_run_sim [OF this assms(1,3)] show ?thesis by (simp add: cache_sim_def)
qed

theorem cache_refines_map_witness:
  "cache_Get 20 (1::nat) (snd (cache_run [EvSet 1 (7::nat) 10, EvWait 5, EvTick, EvSet 1 8 20, EvWait 6] (0, cache_New []))) = Some 8"
proof -
  let ?es = "[EvSet (1::nat) (7::nat) 10, EvWait 5, EvTick, EvSet 1 8 20, EvWait 6]"
  obtain t' c' where c: "cache_run ?es (0, cache_New []) = (t', c')" by fastforce
  obtain t'' m' where m: "ref_run ?es (c_defaultTTL (cache_New [] :: (nat, nat) cache)) (0, Map.empty) = (t'', m')" by fastforce
  have "t'' = 11" "ref_get 20 1 m' = Some 8" using m by (auto simp: ref_get_def)
  moreover have "c_items (cache_New [] :: (nat, nat) cache) = []" by (simp add: cache_New_def)
  ultimately show ?thesis using cache_refines_map [OF c _ m] c by simp
qed

text \<open>
  C24.  A closed breaker trips exactly on a run of failures: after any sequence of recorded results it
  is still closed if and only if no \<open>maxFailures\<close> consecutive calls failed (counting the run it was in).
\<close>

theorem breaker_trips_iff_run:
  assumes "b_state b = StateClosed" and "b_failures b = int k" and "int k < b_maxFailures b"
    and "fits_int64 (b_maxFailures b)"
  shows "b_state (record_all rs b) = StateClosed \<longleftrightarrow>
    \<not> sublist (replicate (nat (b_maxFailures b)) True) (replicate k True @ failed_calls rs)"
  using assms by (rule record_all_closed_iff)

theorem breaker_trips_iff_run_witness:
  "b_state (record_all [(0, Some (Plain ''x'')), (1, None), (2, Some (Plain ''y''))] (breaker_New 2 [])) = StateClosed"
proof -
  have b: "b_state (breaker_New 2 []) = StateClosed" "b_failures (breaker_New 2 []) = int 0"
    "int 0 < b_maxFailures (breaker_New 2 [])" "fits_int64 (b_maxFailures (breaker_New 2 []))"
    "nat (b_maxFailures (breaker_New 2 [])) = 2"
    by (simp_all add: breaker_New_def fits_int64_def)
  show ?thesis
    unfolding breaker_trips_iff_run [OF b(1-4)] b(5)
    by (simp add: failed_calls_def numeral_2_eq_2 sublist_Cons_right)
qed

text \<open>
  C28.  While the breaker is open it refuses every call without running it, and after the reset
  timeout the first call is let through: its failure opens the breaker again, its success closes it.
\<close>

theorem breaker_open_and_recovery:
  assumes "opened_at t b" and "fits_int64 (t + b_resetTimeout b)" and "b_halfOpenRequests b = 1"
  shows "(t0 \<le> t + b_resetTimeout b \<longrightarrow> Execute t0 t1 r fn (s, b) = ((s, b), Inl (Sentinel CbErrOpen))) \<and>
    (t + b_resetTimeout b < t0 \<longrightarrow> (\<forall>s' x. fn s = (s', Inr x) \<longrightarrow>
       b_state (snd (fst (Execute t0 t1 FnFirst fn (s, b)))) = StateClosed)) \<and>
    (t + b_resetTimeout b < t0 \<longrightarrow> (\<forall>s' e. fn s = (s', Inl e) \<longrightarrow>
       opened_at t1 (snd (fst (Execute t0 t1 FnFirst fn (s, b))))))"
proof (intro conjI impI allI)
  assume "t0 \<le> t + b_resetTimeout b"
  then show "Execute t0 t1 r fn (s, b) = ((s, b), Inl (Sentinel CbErrOpen))" by (rule Execute_open [OF assms(1,2)])
next
  fix s' x
  assume "t + b_resetTimeout b < t0" "fn s = (s', Inr x)"
  from Execute_probe(4) [where fn = fn and s = s, OF assms(1,2) this] assms(3)
  show "b_state (snd (fst (Execute t0 t1 FnFirst fn (s, b)))) = StateClosed" by simp
next
  fix s' e
  assume "t + b_resetTimeout b < t0" "fn s = (s', Inl e)"
  from Execute_probe(3) [where fn = fn and s = s, OF assms(1,2) this]
  show "opened_at t1 (snd (fst (Execute t0 t1 FnFirst fn (s, b))))" by simp
qed

theorem breaker_open_and_recovery_witness:
  "Execute 1 1 FnFirst (\<lambda>s. (s + 1, Inr ())) (0 :: int, (breaker_New 2 [])\<lparr>b_state := StateOpen\<rparr>) =
     ((0, (breaker_New 2 [])\<lparr>b_state := StateOpen\<rparr>), Inl (Sentinel CbErrOpen)) \<and>
   b_state (snd (fst (Execute (6 * second) (6 * second) FnFirst (\<lambda>s. (s + 1, Inr ()))
     (0 :: int, (breaker_New 2 [])\<lparr>b_state := StateOpen\<rparr>)))) = StateClosed"
proof -
  let ?b = "(breaker_New 2 [])\<lparr>b_state := StateOpen\<rparr>"
  have b: "opened_at 0 ?b" "fits_int64 (0 + b_resetTimeout ?b)" "b_halfOpenRequests ?b = 1" "b_resetTimeout ?b = 5 * second"
    by (simp_all add: opened_at_def breaker_New_def fits_int64_def second_def)
  show ?thesis
    using breaker_open_and_recovery [OF b(1-3), of 1 1 FnFirst "\<lambda>s. (s + 1, Inr ())" "0 :: int"]
      breaker_open_and_recovery [OF b(1-3), of "6 * second" "6 * second" FnFirst "\<lambda>s. (s + 1, Inr ())" "0 :: int"]
    by (simp add: b(4) second_def)
qed

text \<open>
  Under concurrent callers the breaker's counters stay in range and its state changes follow the
  four edges of the state diagram, one after the other, starting from closed.
\<close>

theorem breaker_invariant:
  assumes "breaker_step\<^sup>*\<^sup>* (breaker_New n opts, t, 0) (b, t', k)"
    and "breaker_inv (breaker_New n opts)" and "changes_ok (breaker_New n opts)"
  shows "breaker_inv b \<and> changes_ok b"
  using breaker_steps_inv [OF assms(1)] assms(2,3) by simp

theorem breaker_invariant_witness:
  "breaker_inv (recordResult 0 (Some (Plain ''x'')) (breaker_New 1 []))"
proof -
  let ?b = "breaker_New 1 []"
  have inv: "breaker_inv ?b" "changes_ok ?b" by (simp_all add: breaker_New_def breaker_inv_def changes_ok_def)
  have "canExecute 0 ?b = (True, ?b)" by (simp add: canExecute_def breaker_New_def)
  then have "breaker_step\<^sup>*\<^sup>* (?b, 0, 0) (recordResult 0 (Some (Plain ''x'')) ?b, 0, 0)"
    using breaker_step.admit [of 0 ?b ?b 0] breaker_step.finish [of ?b 0 0 "Some (Plain ''x'')"]
    by (meson converse_rtranclp_into_rtranclp r_into_rtranclp)
  then show ?thesis using breaker_invariant inv by blast
qed

text \<open>
  A half-open breaker admits every call: the number of probes in flight is not limited, so a
  second call is let through before the first has ended.
\<close>

theorem half_open_not_limited:
  assumes "breaker_inv b" and "b_state b = StateHalfOpen"
  shows "breaker_step\<^sup>*\<^sup>* (b, now, n) (b, now, n + m)"
proof (induction m)
  case (Suc m)
  have "breaker_step (b, now, n + m) (b, now, Suc (n + m))"
    by (rule breaker_step.admit) (rule half_open_admits [OF assms])
  then show ?case using Suc by simp
qed simp

theorem half_open_not_limited_witness:
  "breaker_step\<^sup>*\<^sup>* ((breaker_New 1 [])\<lparr>b_state := StateHalfOpen\<rparr>, 0, 0) ((breaker_New 1 [])\<lparr>b_state := StateHalfOpen\<rparr>, 0, 100)"
  using half_open_not_limited [of "(breaker_New 1 [])\<lparr>b_state := StateHalfOpen\<rparr>" 0 0 100]
  by (simp add: breaker_inv_def breaker_New_def)



end
