(* ===== verification/ServiceProperties.thy ===== *)
theory ServiceProperties
  imports Sample
begin

text \<open>
  The properties of the key service and of what it runs on: key management providers, the buffers
  for key material, the batch processor and the rotation pipeline.
\<close>

section \<open>The life of a key\<close>







section \<open>Key material\<close>



text \<open>
  C11.  Key material does not linger: after a creation, a read, a rotation or a revocation, whatever
  its outcome, every buffer in the pool of data key buffers is 32 bytes of zeros.
\<close>

theorem pooled_buffers_zeroed:
  assumes "service_inv (repo_inv E) (kms_inv E C mk A) w" and S: "S = polykey_service E C A names mk l a arn d"
    and "w' \<in> {snd (CreateKey S (Some rq) w), snd (GetKey S (Some grq) w), snd (processRotation S i w),
      snd (RevokeKey S (Some kid) w)}"
  shows "set (bp_pool (w_deks w')) \<subseteq> {replicate 32 0}"
proof -
  have "service_inv (repo_inv E) (kms_inv E C mk A) w'"
    using assms(3) polykey.CreateKey_ok(1) [OF assms(1)] polykey.GetKey_ok(1) [OF assms(1)]
      polykey.processRotation_ok(1) [OF assms(1)] polykey.RevokeKey_ok(1) [OF assms(1)]
    unfolding S by (simp add: prod_eq_iff) metis
  then show ?thesis by (auto simp: service_inv_def dek_pool_ok_def pool_ok_def list_all_iff)
qed

theorem pooled_buffers_zeroed_witness:
  "set (bp_pool (w_deks sample_created)) \<subseteq> {replicate 32 0}"
  by (rule pooled_buffers_zeroed [OF sample_inv sample_service_def, where rq = sample_create]) (simp add: sample_created_def)

section \<open>Batches\<close>



text \<open>
  C27.  The semaphore bounds the concurrency, and every batch completes: at most \<open>maxConcurrency\<close> items
  run at once, every step reduces the work left, and as long as an item is not finished a step is
  possible.
\<close>

theorem batch_bounded_and_terminating:
  assumes "(batch_step n body reqs)\<^sup>*\<^sup>* (batch_start (length reqs) w) s" and "0 < n"
  shows "running s \<le> n \<and> (\<forall>s'. batch_step n body reqs s s' \<longrightarrow> work_left s' < work_left s) \<and>
    (\<not> all_finished s \<longrightarrow> (\<exists>s'. batch_step n body reqs s s')) \<and>
    (\<exists>s'. (batch_step n body reqs)\<^sup>*\<^sup>* s s' \<and> all_finished s')"
  using batch_steps_semaphore [OF assms(1)] batch_step_decreases [of n body reqs s] batch_progress [OF _ assms(2)]
    batch_completes [OF assms(2)] by (metis lessI)

theorem batch_bounded_and_terminating_witness:
  "\<exists>s'. (batch_step 2 (process_item (\<lambda>_. None) (\<lambda>q w. (Inr q, w))) [5 :: nat, 6])\<^sup>*\<^sup>*
    (batch_start (length [5 :: nat, 6]) sample_world) s' \<and> all_finished s'"
  using batch_bounded_and_terminating [of 2 "process_item (\<lambda>_. None) (\<lambda>q w. (Inr q, w))" "[5 :: nat, 6]" sample_world] by simp

text \<open>
  Batch results are aligned with the requests: there is one item per request, and item \<open>i\<close> is
  the outcome of validating and processing request \<open>i\<close>.
\<close>

theorem batch_results_aligned:
  assumes "valid_order order (length reqs)" and "ProcessBatch V P order reqs w = (items, w')"
  shows "length items = length reqs \<and>
    (\<forall>i < length reqs. \<exists>v v'. process_item V P (reqs ! i) v = (items ! i, v'))"
  using ProcessBatch_aligned [OF assms] by blast

theorem batch_results_aligned_witness:
  "length (fst (ProcessBatch (\<lambda>_. None) (\<lambda>q w. (Inr q, w)) [1, 0] [5 :: nat, 6] sample_world)) = 2"
proof -
  obtain items w' where p: "ProcessBatch (\<lambda>_. None) (\<lambda>q w. (Inr q, w)) [1, 0] [5 :: nat, 6] sample_world = (items, w')" by fastforce
  have "valid_order [1, 0] (length [5 :: nat, 6])" by (auto simp: valid_order_def)
  from batch_results_aligned [OF this p] p show ?thesis by simp
qed

section \<open>The rotation pipeline\<close>

text \<open>
  C26.  The pipeline neither loses nor invents requests, and its queues stay within their bounds: at
  any time the accepted requests are those received plus those inside, key by key.
\<close>

theorem pipeline_conserves:
  assumes "pipeline_run E R (NewKeyRotationPipeline n d, w) es (p, w')"
  shows "in_flight p + received_ids es = accepted_ids es \<and> length (pl_requests p) \<le> d \<and>
    length (pl_results p) \<le> d \<and> length (pl_sending p) \<le> n"
  using pipeline_run_conserves [OF assms] pipeline_run_ok [OF assms]
  by (simp add: NewKeyRotationPipeline_def in_flight_def pipeline_ok_def)

theorem pipeline_conserves_witness:
  "\<exists>p. pipeline_run sample_env (initKeyRepository sample_env True) (NewKeyRotationPipeline 2 2, sample_world)
       [Accepted (sample_rotation_request sample_id)] (p, sample_world) \<and>
     in_flight p + received_ids [Accepted (sample_rotation_request sample_id)] = {#sample_id#}"
proof -
  let ?r = "sample_rotation_request sample_id" and ?q = "NewKeyRotationPipeline 2 2"
  let ?p = "?q\<lparr>pl_requests := [?r]\<rparr>"
  have "pipeline_step sample_env (initKeyRepository sample_env True) (?q, sample_world) (Accepted ?r) (?p, sample_world)"
    by (rule pipeline_step.enqueue) (simp add: Enqueue_def NewKeyRotationPipeline_def)
  then have run: "pipeline_run sample_env (initKeyRepository sample_env True) (?q, sample_world) [Accepted ?r] (?p, sample_world)"
    by (rule steps_Cons [OF _ steps.Nil])
  have "accepted_ids [Accepted ?r] = {#sample_id#}" by (simp add: sample_rotation_request_def)
  then show ?thesis using pipeline_conserves [OF run] run by auto
qed

text \<open>
  The pipeline makes progress: with a worker and room in the results channel, as long as a
  request or an unsent result is inside, an internal step is possible, and each reduces the backlog.
\<close>

theorem pipeline_drains:
  assumes "pl_requests p \<noteq> [] \<or> pl_sending p \<noteq> []" and "0 < pl_workerCount p" and "length (pl_results p) < pl_queueDepth p"
  shows "\<exists>e p' w'. is_internal e \<and> pipeline_step E R (p, w) e (p', w') \<and> backlog p' < backlog p"
  using pipeline_progress [OF assms] internal_decreases by blast

theorem pipeline_drains_witness:
  "\<exists>e p' w'. pipeline_step sample_env (initKeyRepository sample_env True)
    ((NewKeyRotationPipeline 1 1)\<lparr>pl_requests := [sample_rotation_request sample_id]\<rparr>, sample_world) e (p', w')"
  using pipeline_drains [of "(NewKeyRotationPipeline 1 1)\<lparr>pl_requests := [sample_rotation_request sample_id]\<rparr>"
      sample_env "initKeyRepository sample_env True" sample_world]
  by (simp add: NewKeyRotationPipeline_def) blast



end
