(* ===== verification/AccessProperties.thy ===== *)
theory AccessProperties
  imports SampleServer
begin

text \<open>
  The properties of the front: RPC handlers, interceptors, authorizer, tokens, rate limiter and
  request validation.
\<close>

section \<open>The server\<close>

text \<open>
  C1.  Creating and reading a key through the server: a client with a valid token and the roles for
  both operations, whose request passes validation and names it as an authorized context, gets a
  created key, and a read it is then admitted to returns the created ciphertext and metadata.
\<close>

theorem served_key_roundtrip:
  assumes "v_KeyService V = polykey_service E C A names mk True a arn ''local''"
    and "service_inv (repo_inv E) (kms_inv E C mk A) (x_world st)" and "healthy (x_world st)" and "no_denials (x_policies st)"
    and "sources_ok E C mk" and "creatable rq" and "cq_RequesterContext rq = Some rc"
    and "sql_latest (KeyID (e_newUUID E (Suc (Suc (w_draws (x_world st)))))) (w_keys (x_world st)) = None"
    and "entitled V (caller inc c) AuthKeysCreate (Some rc) u" and "entitled V (caller inc c) AuthKeysRead (Some rc) u"
    and "u_ID u \<in> set (ci_InitialAuthorizedContexts rq)" and "admitted V inc (CreateKeyRequest rq) c st"
  shows "\<exists>resp st1. serve V inc (CreateKeyRequest rq) st = (Inr (Some (CreateKeyResponse resp)), st1) \<and>
    (\<forall>g. g = \<lparr>gq_KeyId = cr_KeyId resp, gq_Version = 0, gq_SkipMetadata = False, gq_RequesterContext = Some rc\<rparr> \<longrightarrow>
      admitted V inc (GetKeyRequest g) c st1 \<longrightarrow>
      (\<exists>gresp st2. serve V inc (GetKeyRequest g) st1 = (Inr (Some (GetKeyResponse gresp)), st2) \<and>
         Some (km_EncryptedKeyData (gr_KeyMaterial gresp)) = map_option km_EncryptedKeyData (cr_KeyMaterial resp) \<and>
         gr_Metadata gresp = cr_Metadata resp))"
  using assms by (rule served_create_get)

theorem served_key_roundtrip_witness:
  "\<exists>resp st1. serve sample_server (sample_incoming ''CreateKey'') (CreateKeyRequest sample_create) sample_state =
    (Inr (Some (CreateKeyResponse resp)), st1)"
proof -
  have rc: "cq_RequesterContext sample_create = Some \<lparr>rc_ClientIdentity = ''alice'', rc_ClientTier = CLIENT_TIER_FREE\<rparr>"
    by (simp add: sample_create_def sample_requester_def)
  have u: "u_ID sample_user \<in> set (ci_InitialAuthorizedContexts sample_create)"
    by (simp add: sample_user_def sample_create_def)
  show ?thesis
    using served_key_roundtrip [OF sample_server_service sample_state_inv sample_sources sample_creatable rc
        sample_state_fresh _ _ u sample_admitted] sample_entitled [unfolded rc] by blast
qed







section \<open>Authorizer\<close>

text \<open>
  C20.  A permission taken from the policy cache goes back to a check of the same user, operation and
  key that is at most five minutes old.
\<close>

theorem policy_cache_recent:
  assumes "uuid_lib_ok (e_uuid E)" and "auth_reach E cfg R names p w g" and "op \<in> set scopes"
    and "Authorize E cfg R names cx rc op i (p, w) = ((True, ''authorized_by_cache''), p', w')"
  shows "\<exists>t. (t, ctx_user cx, op, i) \<in> set g \<and> w_now w \<le> t + 5 * minute"
  using assms by (rule cached_decision_recent)

theorem policy_cache_recent_witness:
  "\<exists>t. (t, ''alice'', AuthKeysCreate, KeyID 0) \<in> set [(0, ''alice'', AuthKeysCreate, KeyID 0)] \<and> (0::int) \<le> t + 5 * minute"
proof -
  let ?cx = "\<lparr>cx_User = Some sample_user, cx_PeerCN = None\<rparr>" and ?R = "initKeyRepository sample_env True" and ?n = "\<lambda>_. ''NAME''"
  let ?A = "\<lambda>s. Authorize sample_env sample_roles ?R ?n ?cx None AuthKeysCreate (KeyID 0) s"
  have cx: "cx_User ?cx = Some sample_user" "roles_allow sample_roles AuthKeysCreate (u_Permissions sample_user)"
    "identity_ok sample_roles ?cx None sample_user"
    by (simp_all add: sample_user_def sample_roles_def role_ops_def identity_ok_def GetClientIdentity_def)
  let ?k = "getPolicyKey (e_uuid sample_env) (u_ID sample_user) AuthKeysCreate (KeyID 0)"
  let ?log = "AuditLog (u_ID sample_user) AuthKeysCreate (KeyID_String (e_uuid sample_env) (KeyID 0)) '''' True None"
  have n: "cache_Get (w_now sample_world) ?k NewPolicyCache = None"
    by (simp add: NewPolicyCache_def cache_New_def cache_Get_def WithDefaultTTL_def WithCleanupInterval_def)
  have chk: "\<exists>r. checkAuthorization sample_roles ?R ?n sample_user AuthKeysCreate (KeyID 0) None sample_world = ((True, r), sample_world)"
    by (simp add: checkAuthorization_def KeyID_IsZero_def uuid_Nil_def)
  then obtain r where a1: "?A (NewPolicyCache, sample_world) = ((True, r), cache_Set 0 ?k True 0 NewPolicyCache, ?log sample_world)"
    and r: "r \<noteq> ''authorized_by_cache''"
    using checkAuthorization_reason n by (fastforce simp: Authorize_identified [OF cx] Let_def sample_world_def)
  let ?p = "cache_Set 0 ?k True 0 NewPolicyCache" and ?w = "?log sample_world"
  have w: "w_now ?w = 0" "w_now sample_world = 0" by (simp_all add: AuditLog_def sample_world_def)
  have "auth_reach sample_env sample_roles ?R ?n ?p ?w [(0, ''alice'', AuthKeysCreate, KeyID 0)]"
    using auth_reach.call [OF auth_reach.start _ a1] r w by (simp add: scopes_def ctx_user_def sample_user_def)
  moreover have "?A (?p, ?w) = ((True, ''authorized_by_cache''), ?p, ?log ?w)"
    by (simp add: Authorize_identified [OF cx] Let_def cache_Get_Set_same w NewPolicyCache_def cache_New_def
        WithDefaultTTL_def WithCleanupInterval_def minute_def second_def)
  ultimately show ?thesis
    using policy_cache_recent [OF sample_libs_ok(4), of sample_roles ?R ?n ?p ?w _ AuthKeysCreate ?cx None "KeyID 0" ?p "?log ?w"]
    by (fastforce simp: scopes_def ctx_user_def sample_user_def w)
qed

section \<open>Tokens and rate limits\<close>



text \<open>
  C37.  A forged token undoes a revocation: revocation does not verify signatures, so revoking a forged
  token with the identifier of a revoked one and an earlier expiry makes the revoked token valid
  again once that earlier expiry has passed.
\<close>

theorem forged_token_undoes_revocation:
  assumes "jwt_ParseUnverified J tok = Inr c" and "cl_ExpiresAt c = Some e"
    and "jwt_ParseUnverified J tok' = Inr c'" and "cl_ID c' = cl_ID c" and "cl_ExpiresAt c' = Some e'"
    and "w_now w < e'" and "e' < t" and "w_now w < e"
    and "jwt_ParseWithClaims J rsa_keyfunc t tok = Inr (c, True)"
    and "TokenManager_Revoke J tok (ts, w) = (None, s1)" and "TokenManager_Revoke J tok' s1 = (None, ts2, w2)"
  shows "ValidateToken J t ts2 tok = Inr c"
  using assms by (rule forged_revocation_revives)

theorem forged_token_undoes_revocation_witness:
  "\<exists>s1 ts2 w2. TokenManager_Revoke sample_jwt ''t1'' (NewInMemoryTokenStore, sample_world) = (None, s1) \<and>
    TokenManager_Revoke sample_jwt ''xt1'' s1 = (None, ts2, w2) \<and>
    ValidateToken sample_jwt (20 * second) ts2 ''t1'' = Inr (sample_claims ''t1'')"
proof -
  obtain s1 ts2 w2 where r: "TokenManager_Revoke sample_jwt ''t1'' (NewInMemoryTokenStore, sample_world) = (None, s1)"
    "TokenManager_Revoke sample_jwt ''xt1'' s1 = (None, ts2, w2)"
    using sample_revoke by blast
  have "ValidateToken sample_jwt (20 * second) ts2 ''t1'' = Inr (sample_claims ''t1'')"
    by (rule forged_token_undoes_revocation [OF _ _ _ _ _ _ _ _ _ r, where e = "60 * minute" and e' = "10 * second"
          and c' = "(sample_claims ''t1'')\<lparr>cl_ExpiresAt := Some (10 * second)\<rparr>"])
      (simp_all add: sample_jwt_sel forged_def sample_claims_def sample_world_def second_def minute_def rsa_keyfunc_def jwt_rsa_algs_def)
  then show ?thesis using r by blast
qed

text \<open>
  C21.  Authentication works: with the token a client obtained for its credentials, a call before the
  token expires, within the rate limit and with the token not revoked, passes the interceptor with
  the identity and the permissions of that client.
\<close>

theorem token_identifies_client:
  assumes "jwt_ok J" and "t < jwt_NewNumericDate J (w_now w + ttl)"
    and "AuthService_Authenticate E J bcrypt_ok store ttl cid secret w = (Inr res, w')"
    and "in_FullMethod inc \<notin> set unprotectedMethods"
    and "in_AuthHeaders inc = Some ((bearerPrefix @ ar_AccessToken res) # rest)" and "ar_AccessToken res \<noteq> ''''"
    and "\<not> store_IsRevoked t (KeyID_String (e_uuid E) (KeyID (e_newUUID E (w_draws w)))) ts"
    and "limiter_Allow L t (c_ID cl) lim = (True, lim')" and "FindClientByID store cid = Inr cl"
  shows "bcrypt_ok (c_HashedAPIKey cl) secret \<and> AuthenticationInterceptor J L t ts inc lim =
    (Inr \<lparr>cx_User = Some \<lparr>u_ID = c_ID cl, u_Permissions = c_Permissions cl\<rparr>, cx_PeerCN = in_PeerCN inc\<rparr>, lim')"
  using assms by (rule authenticate_then_call)

theorem token_identifies_client_witness:
  "\<exists>res w' lim'. AuthService_Authenticate sample_env sample_jwt (v_bcrypt sample_server) sample_clients (60 * minute)
      ''alice'' ''secret'' sample_world = (Inr res, w') \<and>
    AuthenticationInterceptor sample_jwt sample_limits 0 NewInMemoryTokenStore
      ((sample_incoming ''GetKey'')\<lparr>in_AuthHeaders := Some [bearerPrefix @ ar_AccessToken res]\<rparr>) Map.empty =
    (Inr \<lparr>cx_User = Some sample_user, cx_PeerCN = None\<rparr>, lim')"
proof -
  obtain res w' where a: "AuthService_Authenticate sample_env sample_jwt (v_bcrypt sample_server) sample_clients (60 * minute)
      ''alice'' ''secret'' sample_world = (Inr res, w')" "ar_AccessToken res \<noteq> ''''"
    using sample_authenticates by blast
  have c: "FindClientByID sample_clients ''alice'' = Inr \<lparr>c_ID = ''alice'', c_HashedAPIKey = ''hash'', c_Permissions = [''writer'']\<rparr>"
    by (simp add: FindClientByID_def sample_clients_def)
  have inc: "in_FullMethod ((sample_incoming ''GetKey'')\<lparr>in_AuthHeaders := Some [bearerPrefix @ ar_AccessToken res]\<rparr>)
      \<notin> set unprotectedMethods" by (simp add: sample_incoming_def unprotectedMethods_def)
  have "\<not> store_IsRevoked 0 k NewInMemoryTokenStore" for k
    by (simp add: store_IsRevoked_def NewInMemoryTokenStore_def cache_New_def WithCleanupInterval_def cache_Get_def)
  from token_identifies_client [OF sample_jwt_ok _ a(1) inc _ a(2) this _ c, where rest = "[]" and L = sample_limits and
        lim = "Map.empty"] a(1) show ?thesis
    by (simp add: sample_jwt_sel sample_world_def minute_def second_def limiter_Allow_def sample_limits_def
        sample_incoming_def sample_user_def)
qed

text \<open>
  C23.  Rate limits are per client: the decisions for one client in any sequence of requests are those
  of the sequence of its own requests.
\<close>

theorem rate_limit_isolated:
  "filter (\<lambda>a. fst a = c) (limiter_run L rs lim) = limiter_run L (filter (\<lambda>r. snd r = c) rs) lim"
  by (rule limiter_run_cong) (rule refl)

section \<open>Validation\<close>

text \<open>
  C22.  The request validator accepts exactly the creation requests of its specification: within the
  size limit, with a key type, bounded description, well-formed tags, distinct well-formed contexts,
  well-formed policies and one of the allowed classifications.
\<close>

theorem create_validation_exact:
  "(ValidateCreateKeyRequest J r = None) = create_accepted J r"
  by (rule ValidateCreateKeyRequest_iff)

text \<open>
  What validation lets through, the service can use: an accepted key identifier parses and prints
  back as itself, and an accepted list request has a page size between 1 and the query limit.
\<close>

theorem validated_input_usable:
  "(ValidateGetKeyRequest rq = None \<longrightarrow> (\<exists>i. KeyIDFromString canonical_uuid_lib (gq_KeyId rq) = Inr i \<and>
     KeyID_String canonical_uuid_lib i = gq_KeyId rq)) \<and>
   (ValidateListKeysRequest r = (None, r') \<longrightarrow> 1 \<le> lq_PageSize r' \<and> lq_PageSize r' \<le> MaxQueryLimit)"
  using validate_key_request_iff uuidRegex_parses ValidateListKeysRequest_page
  by (auto simp: ValidateGetKeyRequest_def)

theorem validated_input_usable_witness:
  "\<exists>i. KeyIDFromString canonical_uuid_lib ''00000000-0000-0000-0000-000000000003'' = Inr i"
proof -
  have "uuidRegex ''00000000-0000-0000-0000-000000000003''" by code_simp
  then have "ValidateGetKeyRequest \<lparr>gq_KeyId = ''00000000-0000-0000-0000-000000000003'', gq_Version = 0,
      gq_SkipMetadata = False, gq_RequesterContext = sample_requester\<rparr> = None"
    by (simp add: ValidateGetKeyRequest_def validate_key_request_iff sample_requester_def)
  then show ?thesis
    using validated_input_usable [of "\<lparr>gq_KeyId = ''00000000-0000-0000-0000-000000000003'', gq_Version = 0,
      gq_SkipMetadata = False, gq_RequesterContext = sample_requester\<rparr>"] by auto
qed

text \<open>
  C35.  A request that fails validation is reported to the client as an internal error of the server:
  the validators return errors the classifier does not know.
\<close>

theorem invalid_request_reported_internal:
  assumes "json_plain J" and "validate_message J m = (Some err, m')"
  shows "fst (UnaryValidationInterceptor J None pick meth m pool) =
    Inl (StatusError Internal ''An unexpected internal error occurred'')"
  using assms by (rule refused_as_internal)

theorem invalid_request_reported_internal_witness:
  "fst (UnaryValidationInterceptor sample_json None None ''GetKey'' (GetKeyRequest \<lparr>gq_KeyId = ''key-1'', gq_Version = 0,
      gq_SkipMetadata = False, gq_RequesterContext = None\<rparr>) []) =
    Inl (StatusError Internal ''An unexpected internal error occurred'')"
proof -
  let ?m = "GetKeyRequest \<lparr>gq_KeyId = ''key-1'', gq_Version = 0, gq_SkipMetadata = False, gq_RequesterContext = None\<rparr>"
  obtain e where "ValidateGetKeyRequest \<lparr>gq_KeyId = ''key-1'', gq_Version = 0, gq_SkipMetadata = False, gq_RequesterContext = None\<rparr> = Some e"
    using validate_key_request_iff by (fastforce simp: ValidateGetKeyRequest_def)
  then have "validate_message sample_json ?m = (Some e, ?m)" by (simp add: validate_message_def)
  then show ?thesis by (rule invalid_request_reported_internal [OF sample_json_plain])
qed

end
