(* ===== verification/InfraProperties.thy ===== *)
theory InfraProperties
  imports S3Storage AsyncAudit WorkerPool Wiring Sample
begin

text \<open>
  The properties of the parts around the key service: the object store, auditing, the worker pool,
  configuration and wiring, each with a witness on a concrete instance.
\<close>

section \<open>A concrete object store\<close>

text \<open>
  Objects as an association list, latest write first, and the outcomes of the coming writes
  (\<open>False\<close> fails without effect; none left: all succeed).
\<close>

type_synonym sample_bucket = "(string \<times> s3KeyObject) list \<times> bool list"

definition sample_s3_client :: "(sample_bucket, s3KeyObject) s3_client" where
  "sample_s3_client =
     \<lparr>s3_GetObject = (\<lambda>p (m, fs). (case map_of m p of None \<Rightarrow> Inl S3NoSuchKey | Some b \<Rightarrow> Inr b, m, fs)),
      s3_PutObject = (\<lambda>p b (m, fs). case fs of
          False # fs' \<Rightarrow> (Inl (S3Failure ''SlowDown''), m, fs') | _ \<Rightarrow> (Inr (), (p, b) # m, tl fs)),
      s3_DeleteObject = (\<lambda>p (m, fs). (Inr (), filter (\<lambda>(q, _). q \<noteq> p) m, fs)),
      s3_HeadObject = (\<lambda>p (m, fs). (if map_of m p = None then Inl S3NotFound else Inr (), m, fs)),
      s3_HeadBucket = (\<lambda>s. (Inr (), s)),
      s3_ListContents = (\<lambda>p (m, fs). [Inr (filter (is_prefix p) (map fst m))]),
      s3_ListPrefixes = (\<lambda>p (m, fs). [])\<rparr>"

definition sample_statuses :: status_enum where
  "sample_statuses =
     \<lparr>KeyStatus_value = (\<lambda>s. if s = ''KEY_STATUS_ACTIVE'' then 1 else if s = ''KEY_STATUS_REVOKED'' then 3 else 0),
      KeyStatus_name = (\<lambda>n. if n = 1 then ''KEY_STATUS_ACTIVE'' else if n = 3 then ''KEY_STATUS_REVOKED''
        else ''KEY_STATUS_UNSPECIFIED'')\<rparr>"

definition sample_storage :: "(sample_bucket, s3KeyObject) s3_storage" where
  "sample_storage =
     \<lparr>st_client = sample_s3_client, st_json = \<lparr>js_Marshal = Inr, js_Decode = Inr\<rparr>, st_status = sample_statuses,
      st_uuid = canonical_uuid_lib\<rparr>"

definition sample_view :: "sample_bucket \<Rightarrow> string \<rightharpoonup> s3KeyObject" where
  "sample_view s = map_of (fst s)"

lemma map_of_filter_key: "map_of (filter (\<lambda>(q, _). q \<noteq> p) m) = (map_of m)(p := None)"
  by (induction m) auto

lemma sample_s3_ok: "s3_ok sample_s3_client sample_view"
proof -
  have "concat cs = xs" if "[Inr xs] = map Inr cs" for cs :: "string list list" and xs using that by (cases cs) auto
  then show ?thesis
    by (auto simp: s3_ok_def sample_s3_client_def sample_view_def map_of_filter_key dom_map_of_conv_image_fst
        split: list.splits bool.splits option.splits if_splits)
qed

lemma sample_storage_ok: "storage_ok sample_storage sample_view" "status_enum_ok (st_status sample_storage)"
  using sample_s3_ok canonical_uuid_lib_ok
  by (auto simp: storage_ok_def sample_storage_def json_codec_ok_def status_enum_ok_def sample_statuses_def is_prefix_def)

definition sample_s3_key :: key where
  "sample_s3_key =
     \<lparr>k_ID = KeyID 7, k_Version = 1, k_Metadata = None, k_EncryptedDEK = [1, 2, 3], k_Status = KeyStatusActive,
      k_Tier = '''', k_CreatedAt = 5 * second, k_UpdatedAt = 5 * second, k_RevokedAt = None\<rparr>"

definition sample_stored :: sample_bucket where
  "sample_stored = snd (s3_CreateKey sample_storage sample_s3_key ([], []))"

lemmas sample_s3 = sample_storage_def sample_s3_client_def

lemma sample_s3_created:
  "s3_CreateKey sample_storage sample_s3_key ([], []) = (Inr (), sample_stored)"
  "sample_stored = ([(latest_path canonical_uuid_lib (KeyID 7), key_object canonical_uuid_lib sample_statuses sample_s3_key),
     (version_path canonical_uuid_lib (KeyID 7) 1, key_object canonical_uuid_lib sample_statuses sample_s3_key)], [])"
  by (simp_all add: sample_stored_def s3_CreateKey_def putKey_def sample_s3 Let_def sample_s3_key_def)

lemma sample_s3_get:
  "s3_GetKey sample_storage (KeyID 7) sample_stored = (Inr (stored_form sample_statuses sample_s3_key), sample_stored)"
  using decode_key_object [OF canonical_uuid_lib_ok]
  by (simp add: sample_s3_created(2) s3_GetKey_def getKeyFromPath_def sample_s3)

section \<open>The object store\<close>

text \<open>
  C15. Writing and reading in the object store: after a key was created, reading its latest object or
  the object of its version fails only if the service does and otherwise gives the key that was
  written, with its times cut to seconds and its status as the generated enumeration stores it; the
  objects of all other keys and versions are what they were.
\<close>

theorem s3_write_then_read:
  assumes "storage_ok S view" "s3_CreateKey S k s = (Inr (), s1)" "view s2 = view s1"
  shows "s3_GetKey S (k_ID k) s2 = served S (latest_path (st_uuid S) (k_ID k)) (stored_form (st_status S) k) s2 \<and>
    s3_GetKeyByVersion S (k_ID k) (k_Version k) s2 =
      served S (version_path (st_uuid S) (k_ID k) (k_Version k)) (stored_form (st_status S) k) s2 \<and>
    (\<forall>j. j \<noteq> k_ID k \<longrightarrow> view s1 (latest_path (st_uuid S) j) = view s (latest_path (st_uuid S) j)) \<and>
    (\<forall>j v. (j, v) \<noteq> (k_ID k, k_Version k) \<longrightarrow> view s1 (version_path (st_uuid S) j v) = view s (version_path (st_uuid S) j v))"
proof -
  have L: "uuid_lib_ok (st_uuid S)" using assms(1) by (simp add: storage_ok_def)
  note d = putKey_done [OF assms(1) assms(2) [unfolded s3_CreateKey_def]]
  have paths: "latest_path (st_uuid S) j \<noteq> version_path (st_uuid S) i v" for i j v
    using version_path_neq_latest [OF L, of i v j] by simp
  show ?thesis
    using getKeyFromPath_served [OF assms(1)] d assms(3) paths version_path_neq_latest [OF L] latest_path_inj [OF L] version_path_inj [OF L]
    by (simp add: s3_GetKey_def s3_GetKeyByVersion_def)
qed

theorem s3_write_then_read_witness:
  "s3_CreateKey sample_storage sample_s3_key ([], []) = (Inr (), sample_stored) \<and>
   s3_GetKey sample_storage (KeyID 7) sample_stored = (Inr (stored_form sample_statuses sample_s3_key), sample_stored)"
  using s3_write_then_read [OF sample_storage_ok(1) sample_s3_created(1) refl] sample_s3_created(1) sample_s3_get
  by simp

text \<open>
  C38. A revocation in the object store is lost: the status that a revoked key is stored with reads
  back as \<^verbatim>\<open>KEY_STATUS_UNSPECIFIED\<close>, so a caller that looks for \<^verbatim>\<open>revoked\<close> never finds it.
\<close>

theorem s3_revocation_not_visible:
  assumes "storage_ok S view" "status_enum_ok (st_status S)"
    and "holds S (view s) (latest_path (st_uuid S) i) old" "k_ID old = i"
    and "s3_RevokeKey S now i s = (Inr (), s1)" "view s2 = view s1"
  shows "\<exists>k. s3_GetKey S i s2 = served S (latest_path (st_uuid S) i) k s2 \<and> k_ID k = i \<and> k_Version k = k_Version old \<and>
    k_Status k = ''KEY_STATUS_UNSPECIFIED'' \<and> k_Status k \<noteq> KeyStatusRevoked"
proof -
  let ?k = "stored_form (st_status S) (old\<lparr>k_Status := KeyStatusRevoked, k_UpdatedAt := now\<rparr>)"
  have "s3_GetKey S i s2 = served S (latest_path (st_uuid S) i) ?k s2"
    using getKeyFromPath_served [OF assms(1)] s3_revoke_done [OF assms(1,3,4,5)] assms(6) by (simp add: s3_GetKey_def)
  moreover have "k_ID ?k = i" "k_Version ?k = k_Version old" using assms(4) by (simp_all add: stored_form_def)
  moreover have "k_Status ?k = ''KEY_STATUS_UNSPECIFIED''" using stored_status [OF assms(2)] by simp
  moreover have "k_Status ?k \<noteq> KeyStatusRevoked" using calculation(4) by (simp add: KeyStatusRevoked_def)
  ultimately show ?thesis by (intro exI [of _ ?k] conjI)
qed

lemma sample_s3_holds: "holds sample_storage (sample_view sample_stored) (latest_path (st_uuid sample_storage) (KeyID 7))
    (stored_form sample_statuses sample_s3_key)"
  using putKey_done(2) [OF sample_storage_ok(1) sample_s3_created(1) [unfolded s3_CreateKey_def]]
  by (simp add: sample_storage_def sample_s3_key_def)

lemma sample_s3_revoke: "fst (s3_RevokeKey sample_storage now (KeyID 7) sample_stored) = Inr ()"
  using sample_s3_get by (simp add: s3_RevokeKey_def putKey_def Let_def sample_s3_created(2) sample_s3)

theorem s3_revocation_not_visible_witness:
  "\<exists>s1 k. s3_RevokeKey sample_storage 0 (KeyID 7) sample_stored = (Inr (), s1) \<and>
     s3_GetKey sample_storage (KeyID 7) s1 = served sample_storage (latest_path canonical_uuid_lib (KeyID 7)) k s1 \<and>
     k_Status k \<noteq> KeyStatusRevoked"
proof -
  obtain s1 where r: "s3_RevokeKey sample_storage 0 (KeyID 7) sample_stored = (Inr (), s1)"
    using sample_s3_revoke [of 0] by (cases "s3_RevokeKey sample_storage 0 (KeyID 7) sample_stored") simp
  have "k_ID (stored_form sample_statuses sample_s3_key) = KeyID 7" by (simp add: stored_form_def sample_s3_key_def)
  from s3_revocation_not_visible [OF sample_storage_ok sample_s3_holds this r refl] r
  show ?thesis by (auto simp: sample_storage_def)
qed

text \<open>
  C39. The roll-back of a failed write destroys data: when a metadata update or a revocation writes
  the version object and then fails on the latest one, the roll-back deletes the version object,
  which existed before the operation.
\<close>

theorem s3_rollback_loses_version:
  assumes "storage_ok S view" "view s (version_path (st_uuid S) (k_ID k) (k_Version k)) = Some b0"
    and "js_Marshal (st_json S) (key_object (st_uuid S) (st_status S) k) = Inr b"
    and "s3_PutObject (st_client S) (version_path (st_uuid S) (k_ID k) (k_Version k)) b s = (Inr (), s1)"
    and "s3_PutObject (st_client S) (latest_path (st_uuid S) (k_ID k)) b s1 = (Inl e, s2)"
    and "s3_DeleteObject (st_client S) (version_path (st_uuid S) (k_ID k) (k_Version k)) s2 = (Inr (), s3)"
  shows "\<exists>err. putKey S k s = (Inl err, s3) \<and> view s3 (version_path (st_uuid S) (k_ID k) (k_Version k)) = None"
  using s3_rollback_deletes [OF assms(1,3,4,5,6)] by blast

theorem s3_rollback_loses_version_witness:
  "sample_view (fst sample_stored, [True, False]) (version_path canonical_uuid_lib (KeyID 7) 1) \<noteq> None \<and>
   (\<exists>err s3. putKey sample_storage sample_s3_key (fst sample_stored, [True, False]) = (Inl err, s3) \<and>
     sample_view s3 (version_path canonical_uuid_lib (KeyID 7) 1) = None)"
proof -
  let ?s = "(fst sample_stored, [True, False])" and ?b = "key_object canonical_uuid_lib sample_statuses sample_s3_key"
  have id: "k_ID sample_s3_key = KeyID 7" "k_Version sample_s3_key = 1" by (simp_all add: sample_s3_key_def)
  have v: "sample_view ?s (version_path canonical_uuid_lib (KeyID 7) 1) = Some ?b"
    using version_path_neq_latest [OF canonical_uuid_lib_ok, of "KeyID 7" 1 "KeyID 7"]
    by (simp add: sample_view_def sample_s3_created(2))
  let ?s1 = "((version_path canonical_uuid_lib (KeyID 7) 1, ?b) # fst sample_stored, [False])"
    and ?s2 = "((version_path canonical_uuid_lib (KeyID 7) 1, ?b) # fst sample_stored, [])"
  have "\<exists>err. putKey sample_storage sample_s3_key ?s = (Inl err, snd (s3_DeleteObject sample_s3_client (version_path canonical_uuid_lib (KeyID 7) 1) ?s2)) \<and>
      sample_view (snd (s3_DeleteObject sample_s3_client (version_path canonical_uuid_lib (KeyID 7) 1) ?s2)) (version_path canonical_uuid_lib (KeyID 7) 1) = None"
    using s3_rollback_loses_version [OF sample_storage_ok(1), of ?s sample_s3_key ?b ?b ?s1 "S3Failure ''SlowDown''" ?s2
        "snd (s3_DeleteObject sample_s3_client (version_path canonical_uuid_lib (KeyID 7) 1) ?s2)", unfolded id] v
    by (simp add: sample_s3)
  then show ?thesis using v by blast
qed

section \<open>Auditing\<close>

text \<open>
  C13. The asynchronous audit logger loses and invents no event it accepted: in every execution each
  is in the channel, in a worker's batch, in a batch that was written, or in one whose write
  reported an error.  What was written is in the table, nothing else is but events of failed
  batches, the channel stays within its buffer and every batch below the batch size.
\<close>

theorem audit_events_accounted:
  assumes "NewAsyncAuditLogger cfg d = Inr l0" "async_Start cfg l0 = Inr l1" "async_run cfg l1 es l"
  shows "mset (all_accepted es) = pending l + mset (all_written es) + mset (all_failed es) \<and>
    mset (ad_table d) + image_mset audit_row (mset (all_written es)) \<subseteq># mset (ad_table (al_db l)) \<and>
    mset (ad_table (al_db l)) \<subseteq># mset (ad_table d) + image_mset audit_row (mset (all_written es) + mset (all_failed es)) \<and>
    (audit_table_ok (ad_table d) \<longrightarrow> audit_table_ok (ad_table (al_db l))) \<and>
    int (length (al_channel l)) \<le> ChannelBufferSize cfg \<and>
    (0 < BatchSize cfg \<longrightarrow> list_all (\<lambda>b. int (length (batch_of b)) < BatchSize cfg) (al_workers l))"
  using started_ok [OF assms(1,2)] async_run_conserves [OF assms(3)] async_run_table [OF assms(3)]
    async_run_ok [OF assms(3)] by (simp add: async_ok_def)

definition sample_audit_config :: async_config where
  "sample_audit_config = \<lparr>ChannelBufferSize = 2, WorkerCount = 1, BatchSize = 2, BatchTimeout = second\<rparr>"

definition sample_audit_db :: audit_db where "sample_audit_db = \<lparr>ad_table = [], ad_net = []\<rparr>"

definition sample_event :: audit_event where
  "sample_event = event_of ''e1'' 5
     \<lparr>ae_ClientIdentity = ''alice'', ae_Operation = ''GetKey'', ae_KeyID = ''k'', ae_AuthDecisionID = '''',
      ae_Success = True, ae_Error = None\<rparr>"

definition sample_logger :: "audit_event list \<Rightarrow> bool \<Rightarrow> async_logger" where
  "sample_logger ch closed =
     \<lparr>al_channel = ch, al_closed = closed, al_workers = [Some []], al_db = sample_audit_db,
      al_log = (if closed then [\<lparr>lr_level = LevelInfo, lr_msg = ''shutting down audit logger'', lr_attrs = []\<rparr>] else [])\<rparr>"

lemma sample_logger_started:
  "\<exists>l0. NewAsyncAuditLogger sample_audit_config sample_audit_db = Inr l0 \<and>
     async_Start sample_audit_config l0 = Inr (sample_logger [] False)"
  by (simp add: NewAsyncAuditLogger_def async_Start_def sample_audit_config_def sample_logger_def second_def)

lemma sample_logger_run:
  "async_run sample_audit_config (sample_logger [] False) [Logged sample_event None] (sample_logger [sample_event] False)"
  "async_run sample_audit_config (sample_logger [] False) [Logged sample_event None, Stopping] (sample_logger [sample_event] True)"
proof -
  have "async_step sample_audit_config (sample_logger [] False) (Logged sample_event None) (sample_logger [sample_event] False)"
    by (rule async_step.log) (simp add: async_AuditLog_def sample_logger_def sample_audit_config_def)
  from steps_Cons [where step = "async_step sample_audit_config", OF this steps.Nil]
  show one: "async_run sample_audit_config (sample_logger [] False) [Logged sample_event None] (sample_logger [sample_event] False)"
    by simp
  have "async_step sample_audit_config (sample_logger [sample_event] False) Stopping (sample_logger [sample_event] True)"
    by (rule async_step.stop) (simp add: async_Stop_def sample_logger_def log_line_def)
  from steps.Snoc [where step = "async_step sample_audit_config", OF one this]
  show "async_run sample_audit_config (sample_logger [] False) [Logged sample_event None, Stopping] (sample_logger [sample_event] True)"
    by simp
qed

theorem audit_events_accounted_witness:
  "mset (all_accepted [Logged sample_event None]) = pending (sample_logger [sample_event] False) \<and>
   pending (sample_logger [sample_event] False) = {#sample_event#}"
proof -
  obtain l0 where "NewAsyncAuditLogger sample_audit_config sample_audit_db = Inr l0"
    "async_Start sample_audit_config l0 = Inr (sample_logger [] False)" using sample_logger_started by blast
  from audit_events_accounted [OF this sample_logger_run(1)] show ?thesis
    by (simp add: all_defs written_def failed_def)
qed

text \<open>
  C14. Stopping the asynchronous audit logger ends and flushes: once the channel is closed, receiving
  and returning workers reach the end within as many steps as there are queued events and running
  workers, each such step brings it nearer by one, and when every worker has returned all accepted
  events have been handed to the database.
\<close>

theorem audit_stop_flushes:
  assumes "NewAsyncAuditLogger cfg d = Inr l0" "async_Start cfg l0 = Inr l1" "async_run cfg l1 es l"
    and "al_closed l" "0 < WorkerCount cfg"
  shows "(\<exists>es' l'. async_run cfg l es' l' \<and> stopped l' \<and> length es' \<le> length (al_channel l) + running_workers l \<and>
      mset (all_accepted (es @ es')) = mset (all_written (es @ es')) + mset (all_failed (es @ es'))) \<and>
    (\<not> stopped l \<longrightarrow> (\<exists>a l'. is_shutdown a \<and> async_step cfg l a l')) \<and>
    (\<forall>a l'. is_shutdown a \<and> async_step cfg l a l' \<longrightarrow> Suc (remaining l') = remaining l)"
proof -
  obtain es' l' where r: "async_run cfg l es' l'" "stopped l'" "length es' \<le> remaining l"
    using audit_shutdown.drains_to_end [OF assms(4)] by blast
  have run: "async_run cfg l1 (es @ es') l'" by (rule steps_append [OF r(1) assms(3)])
  have "async_ok cfg l'" using async_run_ok [OF run] started_ok(1) [OF assms(1,2)] by simp
  then have "pending l' = {#}" using stopped_empty [OF r(2)] assms(5) by simp
  then have "mset (all_accepted (es @ es')) = mset (all_written (es @ es')) + mset (all_failed (es @ es'))"
    using async_run_conserves [OF run] started_ok(2) [OF assms(1,2)] by simp
  then show ?thesis using r shutdown_progress [OF assms(4)] shutdown_decreases by (fastforce simp: remaining_def)
qed

theorem audit_stop_flushes_witness:
  "\<exists>es' l'. async_run sample_audit_config (sample_logger [sample_event] True) es' l' \<and> stopped l' \<and> length es' \<le> 2"
proof -
  obtain l0 where "NewAsyncAuditLogger sample_audit_config sample_audit_db = Inr l0"
    "async_Start sample_audit_config l0 = Inr (sample_logger [] False)" using sample_logger_started by blast
  note flush = audit_stop_flushes [OF this sample_logger_run(2)]
  have "length (al_channel (sample_logger [sample_event] True)) + running_workers (sample_logger [sample_event] True) = 2"
    by (simp add: sample_logger_def running_workers_def)
  moreover have "al_closed (sample_logger [sample_event] True)" "0 < WorkerCount sample_audit_config"
    by (simp_all add: sample_logger_def sample_audit_config_def)
  ultimately show ?thesis using flush by metis
qed

section \<open>The worker pool\<close>

text \<open>
  C17. A worker pool computes what its processor does job by job: if the context was not cancelled,
  the results readable when \<^verbatim>\<open>Stop\<close> returns together with those already received are the processor's
  results for exactly the accepted jobs; and while \<^verbatim>\<open>Stop\<close> waits, a worker or a reader can always
  take a step towards its return.
\<close>

theorem pool_delivers_all_results:
  assumes "pool_run f (pool_Start (NewWorkerPool False n d)) es p" "live es" "0 < n"
  shows "(\<forall>p'. pool_step f p StopReturned p' \<longrightarrow>
      mset (wp_results p') + mset (received_results es) = image_mset (run_job f) (mset (accepted_jobs es))) \<and>
    (wp_jobsClosed p \<longrightarrow> (\<exists>es' p'. pool_run f p es' p' \<and> list_all drains es' \<and> wp_idle p' = 0 \<and> wp_sending p' = []))"
  using pool_stop_complete [OF assms] pool_drain.drains_to_end [of p f] pool_run_ok [OF assms(1) worker_pool_started_ok] by blast

definition sample_processor :: "(int, int) processor" where
  "sample_processor ctxDone x = (if x = 0 then (0, Some (Plain ''zero'')) else (x + x, None))"

definition sample_pool :: "int Job list \<Rightarrow> bool \<Rightarrow> (int, int) pool" where
  "sample_pool js closed = (pool_Start (NewWorkerPool False 1 1))\<lparr>wp_jobs := js, wp_jobsClosed := closed\<rparr>"

lemma sample_pool_run:
  "pool_run sample_processor (pool_Start (NewWorkerPool False 1 1)) [Submitted 3, StopCalled] (sample_pool [\<lparr>j_Data = 3\<rparr>] True)"
proof -
  have "pool_step sample_processor (pool_Start (NewWorkerPool False 1 1)) (Submitted 3) (sample_pool [\<lparr>j_Data = 3\<rparr>] False)"
    by (rule pool_step.submit) (simp add: pool_Submit_def sample_pool_def pool_Start_def NewWorkerPool_def)
  moreover have "pool_step sample_processor (sample_pool [\<lparr>j_Data = 3\<rparr>] False) StopCalled (sample_pool [\<lparr>j_Data = 3\<rparr>] True)"
    by (rule pool_step.stop) (simp add: pool_Stop_def sample_pool_def pool_Start_def NewWorkerPool_def)
  ultimately show ?thesis using steps_Cons [where step = "pool_step sample_processor", OF _ steps_Cons [OF _ steps.Nil]] by blast
qed

text \<open>The job is processed, its result sent, the worker returns and so does \<^verbatim>\<open>Stop\<close>.\<close>

definition sample_acts :: "(int, int) pool_act list" where
  "sample_acts = [Submitted 3, StopCalled, Processed \<lparr>j_Data = 3\<rparr> (run_job sample_processor 3), SentResult, ReturnedClosed]"

definition sample_drained :: "(int, int) pool" where
  "sample_drained = (sample_pool [] True)\<lparr>wp_idle := 0, wp_returned := 1, wp_results := [run_job sample_processor 3]\<rparr>"

lemma sample_pool_drained:
  "pool_run sample_processor (pool_Start (NewWorkerPool False 1 1)) sample_acts sample_drained"
  "pool_step sample_processor sample_drained StopReturned (pool_Stop_end sample_drained)"
proof -
  let ?r = "run_job sample_processor 3" and ?step = "pool_step sample_processor" and ?p0 = "sample_pool [\<lparr>j_Data = 3\<rparr>] True"
  let ?p1 = "(sample_pool [] True)\<lparr>wp_idle := 0, wp_sending := [?r]\<rparr>"
    and ?p2 = "(sample_pool [] True)\<lparr>wp_results := [?r]\<rparr>"
  have work: "?step ?p0 (Processed \<lparr>j_Data = 3\<rparr> ?r) ?p1"
    using pool_step.work [of ?p0 "\<lparr>j_Data = 3\<rparr>" "[]" ?r sample_processor]
    by (simp add: sample_pool_def pool_Start_def NewWorkerPool_def pool_work_def process_def run_job_def)
  have send: "?step ?p1 SentResult ?p2"
    using pool_step.send [of 0 ?p1 sample_processor] by (simp add: sample_pool_def pool_Start_def NewWorkerPool_def pool_sent_def)
  have ret: "?step ?p2 ReturnedClosed sample_drained"
    using pool_step.return_closed [of ?p2 sample_processor]
    by (simp add: sample_pool_def sample_drained_def pool_Start_def NewWorkerPool_def pool_return_def)
  have "steps ?step ?p0 [Processed \<lparr>j_Data = 3\<rparr> ?r, SentResult, ReturnedClosed] sample_drained"
    by (intro steps_Cons [where step = ?step, OF work] steps_Cons [where step = ?step, OF send]
        steps_Cons [where step = ?step, OF ret] steps.Nil)
  from steps_append [OF this sample_pool_run]
  show "pool_run sample_processor (pool_Start (NewWorkerPool False 1 1)) sample_acts sample_drained"
    by (simp add: sample_acts_def)
  show "?step sample_drained StopReturned (pool_Stop_end sample_drained)"
    by (rule pool_step.stop_end) (simp_all add: sample_drained_def sample_pool_def pool_Start_def NewWorkerPool_def)
qed

theorem pool_delivers_all_results_witness:
  "pool_step sample_processor sample_drained StopReturned (pool_Stop_end sample_drained) \<and>
   mset (wp_results (pool_Stop_end sample_drained)) + mset (received_results sample_acts) =
     image_mset (run_job sample_processor) (mset (accepted_jobs sample_acts)) \<and>
   accepted_jobs sample_acts = [3]"
proof -
  have "live sample_acts" "accepted_jobs sample_acts = [3]" by (simp_all add: live_def sample_acts_def accepted_jobs_def)
  then show ?thesis
    using pool_delivers_all_results [OF sample_pool_drained(1)] sample_pool_drained(2) by simp
qed

text \<open>
  C40. Without a reader \<^verbatim>\<open>Stop\<close> may wait forever: when the results channel is full and a worker has one
  more result, no execution in which nobody receives contains the return of \<^verbatim>\<open>Stop\<close>.
\<close>

theorem pool_stop_blocks_without_reader:
  assumes "pool_run f p es p'" "length (wp_results p) = wp_queueDepth p" "wp_sending p \<noteq> []" "received_results es = []"
  shows "StopReturned \<notin> set es \<and> wp_sending p' \<noteq> []"
  using blocked_run [OF assms(1) _ assms(4)] assms(2,3) by (simp add: blocked_def)

text \<open>Two jobs for a pool of depth one reach such a state.\<close>

definition blocked_pool :: "(int, int) pool" where
  "blocked_pool = (pool_Start (NewWorkerPool False 1 1))
     \<lparr>wp_idle := 0, wp_results := [run_job sample_processor 3], wp_sending := [run_job sample_processor 4], wp_jobsClosed := True\<rparr>"

theorem pool_stop_blocks_without_reader_witness:
  "blocked blocked_pool \<and> StopReturned \<notin> set [SubmitPanic 5 :: (int, int) pool_act, ParentCancelled]"
proof -
  have b: "length (wp_results blocked_pool) = wp_queueDepth blocked_pool" "wp_sending blocked_pool \<noteq> []"
    by (simp_all add: blocked_pool_def pool_Start_def NewWorkerPool_def)
  have "pool_step sample_processor blocked_pool (SubmitPanic 5) blocked_pool"
    by (rule pool_step.panic) (simp add: pool_Submit_def blocked_pool_def)
  from steps_Cons [where step = "pool_step sample_processor", OF this steps_Cons [where step = "pool_step sample_processor", OF pool_step.parent steps.Nil]]
  show ?thesis using pool_stop_blocks_without_reader [OF _ b] b
    by (auto simp: blocked_def received_results_def)
qed

section \<open>Configuration and wiring\<close>

text \<open>
  C16. A configuration that was loaded is usable: it satisfies the limits of its fields, has the
  secrets that its database, key provider and token settings need, and with TLS on has certificates
  of PEM form whose key pair loads.  With AWS enabled its ten secrets are the trimmed values of the
  parameter store under the base path.
\<close>

theorem loaded_config_valid:
  assumes "validator_ok P" "Load P path = Inr cfg"
  shows "config_valid P cfg \<and>
    (\<forall>cfg0 a. vp_Unmarshal (ld_viper P) (snd (vp_ReadInConfig (ld_viper P) (setupViper (ld_viper P) path))) (ld_zero P) = Inr cfg0 \<longrightarrow>
       g_AWS cfg0 = Some a \<longrightarrow> awc_Enabled a \<longrightarrow>
       list_all2 (secret_at (GetSecret (ld_GetParameter P (awc_Region a)))
           (trim_right (CHR ''/'') (g_BootstrapSecretsBasePath cfg0) @ ''/''))
         secret_paths (secret_values (g_BootstrapSecrets cfg)))"
  using Load_valid [OF assms] Load_secrets [OF assms(2)] loadBootstrapSecrets_iff by blast

definition sample_config :: Config where
  "sample_config =
     \<lparr>g_Server = \<lparr>sc_Port = 50053, sc_TLS = \<lparr>tls_Enabled = False, tls_CertFile = '''', tls_KeyFile = '''',
        tls_ClientCAFile = '''', tls_ClientAuth = ''''\<rparr>, sc_Mode = ''development'',
        sc_RateLimiter = \<lparr>rlc_Enabled = True, rlc_Rate = 0, rlc_Burst = 20\<rparr>\<rparr>,
      g_Persistence = \<lparr>pc_Type = ''neondb'', pc_Database = \<lparr>dbc_Connection = \<lparr>dc_MaxConns = 4, dc_MinConns = 0,
        dc_MaxConnLifetime = hour, dc_MaxConnIdleTime = minute, dc_HealthCheckPeriod = minute\<rparr>, dbc_TLS_Enabled = False,
        dbc_TLS_SSLMode = ''''\<rparr>, pc_CircuitBreaker = \<lparr>cbc_Enabled = True, cbc_MaxFailures = 5, cbc_ResetTimeout = 30 * second\<rparr>\<rparr>,
      g_AWS = Some \<lparr>awc_Enabled = True, awc_Region = ''us-east-1'', awc_S3Bucket = '''', awc_KMSKeyARN = '''', awc_CacheTTL = ''''\<rparr>,
      g_Authorization = \<lparr>ac_Roles = [], ac_EnforceMTLSIdentityMatch = True\<rparr>,
      g_ClientCredentialsPath = ''clients.yaml'', g_DefaultKMSProvider = ''local'', g_BootstrapSecretsBasePath = ''/spounge/dev/'',
      g_Auditing = \<lparr>aac_Enabled = True, aac_ChannelBufferSize = 10, aac_WorkerCount = 1, aac_BatchSize = 5, aac_BatchTimeout = second\<rparr>,
      g_ServiceVersion = '''', g_BuildCommit = '''', g_BootstrapSecrets = zero_secrets\<rparr>"

definition sample_loader :: "unit loader" where
  "sample_loader =
     \<lparr>ld_viper = \<lparr>vp_New = (\<lambda>_. ()), vp_SetDefault = (\<lambda>_ _ v. v), vp_Set = (\<lambda>_ _ v. v), vp_ReadInConfig = (\<lambda>v. (ReadOk, v)),
        vp_Unmarshal = (\<lambda>_ _. Inr sample_config)\<rparr>,
      ld_zero = sample_config, ld_json = (\<lambda>_. Inr []), ld_yaml = (\<lambda>_. Inr []), ld_LoadDefaultConfig = (\<lambda>_. None),
      ld_GetParameter = (\<lambda>_ p. Inr ''AAAA''), ld_RegisterValidation = None,
      ld_Struct = (\<lambda>cfg. if struct_tags cfg then None else Some (Plain ''validation failed'')),
      ld_X509KeyPair = (\<lambda>_ _. None), ld_LookupEnv = (\<lambda>_. None)\<rparr>"

definition sample_secrets :: BootstrapSecrets where
  "sample_secrets = \<lparr>bs_PolykeyMasterKey = ''AAAA'', bs_NeonDBURL = ''AAAA'', bs_JWTRSAPrivateKey = ''AAAA'',
     bs_TLSServerCert = ''AAAA'', bs_TLSServerKey = ''AAAA'', bs_AWSKMSKeyARN = ''AAAA'', bs_SpoungeCA = ''AAAA'',
     bs_CircuitBreakerConfig = ''AAAA'', bs_RateLimiterConfig = ''AAAA'', bs_AsyncAuditingConfig = ''AAAA''\<rparr>"

definition sample_loaded :: Config where
  "sample_loaded = sample_config\<lparr>g_BootstrapSecrets := sample_secrets, g_ServiceVersion := ''unknown'', g_BuildCommit := ''unknown''\<rparr>"

lemma trim_A: "trim_space ''AAAA'' = ''AAAA''"
  by code_simp

lemma sample_secrets_loaded:
  "loadBootstrapSecrets (GetSecret (\<lambda>p. Inr ''AAAA'')) b = Inr sample_secrets"
  unfolding loadBootstrapSecrets_iff secret_paths_def secret_fields_def sample_secrets_def secret_values_def
  by (simp add: secret_at_def GetSecret_def trim_A)

lemma sample_Load: "Load sample_loader '''' = Inr sample_loaded" "validator_ok sample_loader"
proof -
  have tags: "struct_tags (sample_config\<lparr>g_BootstrapSecrets := sample_secrets\<rparr>)"
    by (simp add: struct_tags_def sample_config_def)
  have ov: "applyBootstrapConfigOverrides sample_loader s v = Inr v" for s v
    by (simp add: applyBootstrapConfigOverrides_def override_section_def applyConfigOverride_def sample_loader_def Let_def)
  have sec: "load_secrets sample_loader sample_config v = Inr (Some sample_secrets, v)" for v
    using sample_secrets_loaded ov
    by (simp add: load_secrets_def loadAWSBootstrapSecrets_def sample_config_def) (simp add: sample_loader_def)
  have val: "validateConfig sample_loader (sample_config\<lparr>g_BootstrapSecrets := sample_secrets\<rparr>) = None"
    using tags by (simp add: validateConfig_def sample_loader_def Let_def sample_config_def sample_secrets_def)
  have fin: "finish_load sample_loader sample_config (Some sample_secrets) v = Inr sample_loaded" for v
    using val by (simp add: finish_load_def sample_loaded_def Let_def) (simp add: sample_loader_def getenv_def)
  show "Load sample_loader '''' = Inr sample_loaded"
    using sec fin by (simp add: Load_def Let_def) (simp add: sample_loader_def)
  show "validator_ok sample_loader" by (simp add: validator_ok_def sample_loader_def)
qed

theorem loaded_config_valid_witness:
  "Load sample_loader '''' = Inr sample_loaded \<and> config_valid sample_loader sample_loaded"
  using loaded_config_valid [OF sample_Load(2,1)] sample_Load(1) by simp

text \<open>
  C12. The container wires the server: the guarded initializers, run in their order on a fresh
  container, give exactly the dependencies of the configuration or the first error of the pool, the
  key providers, the audit logger, the client file or the token key; no guard for a missing
  component fires.  With the circuit breaker on, the key service among them is the service that the
  properties of the other components are about.
\<close>

theorem container_wires_configuration:
  "fst (GetDependencies pf (NewContainer cfg)) =
     (case wired pf cfg of
        Inl err \<Rightarrow> Inl (wrapf ''failed to initialize dependencies'' err)
      | Inr deps \<Rightarrow> Inr deps) \<and>
   (wired pf cfg = Inr deps \<longrightarrow> cbc_Enabled (pc_CircuitBreaker (g_Persistence cfg)) \<longrightarrow>
     g_AWS cfg = Some a \<longrightarrow> pf_LoadDefaultConfig pf (awc_Region a) = None \<longrightarrow>
     base64_DecodeString (bs_PolykeyMasterKey (g_BootstrapSecrets cfg)) = Inr mk \<longrightarrow>
     d_KeyService deps = Some (polykey_service (pf_env pf) (pf_crypto pf) (pf_aws pf) (pf_names pf) mk
       (bs_PolykeyMasterKey (g_BootstrapSecrets cfg) \<noteq> '''')
       (awc_Enabled a \<and> bs_AWSKMSKeyARN (g_BootstrapSecrets cfg) \<noteq> '''') (bs_AWSKMSKeyARN (g_BootstrapSecrets cfg))
       (g_DefaultKMSProvider cfg)))"
  using GetDependencies_wired wired_polykey_service by blast

definition sample_platform :: platform where
  "sample_platform =
     \<lparr>pf_env = sample_env, pf_crypto = sample_crypto, pf_aws = sample_aws, pf_names = (\<lambda>_. ''NAME''),
      pf_ParseConfig = (\<lambda>_. Inr \<lparr>po_Host = ''db'', po_RuntimeParams = None, po_TLSConfig = None, po_MaxConns = 0, po_MinConns = 0,
        po_MaxConnIdleTime = 0, po_MaxConnLifetime = 0, po_HealthCheckPeriod = 0\<rparr>),
      pf_NewWithConfig = (\<lambda>_. None), pf_Ping = (\<lambda>_. None), pf_LoadDefaultConfig = (\<lambda>_. None), pf_ReadFile = (\<lambda>_. Inr ''''),
      pf_yaml_clients = (\<lambda>_. Inr [(''alice'', \<lparr>cd_HashedAPIKey = ''$2a$'' @ replicate 56 (CHR ''x''), cd_Permissions = [''user'']\<rparr>)]),
      pf_ParseRSAPrivateKeyFromPEM = (\<lambda>_. None), pf_X509KeyPair = (\<lambda>_ _. None), pf_AppendCertsFromPEM = (\<lambda>_. True),
      pf_Listen = (\<lambda>p. Inr p), pf_audit_db = sample_audit_db\<rparr>"

lemma sample_master_key: "\<exists>mk. base64_DecodeString ''AAAA'' = Inr mk"
proof -
  have "b64_value (CHR ''A'') = Some 0" by (simp add: b64_value_def of_char_def)
  then show ?thesis by (simp add: base64_DecodeString_def)
qed

lemma sample_wired: "\<exists>deps. wired sample_platform sample_loaded = Inr deps"
proof -
  obtain mk where mk: "base64_DecodeString ''AAAA'' = Inr mk" using sample_master_key by blast
  have pool: "\<exists>p. NewSecureConnectionPool sample_platform u (g_Server sample_loaded) (g_Persistence sample_loaded) = Inr p" for u
    by (simp add: NewSecureConnectionPool_def sample_platform_def sample_loaded_def sample_config_def Let_def)
  have kms: "\<exists>ps. kms_of sample_platform sample_loaded = Inr ps"
    using mk by (simp add: kms_of_def sample_loaded_def sample_secrets_def sample_config_def sample_platform_def Let_def NewLocalKMSProvider_def)
  have log: "\<exists>l. make_audit_logger (g_Auditing sample_loaded) (pf_audit_db sample_platform) = Inr l"
    by (simp add: make_audit_logger_ok sample_loaded_def sample_config_def second_def)
  have cs: "\<exists>cs. NewFileClientStore (pf_yaml_clients sample_platform) p (pf_ReadFile sample_platform p) = Inr cs" for p
    by (simp add: NewFileClientStore_def sample_platform_def validateClientData_def)
  have tm: "NewTokenManager sample_platform k = Inr k" for k by (simp add: NewTokenManager_def sample_platform_def)
  obtain p where p: "NewSecureConnectionPool sample_platform (bs_NeonDBURL (g_BootstrapSecrets sample_loaded)) (g_Server sample_loaded)
      (g_Persistence sample_loaded) = Inr p" using pool by blast
  obtain ps where ps: "kms_of sample_platform sample_loaded = Inr ps" using kms by blast
  obtain l where l: "make_audit_logger (g_Auditing sample_loaded) (pf_audit_db sample_platform) = Inr l" using log by blast
  obtain c where c: "NewFileClientStore (pf_yaml_clients sample_platform) (g_ClientCredentialsPath sample_loaded)
      (pf_ReadFile sample_platform (g_ClientCredentialsPath sample_loaded)) = Inr c" using cs by blast
  show ?thesis unfolding wired_def p ps l c tm by simp
qed

theorem container_wires_configuration_witness:
  "\<exists>deps mk. fst (GetDependencies sample_platform (NewContainer sample_loaded)) = Inr deps \<and>
     d_KeyService deps = Some (polykey_service sample_env sample_crypto sample_aws (\<lambda>_. ''NAME'') mk True True ''AAAA'' ''local'')"
proof -
  obtain deps where deps: "wired sample_platform sample_loaded = Inr deps" using sample_wired by blast
  obtain mk where mk: "base64_DecodeString ''AAAA'' = Inr mk" using sample_master_key by blast
  note w = container_wires_configuration [of sample_platform sample_loaded deps "the (g_AWS sample_loaded)" mk]
  have "fst (GetDependencies sample_platform (NewContainer sample_loaded)) = Inr deps" using w deps by simp
  moreover have "d_KeyService deps = Some (polykey_service sample_env sample_crypto sample_aws (\<lambda>_. ''NAME'') mk True True ''AAAA'' ''local'')"
    using conjunct2 [OF w] deps mk by (simp add: sample_loaded_def sample_config_def sample_secrets_def) (simp add: sample_platform_def)
  ultimately show ?thesis by blast
qed

end
