(* ===== verification/Spec2Isabelle.thy ===== *)
theory Spec2Isabelle
  imports Prelude Steps GoErrors Domain Cache CircuitBreaker KeyTable Memory World Retry PSQLAdapter Repository CachedRepository BreakerRepository KMS Batch KeyService KeyRetriever Pipeline KeyManager Auth Validation Liveness Sample GrpcService GrpcLiveness SampleServer S3Storage AuditTrail AsyncAudit WorkerPool Optimizer Config Wiring StorageProperties ServiceProperties AccessProperties InfraProperties
begin

text \<open>
  \<^bold>\<open>Verification of polykey\<close>, a key management service in Go (\<^verbatim>\<open>src/\<close>).

  \<^bold>\<open>The program.\<close>  Clients call a gRPC server.  A call passes the logging, the authentication and the
  validation interceptor and reaches a handler, which authorizes the caller and calls the key
  service; errors are classified and sanitized on the way out.  The key service creates, reads,
  rotates and revokes data encryption keys: a KMS provider encrypts them, a repository stores them.
  The repository is a PostgreSQL adapter behind a cache behind a circuit breaker.  Rotations go
  through a pipeline of workers, batches through a batch processor, audit events through a
  synchronous or an asynchronous logger to their own table.  At start the program loads its
  configuration and builds all this in a container.

  \<^bold>\<open>The model.\<close>  One theory per part; definitions carry the names of the code, with a prefix where two
  types share a method name (\<open>psql_\<close>, \<open>cached_\<close>, \<open>cb_\<close>, \<open>rpc_\<close>, \<open>s3_\<close>).
    \<^item> \<open>Prelude\<close>: types, \<^verbatim>\<open>int64\<close>, \<^verbatim>\<open>strings.TrimSpace\<close>, \<^verbatim>\<open>strconv.Itoa\<close>.  \<open>GoErrors\<close>: errors, wrapping, the
      classifier (\<^verbatim>\<open>internal/errors\<close>).  \<open>Domain\<close>: \<^verbatim>\<open>internal/domain\<close>, the tier rules.
    \<^item> \<open>Cache\<close>, \<open>CircuitBreaker\<close>, \<open>Memory\<close>, \<open>Retry\<close>, \<open>Batch\<close>, \<open>WorkerPool\<close>: the packages of \<^verbatim>\<open>pkg/\<close>.  Concurrent
      callers of the breaker, the batch processor and the worker pool are step relations.
    \<^item> \<open>KeyTable\<close>: the \<^verbatim>\<open>keys\<close> table and its SQL statements.  \<open>World\<close>: the state of the server (table,
      heap of key objects, caches, breaker, buffers, audit trail) and what the environment decides
      (clocks, the outcome of each database round trip, the winner of each race).
    \<^item> \<open>PSQLAdapter\<close>, \<open>CachedRepository\<close>, \<open>BreakerRepository\<close>, \<open>Optimizer\<close>, \<open>S3Storage\<close>:
      \<^verbatim>\<open>internal/infra/persistence\<close>.  \<open>Repository\<close> has the contracts between the layers.
    \<^item> \<open>KMS\<close>: \<^verbatim>\<open>internal/kms\<close>.  \<open>KeyService\<close>, \<open>KeyRetriever\<close>, \<open>KeyManager\<close>: \<^verbatim>\<open>internal/service\<close>.  \<open>Pipeline\<close>:
      \<^verbatim>\<open>internal/pipelines\<close>, with workers and callers as a step relation.
    \<^item> \<open>Auth\<close>: authorizer, tokens, client store, authentication service, rate limiter, authentication
      interceptor.  \<open>Validation\<close>: request validation.  \<open>GrpcService\<close>: handlers and interceptor chain.
    \<^item> \<open>AuditTrail\<close>, \<open>AsyncAudit\<close>: the audit table, its repository and the loggers, with channel, workers and
      ticker of the asynchronous one as a step relation; the logging interceptor.
    \<^item> \<open>Config\<close>, \<open>Wiring\<close>: \<^verbatim>\<open>internal/infra/config\<close>, the parameter store, the connection pool, TLS,
      \<^verbatim>\<open>internal/wiring\<close>, the server object and \<^verbatim>\<open>cmd/polykey/main.go\<close>.

  Stateful code passes its state explicitly; a fallible call returns \<open>Inl error\<close> or \<open>Inr value\<close>, and a
  panic is the value \<open>Panicked\<close>.  Keys that Go passes by pointer are indices into a heap, so that the
  cache and its readers share them.

  \<^bold>\<open>Code outside the repository\<close> is a parameter: cryptography, the AWS SDK (KMS, S3, SSM), JWT,
  bcrypt, uuid, the token bucket, JSON and YAML, viper, the struct validator, pgx, X.509 and the random
  sources.  What the properties need of it is a named predicate (\<open>crypto_ok\<close>, \<open>aws_ok\<close>, \<open>jwt_ok\<close>,
  \<open>uuid_lib_ok\<close>, \<open>env_ok\<close>, \<open>s3_ok\<close>, \<open>status_enum_ok\<close>, \<open>json_codec_ok\<close>, \<open>validator_ok\<close> and others), and every property
  with such a hypothesis has a witness on a concrete instance (\<open>Sample\<close>, \<open>SampleServer\<close>,
  \<open>InfraProperties\<close>).

  \<^bold>\<open>Contracts.\<close>  The locales \<open>cache_store\<close>, \<open>row_update\<close>, \<open>key_repository\<close>, \<open>plain_repository\<close>,
  \<open>breakable_repository\<close>, \<open>kms\<close> and \<open>key_service\<close> state what one part promises another; they are
  interpreted on the cache, the adapter, the decorated repository, both KMS providers and the
  assembled service, whose facts the properties use.  The theory \<open>Steps\<close> has the executions of labelled
  step relations and two contracts, \<open>conserving\<close> (nothing inside gets lost) and \<open>draining\<close> (internal steps
  reach an end), interpreted on the rotation pipeline, the audit logger and the worker pool.

  \<^bold>\<open>What is shown.\<close>
    \<^item> \<open>StorageProperties\<close>: the production repository refines the table whatever the cache holds, its
      writes keep the invariant, rotations are atomic, the cache refines a map with deadlines, the
      breaker's state machine, bounds of retries; and where the code departs from what is meant.
    \<^item> \<open>ServiceProperties\<close>: creation, rotation and revocation seen through later reads, zeroed buffers,
      KMS round trip, batches as sequential runs and their termination, conservation in the pipeline.
    \<^item> \<open>AccessProperties\<close>: the whole server, from a token to the table: access control, error hygiene,
      token revocation, rate limits, validation, and a create/read round trip over gRPC.
    \<^item> \<open>InfraProperties\<close>: the object store, audit conservation and flushing, the worker pool, loaded
      configurations, and that the container builds exactly the service the rest is about.

  \<^bold>\<open>Bounds and fuel.\<close>  No definition uses fuel: loops are recursive over finite data (attempts, items,
  pages, settings), and concurrent programs are step relations with a measure that every internal
  step decreases.  Times are integers in nanoseconds; \<^verbatim>\<open>int64\<close> and \<^verbatim>\<open>int32\<close> wrap around where the code
  adds to them; bytes are \<open>8 word\<close>.

  \<^bold>\<open>Not modelled.\<close>  Network transport, tracing and metrics; the health and reflection services of
  grpc-go; contexts that time out, except where the outcome of a call is a parameter; the text of
  debug logs; the test doubles, the development and test clients, the migration tool and the
  scripts, which are not part of the server; \<^verbatim>\<open>wire_mocks.go\<close>, which is built only with a test tag.
\<close>

end
